(* ===== verification/Prelude.thy ===== *)
theory Prelude
  imports Main "HOL-Library.Word" "HOL-Library.Sublist"
begin

section \<open>Prelude: integers, byte strings and list lemmas shared by the components\<close>

text \<open>
  Rust's \<open>u64\<close>, \<open>u32\<close> and \<open>usize\<close> are words of 64, 32 and 64 bits where the code's checked or
  saturating arithmetic is visible, and \<open>nat\<close> where the value is a length. A Rust \<open>str\<close> is its
  UTF-8 byte sequence, a \<open>string\<close> whose \<open>char\<close>s are bytes: \<open>length\<close> is \<open>str::len\<close>, and
  byte offsets are list positions. \<open>chars\<close> splits such a string into its characters, each given
  by its own bytes, which is what \<open>str::chars\<close> walks over.
\<close>

type_synonym u64 = "64 word"
type_synonym u32 = "32 word"
type_synonym i64 = int

named_theorems model_defs \<open>definitions that unfold to plain HOL terms\<close>

subsection \<open>Checked and saturating arithmetic\<close>

definition checked_add :: "'a::len word \<Rightarrow> 'a word \<Rightarrow> 'a word option" where
  "checked_add a b = (if unat a + unat b < 2 ^ LENGTH('a) then Some (a + b) else None)"

definition saturating_add :: "'a::len word \<Rightarrow> 'a word \<Rightarrow> 'a word" where
  "saturating_add a b = (if unat a + unat b < 2 ^ LENGTH('a) then a + b else - 1)"

definition usize_max :: nat where
  "usize_max = 2 ^ 64 - 1"

definition usat_add :: "nat \<Rightarrow> nat \<Rightarrow> nat" where
  \<comment> \<open>\<open>usize::saturating_add\<close> on lengths; \<open>usize::saturating_sub\<close> is subtraction on \<open>nat\<close>.\<close>
  "usat_add a b = min (a + b) usize_max"

lemma checked_add_SomeD:
  assumes "checked_add a b = Some c"
  shows "unat c = unat a + unat b"
  using assms by (auto simp: checked_add_def unat_word_ariths split: if_splits)

lemma checked_add_NoneD:
  fixes a b :: "'a::len word"
  assumes "checked_add a b = None"
  shows "2 ^ LENGTH('a) \<le> unat a + unat b"
  using assms by (auto simp: checked_add_def split: if_splits)

lemma unat_max_word: "unat (- 1 :: 'a::len word) = 2 ^ LENGTH('a) - 1"
  by (simp add: unsigned_minus_1_eq_mask mask_eq_exp_minus_1)

lemma unat_saturating_add:
  fixes a b :: "'a::len word"
  shows "unat (saturating_add a b) = min (unat a + unat b) (2 ^ LENGTH('a) - 1)"
  by (auto simp: saturating_add_def unat_word_ariths unat_max_word min_def)

lemma saturating_add_mono:
  fixes a b :: "'a::len word"
  shows "unat a \<le> unat (saturating_add a b)"
proof -
  have "unat (a :: 'a word) < 2 ^ LENGTH('a)"
    by (rule unsigned_less)
  then have "unat a \<le> 2 ^ LENGTH('a) - 1"
    by (cases "2 ^ LENGTH('a) :: nat") auto
  then show ?thesis by (simp add: unat_saturating_add)
qed

lemma saturating_add_le: "a \<le> saturating_add a b"
  using saturating_add_mono [of a b] by (simp add: word_le_nat_alt)

lemma usat_add_le: "usat_add a b \<le> a + b"
  by (simp add: usat_add_def)

lemma usat_add_exact: "a + b \<le> usize_max \<Longrightarrow> usat_add a b = a + b"
  by (simp add: usat_add_def)

subsection \<open>Prefixes, substrings and searches\<close>

fun starts_with :: "'a list \<Rightarrow> 'a list \<Rightarrow> bool" where
  \<comment> \<open>\<open>starts_with s p\<close> is \<open>s.starts_with(p)\<close>.\<close>
  "starts_with _ [] = True"
| "starts_with [] (_ # _) = False"
| "starts_with (x # xs) (y # ys) = (x = y \<and> starts_with xs ys)"

fun str_contains :: "'a list \<Rightarrow> 'a list \<Rightarrow> bool" where
  \<comment> \<open>\<open>str_contains s p\<close> is \<open>s.contains(p)\<close>.\<close>
  "str_contains [] p = (p = [])"
| "str_contains (x # xs) p = (starts_with (x # xs) p \<or> str_contains xs p)"

fun str_find :: "'a list \<Rightarrow> 'a list \<Rightarrow> nat option" where
  \<comment> \<open>\<open>str_find s p\<close> is \<open>s.find(p)\<close>: the byte offset of the first occurrence.\<close>
  "str_find [] p = (if p = [] then Some 0 else None)"
| "str_find (x # xs) p =
     (if starts_with (x # xs) p then Some 0 else map_option Suc (str_find xs p))"

fun find_pred :: "('a \<Rightarrow> bool) \<Rightarrow> 'a list \<Rightarrow> nat option" where
  \<comment> \<open>the position of the first element that satisfies the predicate\<close>
  "find_pred P [] = None"
| "find_pred P (x # xs) = (if P x then Some 0 else map_option Suc (find_pred P xs))"

definition contains_any :: "string \<Rightarrow> string list \<Rightarrow> bool" where
  "contains_any value needles = list_ex (\<lambda>needle. str_contains value needle) needles"

lemma starts_with_iff: "starts_with s p \<longleftrightarrow> (\<exists>t. s = p @ t)"
  by (induction s p rule: starts_with.induct) auto

lemma starts_with_append [simp]: "starts_with (p @ t) p"
  by (auto simp: starts_with_iff)

lemma starts_with_take: "starts_with s p \<Longrightarrow> s = p @ drop (length p) s"
  by (auto simp: starts_with_iff)

lemma str_contains_iff: "str_contains s p \<longleftrightarrow> (\<exists>u v. s = u @ p @ v)"
proof (induction s)
  case Nil
  then show ?case by simp
next
  case (Cons x xs)
  show ?case
    by (auto simp: Cons starts_with_iff Cons_eq_append_conv)
qed

lemma str_contains_appendI1: "str_contains s p \<Longrightarrow> str_contains (s @ t) p"
  by (metis append.assoc str_contains_iff)

lemma str_contains_appendI2: "str_contains s p \<Longrightarrow> str_contains (t @ s) p"
  by (metis append.assoc str_contains_iff)

lemma str_contains_self [simp]: "str_contains s s"
  by (metis append.right_neutral append_Nil str_contains_iff)

lemma str_contains_trans:
  "str_contains a b \<Longrightarrow> str_contains b c \<Longrightarrow> str_contains a c"
  by (metis append.assoc str_contains_iff)

lemma str_contains_map: "str_contains s p \<Longrightarrow> str_contains (map f s) (map f p)"
  by (metis map_append str_contains_iff)

lemma str_find_None: "str_find s p = None \<longleftrightarrow> \<not> str_contains s p"
  by (induction s) auto

lemma str_find_SomeD:
  "str_find s p = Some i \<Longrightarrow>
     i + length p \<le> length s \<and> s = take i s @ p @ drop (i + length p) s"
proof (induction s arbitrary: i)
  case Nil
  then show ?case by (auto split: if_splits)
next
  case (Cons x xs)
  show ?case
  proof (cases "starts_with (x # xs) p")
    case True
    with Cons.prems have "i = 0" by simp
    moreover obtain t where "x # xs = p @ t"
      using True by (auto simp: starts_with_iff)
    ultimately show ?thesis by simp
  next
    case False
    with Cons.prems obtain j where j: "str_find xs p = Some j" "i = Suc j"
      by auto
    from Cons.IH [OF j(1)] j(2) show ?thesis by simp
  qed
qed

lemma str_find_minimal:
  "str_find s p = Some i \<Longrightarrow> j < i \<Longrightarrow> \<not> starts_with (drop j s) p"
proof (induction s arbitrary: i j)
  case Nil
  then show ?case by (auto split: if_splits)
next
  case (Cons x xs)
  then have nst: "\<not> starts_with (x # xs) p"
    by (auto split: if_splits)
  with Cons.prems obtain k where k: "str_find xs p = Some k" "i = Suc k"
    by auto
  show ?case
  proof (cases j)
    case 0
    with nst show ?thesis by simp
  next
    case (Suc j')
    with Cons.prems k have "j' < k" by simp
    with Cons.IH k(1) Suc show ?thesis by simp
  qed
qed

lemma occurrence_nth:
  assumes "out = u @ p @ v" "length u \<le> i" "i < length u + length p"
  shows "out ! i \<in> set p"
  using assms by (auto simp: nth_append)

lemma occurrence_position:
  assumes "a @ b = u @ p @ v" "length u + length p \<le> length a"
  shows "\<exists>w. a = u @ p @ w \<and> v = w @ b"
  using assms by (auto simp: append_eq_append_conv2)

lemma append_position:
  assumes "a @ b = u @ c" "length a \<le> length u"
  shows "\<exists>w. u = a @ w \<and> b = w @ c"
  using assms by (auto simp: append_eq_append_conv2)

lemma starts_with_short:
  "starts_with (w @ x) r \<Longrightarrow> length w \<le> length r \<Longrightarrow> prefix w r"
  by (metis prefixI prefix_length_prefix starts_with_iff)

lemma starts_with_mono: "starts_with w r \<Longrightarrow> starts_with (w @ x) r"
  by (auto simp: starts_with_iff)

lemma starts_with_long:
  "starts_with (w @ x) r \<Longrightarrow> length r \<le> length w \<Longrightarrow> starts_with w r"
  by (metis append_position starts_with_iff)

lemma starts_with_until:
  assumes "starts_with (w @ x) r" "c \<in> set w" "c \<notin> set r"
  shows "starts_with w r"
proof (cases "length r \<le> length w")
  case True
  with assms(1) show ?thesis by (rule starts_with_long)
next
  case False
  with assms(1) have "prefix w r" by (intro starts_with_short) simp_all
  then have "set w \<subseteq> set r" by (rule set_mono_prefix)
  with assms(2,3) show ?thesis by blast
qed

lemma starts_with_before:
  assumes "starts_with (b @ c # y) r" "c \<notin> set r"
  shows "starts_with b r"
proof (cases "length r \<le> length b")
  case True
  with assms(1) show ?thesis by (rule starts_with_long)
next
  case False
  from assms(1) obtain t where "b @ c # y = r @ t" by (auto simp: starts_with_iff)
  then have "(r @ t) ! length b = c" by (metis nth_append_length)
  with False have "r ! length b = c" by (simp add: nth_append)
  with False have "c \<in> set r" by (metis not_le nth_mem)
  with assms(2) show ?thesis by blast
qed

lemma find_pred_None: "find_pred P s = None \<longleftrightarrow> (\<forall>x\<in>set s. \<not> P x)"
  by (induction s) auto

lemma find_pred_SomeD:
  "find_pred P s = Some i \<Longrightarrow> i < length s \<and> P (s ! i) \<and> (\<forall>x\<in>set (take i s). \<not> P x)"
  by (induction s arbitrary: i) (auto split: if_splits)

lemma find_pred_takeWhile:
  "(case find_pred P s of None \<Rightarrow> length s | Some i \<Rightarrow> i) = length (takeWhile (\<lambda>x. \<not> P x) s)"
  by (induction s) (auto split: option.splits)

lemma contains_any_iff: "contains_any s ns \<longleftrightarrow> (\<exists>n\<in>set ns. str_contains s n)"
  by (simp add: contains_any_def list_ex_iff)

subsection \<open>Bytes and characters\<close>

definition byte :: "char \<Rightarrow> nat" where
  "byte c = of_char c"

definition ascii_lower :: "char \<Rightarrow> char" where
  "ascii_lower c = (if 65 \<le> byte c \<and> byte c \<le> 90 then char_of (byte c + 32) else c)"

definition to_ascii_lowercase :: "string \<Rightarrow> string" where
  "to_ascii_lowercase s = map ascii_lower s"

definition eq_ignore_ascii_case :: "string \<Rightarrow> string \<Rightarrow> bool" where
  "eq_ignore_ascii_case a b = (to_ascii_lowercase a = to_ascii_lowercase b)"

definition is_ascii_digit :: "char \<Rightarrow> bool" where
  "is_ascii_digit c = (48 \<le> byte c \<and> byte c \<le> 57)"

definition is_ascii_whitespace :: "char \<Rightarrow> bool" where
  "is_ascii_whitespace c = (byte c \<in> {9, 10, 12, 13, 32})"

definition utf8_width :: "char \<Rightarrow> nat" where
  \<comment> \<open>the length of the UTF-8 sequence a leading byte announces\<close>
  "utf8_width c = (if byte c < 192 then 1 else if byte c < 224 then 2
                   else if byte c < 240 then 3 else 4)"

function chars :: "string \<Rightarrow> string list" where
  "chars [] = []"
| "chars (c # cs) = (c # take (utf8_width c - 1) cs) # chars (drop (utf8_width c - 1) cs)"
  by pat_completeness auto
termination
  by (relation "measure length") auto

lemma concat_chars [simp]: "concat (chars s) = s"
  by (induction s rule: chars.induct) auto

lemma chars_nonempty: "x \<in> set (chars s) \<Longrightarrow> x \<noteq> []"
  by (induction s rule: chars.induct) auto

definition is_whitespace :: "string \<Rightarrow> bool" where
  \<comment> \<open>\<open>char::is_whitespace\<close> (Unicode \<open>White_Space\<close>) on the UTF-8 bytes of one character\<close>
  "is_whitespace u = (case map byte u of
      [a] \<Rightarrow> (9 \<le> a \<and> a \<le> 13) \<or> a = 32
    | [a, b] \<Rightarrow> a = 194 \<and> (b = 133 \<or> b = 160)
    | [a, b, c] \<Rightarrow> (a = 225 \<and> b = 154 \<and> c = 128)
        \<or> (a = 226 \<and> b = 128 \<and> ((128 \<le> c \<and> c \<le> 138) \<or> c = 168 \<or> c = 169 \<or> c = 175))
        \<or> (a = 226 \<and> b = 129 \<and> c = 159) \<or> (a = 227 \<and> b = 128 \<and> c = 128)
    | _ \<Rightarrow> False)"

definition is_control :: "string \<Rightarrow> bool" where
  \<comment> \<open>\<open>char::is_control\<close> (Unicode category Cc)\<close>
  "is_control u = (case map byte u of
      [a] \<Rightarrow> a < 32 \<or> a = 127
    | [a, b] \<Rightarrow> a = 194 \<and> 128 \<le> b \<and> b \<le> 159
    | _ \<Rightarrow> False)"

definition trim_start :: "string \<Rightarrow> string" where
  "trim_start s = concat (dropWhile is_whitespace (chars s))"

definition trim_end :: "string \<Rightarrow> string" where
  "trim_end s = concat (rev (dropWhile is_whitespace (rev (chars s))))"

definition trim :: "string \<Rightarrow> string" where
  "trim s = trim_end (trim_start s)"

definition is_char_boundary :: "string \<Rightarrow> nat \<Rightarrow> bool" where
  \<comment> \<open>\<open>str::is_char_boundary\<close>: not inside a multi-byte sequence, False past the end\<close>
  "is_char_boundary s i =
     (i = 0 \<or> i = length s \<or>
      (i < length s \<and> \<not> (128 \<le> byte (s ! i) \<and> byte (s ! i) < 192)))"

fun floor_char_boundary :: "string \<Rightarrow> nat \<Rightarrow> nat" where
  \<comment> \<open>the loop \<open>while !s.is_char_boundary(end) { end -= 1 }\<close>\<close>
  "floor_char_boundary s 0 = 0"
| "floor_char_boundary s (Suc n) =
     (if is_char_boundary s (Suc n) then Suc n else floor_char_boundary s n)"

lemma floor_char_boundary_le: "floor_char_boundary s n \<le> n"
  by (induction n) auto

lemma floor_char_boundary_boundary: "is_char_boundary s (floor_char_boundary s n)"
  by (induction n) (auto simp: is_char_boundary_def)

lemma floor_char_boundary_id: "is_char_boundary s n \<Longrightarrow> floor_char_boundary s n = n"
  by (cases n) auto

lemma floor_char_boundary_length:
  "floor_char_boundary s n \<le> length s"
  using floor_char_boundary_boundary [of s n] by (auto simp: is_char_boundary_def)

lemma length_to_ascii_lowercase [simp]: "length (to_ascii_lowercase s) = length s"
  by (simp add: to_ascii_lowercase_def)

lemma to_ascii_lowercase_append [simp]:
  "to_ascii_lowercase (a @ b) = to_ascii_lowercase a @ to_ascii_lowercase b"
  by (simp add: to_ascii_lowercase_def)

subsection \<open>Lines\<close>

fun split_on :: "'a \<Rightarrow> 'a list \<Rightarrow> 'a list list" where
  \<comment> \<open>\<open>str::split(c)\<close>: always at least one piece\<close>
  "split_on c [] = [[]]"
| "split_on c (x # xs) =
     (if x = c then [] # split_on c xs
      else (case split_on c xs of [] \<Rightarrow> [[x]] | p # ps \<Rightarrow> (x # p) # ps))"

definition strip_cr :: "string \<Rightarrow> string" where
  "strip_cr l = (if l \<noteq> [] \<and> last l = CHR 0x0D then butlast l else l)"

definition str_lines :: "string \<Rightarrow> string list" where
  \<comment> \<open>\<open>str::lines\<close>: the pieces between line feeds, a carriage return before a line feed
      dropped, and no last line after a final line feed\<close>
  "str_lines s = (let ps = split_on CHR 0x0A s
     in map strip_cr (butlast ps) @ (if last ps = [] then [] else [last ps]))"

fun join :: "'a list \<Rightarrow> 'a list list \<Rightarrow> 'a list" where
  "join sep [] = []"
| "join sep [x] = x"
| "join sep (x # y # xs) = x @ sep @ join sep (y # xs)"

lemma split_on_nonempty [simp]: "split_on c s \<noteq> []"
  by (cases s) (auto split: list.splits)

lemma split_on_free: "p \<in> set (split_on c s) \<Longrightarrow> c \<notin> set p"
  by (induction s arbitrary: p) (auto split: if_splits list.splits)

lemma split_on_id: "c \<notin> set s \<Longrightarrow> split_on c s = [s]"
  by (induction s) auto

lemma split_on_append:
  "c \<notin> set p \<Longrightarrow> split_on c (p @ c # s) = p # split_on c s"
  by (induction p) auto

lemma join_split_on [simp]: "join [c] (split_on c s) = s"
proof (induction s)
  case Nil
  then show ?case by simp
next
  case (Cons x s)
  obtain p ps where s: "split_on c s = p # ps"
    using split_on_nonempty [of c s] by (meson neq_Nil_conv)
  with Cons.IH show ?case
    by (cases ps) auto
qed

lemma split_on_join:
  "xs \<noteq> [] \<Longrightarrow> (\<And>x. x \<in> set xs \<Longrightarrow> c \<notin> set x) \<Longrightarrow> split_on c (join [c] xs) = xs"
proof (induction xs rule: induct_list012)
  case (3 x y xs)
  then have "split_on c (x @ c # join [c] (y # xs)) = x # split_on c (join [c] (y # xs))"
    by (intro split_on_append) simp
  with 3 show ?case by simp
qed (auto simp: split_on_id)

lemma str_lines_pieces:
  assumes "l \<in> set (str_lines s)"
  obtains p where "p \<in> set (split_on CHR 0x0A s)" "str_contains p l"
proof -
  from assms consider (a) p where "p \<in> set (butlast (split_on CHR 0x0A s))" "l = strip_cr p"
    | (b) "l = last (split_on CHR 0x0A s)"
    by (auto simp: str_lines_def Let_def split: if_splits)
  then show thesis
  proof cases
    case a
    have "str_contains p (strip_cr p)"
    proof (cases "p \<noteq> [] \<and> last p = CHR 0x0D")
      case True
      then have "strip_cr p = butlast p" "p = butlast p @ [last p]"
        by (simp add: strip_cr_def, metis append_butlast_last_id)
      then show ?thesis
        by (metis str_contains_appendI1 str_contains_self)
    next
      case False
      then have "strip_cr p = p" by (auto simp: strip_cr_def)
      then show ?thesis by simp
    qed
    with a that show thesis by (meson in_set_butlastD)
  next
    case b
    then show thesis using that [of l] by simp
  qed
qed

lemma str_lines_LF_free: "l \<in> set (str_lines s) \<Longrightarrow> CHR 0x0A \<notin> set l"
  by (elim str_lines_pieces) (auto dest: split_on_free simp: str_contains_iff)

lemma join_occurrence:
  assumes "join [c] xs = u @ p @ v" "p \<noteq> []" "c \<notin> set p"
  shows "\<exists>x\<in>set xs. \<exists>a b v'. x = a @ p @ b \<and> v = b @ v'"
  using assms(1)
proof (induction xs arbitrary: u rule: induct_list012)
  case 1
  with assms(2) show ?case by simp
next
  case (2 x)
  then show ?case
    by (intro bexI [of _ x] exI [of _ u] exI [of _ v] exI [of _ "[]"]) simp_all
next
  case (3 x y xs)
  then have eq: "x @ c # join [c] (y # xs) = u @ p @ v" by simp
  consider "length u + length p \<le> length x" | "Suc (length x) \<le> length u"
    | "length u \<le> length x" "length x < length u + length p" by linarith
  then show ?case
  proof cases
    case 1
    from occurrence_position [OF eq this] obtain w
      where "x = u @ p @ w" "v = w @ c # join [c] (y # xs)" by blast
    then show ?thesis by (intro bexI [of _ x]) auto
  next
    case 2
    have "\<exists>w. u = (x @ [c]) @ w \<and> join [c] (y # xs) = w @ p @ v"
      by (rule append_position) (use eq 2 in auto)
    then obtain w where "join [c] (y # xs) = w @ p @ v" by blast
    from "3.IH"(2) [OF this] show ?thesis by auto
  next
    case 3
    then have "(x @ c # join [c] (y # xs)) ! length x \<in> set p"
      by (intro occurrence_nth [OF eq])
    with assms(3) show ?thesis by simp
  qed
qed

lemma split_on_context:
  "p \<in> set (split_on c s) \<Longrightarrow> \<exists>y z. s = y @ p @ z \<and> (z = [] \<or> hd z = c)"
proof (induction s arbitrary: p)
  case Nil
  then show ?case by simp
next
  case (Cons x s)
  obtain q qs where q: "split_on c s = q # qs"
    using split_on_nonempty [of c s] by (meson neq_Nil_conv)
  show ?case
  proof (cases "x = c")
    case True
    with Cons.prems consider "p = []" | "p \<in> set (split_on c s)" by auto
    then show ?thesis
    proof cases
      case 1
      with True show ?thesis by (intro exI [of _ "[]"] exI [of _ "x # s"]) simp
    next
      case 2
      with Cons.IH show ?thesis by (metis append_Cons)
    qed
  next
    case False
    with Cons.prems q consider "p = x # q" | "p \<in> set qs" by auto
    then show ?thesis
    proof cases
      case 1
      have "\<exists>z. s = q @ z \<and> (z = [] \<or> hd z = c)"
        using join_split_on [of c s] q by (cases qs) auto
      with 1 show ?thesis by (metis append_Cons append_Nil)
    next
      case 2
      with Cons.IH [of p] q show ?thesis by (metis append_Cons list.set_intros(2))
    qed
  qed
qed

lemma str_lines_context:
  assumes "l \<in> set (str_lines s)"
  shows "\<exists>y z. s = y @ l @ z \<and> (z = [] \<or> hd z = CHR 0x0A \<or> hd z = CHR 0x0D)"
proof -
  from assms consider (a) p where "p \<in> set (split_on CHR 0x0A s)" "l = strip_cr p"
    | (b) "l \<in> set (split_on CHR 0x0A s)"
    by (auto simp: str_lines_def Let_def split: if_splits dest: in_set_butlastD)
  then show ?thesis
  proof cases
    case a
    obtain y z where yz: "s = y @ p @ z" "z = [] \<or> hd z = CHR 0x0A"
      using split_on_context [OF a(1)] by blast
    show ?thesis
    proof (cases "p \<noteq> [] \<and> last p = CHR 0x0D")
      case True
      then have "strip_cr p = butlast p" "p = butlast p @ [last p]"
        by (simp add: strip_cr_def, metis append_butlast_last_id)
      with a(2) True have "p = l @ [CHR 0x0D]" by simp
      then have "s = y @ l @ (CHR 0x0D # z)" using yz(1) by simp
      then show ?thesis by - (rule exI [of _ y], rule exI [of _ "CHR 0x0D # z"], simp)
    next
      case False
      then have "l = p" using a(2) by (auto simp: strip_cr_def)
      with yz show ?thesis by - (rule exI [of _ y], rule exI [of _ z], auto)
    qed
  next
    case b
    from split_on_context [OF b] obtain y z where "s = y @ l @ z" "z = [] \<or> hd z = CHR 0x0A"
      by blast
    then show ?thesis by - (rule exI [of _ y], rule exI [of _ z], auto)
  qed
qed

subsection \<open>Decimal numbers\<close>

fun dec_digits :: "nat \<Rightarrow> string" where
  \<comment> \<open>the decimal rendering of an unsigned integer\<close>
  "dec_digits n = (if n < 10 then [char_of (48 + n)]
                   else dec_digits (n div 10) @ [char_of (48 + n mod 10)])"

declare dec_digits.simps [simp del]

lemma dec_digits_nonempty [simp]: "dec_digits n \<noteq> []"
  by (subst dec_digits.simps) simp

lemma length_dec_digits_pos: "0 < length (dec_digits n)"
  by simp

lemma length_dec_digits_le: "n < 10 ^ k \<Longrightarrow> 0 < k \<Longrightarrow> length (dec_digits n) \<le> k"
proof (induction k arbitrary: n)
  case 0
  then show ?case by simp
next
  case (Suc k)
  show ?case
  proof (cases "n < 10")
    case True
    then show ?thesis by (subst dec_digits.simps) simp
  next
    case False
    with Suc.prems have "0 < k" by (cases k) auto
    moreover from Suc.prems have "n div 10 < 10 ^ k"
      by (simp add: less_mult_imp_div_less mult.commute)
    ultimately have "length (dec_digits (n div 10)) \<le> k"
      by (simp add: Suc.IH)
    with False show ?thesis by (subst dec_digits.simps) simp
  qed
qed

subsection \<open>Lists of records: update every match, count matches\<close>

definition update_where :: "('a \<Rightarrow> bool) \<Rightarrow> ('a \<Rightarrow> 'a) \<Rightarrow> 'a list \<Rightarrow> 'a list" where
  \<comment> \<open>\<open>for x in xs.iter_mut().filter(P) { ... }\<close>\<close>
  "update_where P f xs = map (\<lambda>x. if P x then f x else x) xs"

definition count_where :: "('a \<Rightarrow> bool) \<Rightarrow> 'a list \<Rightarrow> nat" where
  "count_where P xs = length (filter P xs)"

lemma length_update_where [simp]: "length (update_where P f xs) = length xs"
  by (simp add: update_where_def)

lemma update_where_nth:
  "i < length xs \<Longrightarrow> update_where P f xs ! i = (if P (xs ! i) then f (xs ! i) else xs ! i)"
  by (simp add: update_where_def)

lemma set_update_where:
  "set (update_where P f xs) = (\<lambda>x. if P x then f x else x) ` set xs"
  by (simp add: update_where_def)

lemma map_update_where:
  "(\<And>x. P x \<Longrightarrow> g (f x) = g x) \<Longrightarrow> map g (update_where P f xs) = map g xs"
  by (simp add: update_where_def)

lemma count_where_le_length: "count_where P xs \<le> length xs"
  by (simp add: count_where_def)

lemma count_where_0_iff: "count_where P xs = 0 \<longleftrightarrow> (\<forall>x\<in>set xs. \<not> P x)"
  by (simp add: count_where_def filter_empty_conv)

lemma count_where_all_iff: "count_where P xs = length xs \<longleftrightarrow> (\<forall>x\<in>set xs. P x)"
  unfolding count_where_def
  by (metis filter_True length_filter_less less_irrefl)

lemma count_where_map: "count_where P (map f xs) = count_where (P \<circ> f) xs"
  by (simp add: count_where_def filter_map)

lemma count_where_update_where_mono:
  assumes "\<And>x. Q x \<Longrightarrow> P x \<Longrightarrow> Q (f x)"
  shows "count_where Q xs \<le> count_where Q (update_where P f xs)"
  using assms by (induction xs) (auto simp: count_where_def update_where_def)

lemma count_where_True [simp]: "count_where (\<lambda>_. True) xs = length xs"
  by (simp add: count_where_def)

end
