(* ===== verification/Redaction.thy ===== *)
theory Redaction
  imports Prelude
begin

section \<open>Redaction of credentials in text (\<open>redaction.rs\<close>)\<close>

text \<open>
  \<open>redact_sensitive_text\<close> is the filter every message and log line of the bot goes through. It is a
  pipeline of passes over the text; each pass of the source is one function here, with the same
  scanning loop over the remaining text. The lemmas show that the loops terminate, that every
  Bilibili cookie assignment left in the result is followed by the placeholder, and that no line of
  the result matches a pattern of the last pass.
\<close>

definition BILIBILI_COOKIE_NAMES :: "string list" where
  "BILIBILI_COOKIE_NAMES =
     [''SESSDATA'', ''bili_jct'', ''DedeUserID'', ''DedeUserID__ckMd5'', ''sid'',
      ''buvid3'', ''buvid4'', ''b_nut'', ''ac_time_value'']"

subsection \<open>User information in URLs\<close>

definition ends_authority :: "char \<Rightarrow> bool" where
  "ends_authority ch = (is_ascii_whitespace ch \<or>
     ch \<in> {CHR ''/'', CHR ''?'', CHR ''#'', CHR 0x22, CHR 0x27, CHR ''>'', CHR '')'', CHR '']'', CHR ''}''})"

definition rfind_char :: "char \<Rightarrow> string \<Rightarrow> nat option" where
  \<comment> \<open>\<open>str::rfind\<close> of one ASCII character\<close>
  "rfind_char c s = map_option (\<lambda>i. length s - Suc i) (find_pred (\<lambda>x. x = c) (rev s))"

function redact_url_userinfo :: "string \<Rightarrow> string" where
  "redact_url_userinfo rest =
     (case str_find rest ''://'' of
        None \<Rightarrow> rest
      | Some scheme_end \<Rightarrow>
          let authority_start = scheme_end + 3;
              authority_end =
                (case find_pred ends_authority (drop authority_start rest) of
                   None \<Rightarrow> length rest | Some offset \<Rightarrow> authority_start + offset);
              authority = drop authority_start (take authority_end rest)
          in (case Option.bind (rfind_char CHR ''@'' authority)
                     (\<lambda>index. if index > 0 then Some index else None) of
                None \<Rightarrow> take authority_end rest @ redact_url_userinfo (drop authority_end rest)
              | Some userinfo_end \<Rightarrow>
                  take authority_start rest @ ''<redacted>@'' @ drop (userinfo_end + 1) authority
                    @ redact_url_userinfo (drop authority_end rest)))"
  by pat_completeness auto
termination
  by (relation "measure length") (auto dest!: str_find_SomeD split: option.splits)

declare redact_url_userinfo.simps [simp del]

subsection \<open>Command-line flags\<close>

definition first_char :: "string \<Rightarrow> string option" where
  "first_char s = (case chars s of [] \<Rightarrow> None | c # _ \<Rightarrow> Some c)"

definition last_char :: "string \<Rightarrow> string option" where
  "last_char s = (case rev (chars s) of [] \<Rightarrow> None | c # _ \<Rightarrow> Some c)"

definition line_value_end :: "string \<Rightarrow> nat \<Rightarrow> nat" where
  "line_value_end rest value_start =
     (case find_pred (\<lambda>ch. ch = CHR 0x0D \<or> ch = CHR 0x0A) (drop value_start rest) of
        None \<Rightarrow> length rest | Some offset \<Rightarrow> value_start + offset)"

lemma str_find_nonempty:
  assumes "str_find rest p = Some i" "p \<noteq> []"
  shows "0 < length rest" "0 < i + length p"
  using assms by (auto dest!: str_find_SomeD)

lemma line_value_end_advances:
  assumes "0 < length rest" "0 < start"
  shows "0 < line_value_end rest start"
  using assms by (auto simp: line_value_end_def split: option.splits)

text \<open>
  \<open>done\<close> is the part of the text already consumed, which the source recovers as
  \<open>text[..absolute_start]\<close>. The flags are non-empty constants; for an empty flag the loop of the
  source would not advance, and the model returns the text.
\<close>

function redact_flag_from :: "string \<Rightarrow> string \<Rightarrow> string \<Rightarrow> string \<Rightarrow> string" where
  "redact_flag_from flag replacement done rest =
     (if flag = [] then rest else
      case str_find rest flag of
        None \<Rightarrow> rest
      | Some index \<Rightarrow>
          let before = last_char (done @ take index rest);
              after_index = index + length flag;
              after = first_char (drop after_index rest);
              is_token_start = (case before of None \<Rightarrow> True | Some ch \<Rightarrow> is_whitespace ch);
              is_flag = (case after of None \<Rightarrow> False | Some ch \<Rightarrow> ch = ''='' \<or> is_whitespace ch)
          in if \<not> is_token_start \<or> \<not> is_flag then
               take after_index rest
                 @ redact_flag_from flag replacement (done @ take after_index rest) (drop after_index rest)
             else if after = Some ''='' then
               let value_end = line_value_end rest (after_index + 1)
               in take index rest @ flag @ ''='' @ replacement
                    @ redact_flag_from flag replacement (done @ take value_end rest) (drop value_end rest)
             else
               let separator_len = length (the after);
                   value_end = line_value_end rest (after_index + separator_len)
               in take index rest @ flag @ take separator_len (drop after_index rest) @ replacement
                    @ redact_flag_from flag replacement (done @ take value_end rest) (drop value_end rest))"
  by pat_completeness auto
termination
  by (relation "measure (\<lambda>(flag, replacement, done, rest). length rest)")
     (auto dest: str_find_nonempty intro!: line_value_end_advances diff_less)

declare redact_flag_from.simps [simp del]

definition redact_flag_line_values :: "string \<Rightarrow> string \<Rightarrow> string \<Rightarrow> string" where
  "redact_flag_line_values text flag replacement = redact_flag_from flag replacement [] text"

subsection \<open>Cookie assignments and cookie lines\<close>

definition ends_pair_value :: "char \<Rightarrow> bool" where
  "ends_pair_value ch = (ch = CHR '';'' \<or> ch = CHR ''&'' \<or> is_ascii_whitespace ch
     \<or> ch = CHR 0x22 \<or> ch = CHR 0x27)"

function redact_pair_values :: "string \<Rightarrow> string \<Rightarrow> string \<Rightarrow> string" where
  "redact_pair_values rest name replacement =
     (let pre = name @ ''='' in
      case str_find rest pre of
        None \<Rightarrow> rest
      | Some index \<Rightarrow>
          let value_start = index + length pre;
              value_end = (case find_pred ends_pair_value (drop value_start rest) of
                             None \<Rightarrow> length rest | Some offset \<Rightarrow> value_start + offset)
          in take index rest @ pre @ replacement
               @ redact_pair_values (drop value_end rest) name replacement)"
  by pat_completeness auto
termination
  by (relation "measure (\<lambda>(rest, name, replacement). length rest)")
     (auto dest!: str_find_SomeD split: option.splits)

declare redact_pair_values.simps [simp del]

definition is_bilibili_cookie_line :: "string \<Rightarrow> bool" where
  "is_bilibili_cookie_line line =
     (if \<not> str_contains line '';'' then False
      else if \<not> list_ex (\<lambda>name. str_contains line (name @ ''='')) BILIBILI_COOKIE_NAMES then False
      else 2 \<le> length (take 2 (filter (\<lambda>part. str_contains (trim part) ''='')
                               (split_on CHR '';'' line))))"

definition redact_bilibili_cookie_lines :: "string \<Rightarrow> string" where
  "redact_bilibili_cookie_lines text =
     join [CHR 0x0A]
       (map (\<lambda>line. if is_bilibili_cookie_line line
                    then ''<redacted Bilibili cookie line>'' else line)
            (str_lines text))"

subsection \<open>Sensitive lines\<close>

definition credential_names :: "string list" where
  "credential_names = [''access_key'', ''access_token'', ''refresh_token'']"

definition contains_bbdown_credential_json :: "string \<Rightarrow> bool" where
  "contains_bbdown_credential_json line =
     list_ex (\<lambda>name. str_contains line ([CHR 0x22] @ name @ [CHR 0x22])) credential_names"

definition contains_bbdown_credential_parameter :: "string \<Rightarrow> bool" where
  "contains_bbdown_credential_parameter line =
     list_ex (\<lambda>name. str_contains line (name @ ''='') \<or> str_contains line (name @ '':'')
                \<or> str_contains line (name @ ''%3d'')) credential_names"

definition contains_authorization_header :: "string \<Rightarrow> bool" where
  "contains_authorization_header line =
     (str_contains line ''authorization:''
      \<and> (str_contains line ''bearer '' \<or> str_contains line ''identify_v1 ''))"

definition redact_sensitive_line :: "string \<Rightarrow> string" where
  "redact_sensitive_line line =
     (let lowercase = to_ascii_lowercase line in
      if str_contains lowercase ''passport.bilibili.com'' \<and> str_contains lowercase ''qrcode_key='' then
        ''<redacted Bilibili login QR URL>''
      else if str_contains lowercase ''biliplus.com/login'' \<and> str_contains lowercase ''balh_auth='' then
        ''<redacted BBDown access-key authorization URL>''
      else if str_contains lowercase ''balh-login-credentials:''
              \<or> contains_bbdown_credential_json lowercase then
        ''<redacted BBDown access-key callback message>''
      else if contains_bbdown_credential_parameter lowercase then
        ''<redacted BBDown access-key callback URL>''
      else if contains_authorization_header lowercase then
        ''<redacted BBDown credential>''
      else line)"

definition redact_sensitive_lines :: "string \<Rightarrow> string" where
  "redact_sensitive_lines text = join [CHR 0x0A] (map redact_sensitive_line (str_lines text))"

definition redact_cookie_pairs :: "string list \<Rightarrow> string \<Rightarrow> string" where
  \<comment> \<open>the loop \<open>for name in BILIBILI_COOKIE_NAMES\<close>\<close>
  "redact_cookie_pairs names text =
     fold (\<lambda>name redacted. redact_pair_values redacted name ''<redacted>'') names text"

definition redact_sensitive_text :: "string \<Rightarrow> string" where
  "redact_sensitive_text text =
     (let redacted = redact_url_userinfo text;
          redacted = redact_flag_line_values redacted ''--cookie'' ''<redacted Bilibili cookie>'';
          redacted = fold (\<lambda>flag redacted.
                        redact_flag_line_values redacted flag ''<redacted BBDown credential>'')
                      [''--access-key'', ''--access-token'', ''--refresh-token''] redacted;
          redacted = redact_bilibili_cookie_lines redacted;
          redacted = redact_cookie_pairs BILIBILI_COOKIE_NAMES redacted
      in redact_sensitive_lines redacted)"

subsection \<open>Pairs: every assignment left is followed by the placeholder\<close>

definition pairs_redacted :: "string \<Rightarrow> string \<Rightarrow> bool" where
  \<comment> \<open>every occurrence of \<open>name=\<close> in the text is followed by \<open><redacted>\<close>\<close>
  "pairs_redacted name text \<longleftrightarrow>
     (\<forall>u v. text = u @ name @ ''='' @ v \<longrightarrow> starts_with v ''<redacted>'')"

definition plain_name :: "string \<Rightarrow> bool" where
  "plain_name name \<longleftrightarrow>
     set name \<inter> {CHR ''<'', CHR ''>'', CHR ''='', CHR 0x0A, CHR 0x0D} = {} \<and>
     list_all (\<lambda>c. \<not> ends_pair_value c) name"

lemma plain_cookie_names: "list_all plain_name BILIBILI_COOKIE_NAMES"
  by (simp add: BILIBILI_COOKIE_NAMES_def plain_name_def ends_pair_value_def
      is_ascii_whitespace_def byte_def)

lemma pair_pass_occurrence:
  assumes eq: "A @ m @ ''='' @ ''<redacted>'' @ T = u @ n @ ''='' @ v" and n: "plain_name n"
  shows "(\<exists>w. A @ m @ ''='' = u @ n @ ''='' @ w \<and> v = w @ ''<redacted>'' @ T) \<or>
         (\<exists>w. u = A @ m @ ''='' @ ''<redacted>'' @ w \<and> T = w @ n @ ''='' @ v)"
proof -
  let ?P = "A @ m @ ''=''" and ?R = "''<redacted>''" and ?p = "n @ ''=''"
  let ?out = "?P @ ?R @ T"
  have out: "?out = u @ ?p @ v" using eq by simp
  have nlt: "CHR ''<'' \<notin> set ?p" "CHR ''>'' \<notin> set ?p" using n by (auto simp: plain_name_def)
  have lt: "?out ! length ?P = CHR ''<''" by (simp add: nth_append)
  have gt: "?out ! (length ?P + 9) = CHR ''>''" by (simp add: nth_append)
  have eqc: "?out ! (length u + length n) = CHR ''=''"
    unfolding out by (simp add: nth_append)
  consider (before) "length u + length ?p \<le> length ?P" | (lt) "length u \<le> length ?P" "length ?P < length u + length ?p"
    | (inR) "length ?P < length u" "length u + length ?p \<le> length ?P + 10"
    | (gt) "length ?P < length u" "length u < length ?P + 10" "length ?P + 10 < length u + length ?p"
    | (after) "length ?P + 10 \<le> length u" by linarith
  then show ?thesis
  proof cases
    case before
    then have "\<exists>w. ?P = u @ ?p @ w \<and> v = w @ ?R @ T"
      by (intro occurrence_position) (use out in auto)
    then show ?thesis by auto
  next
    case lt
    then have "?out ! length ?P \<in> set ?p" by (intro occurrence_nth [OF out])
    with nlt \<open>?out ! length ?P = _\<close> show ?thesis by simp
  next
    case inR
    then have "\<exists>k<10. length u + length n = length ?P + k" by (intro exI [of _ "length u + length n - length ?P"]) auto
    then obtain k where k: "k < 10" "length u + length n = length ?P + k" by blast
    obtain R where R: "R = ?R" by blast
    have "(?P @ R @ T) ! (length u + length n) = R ! k"
      using k R by (simp only: k(2) nth_append_length_plus nth_append) (simp add: nth_append)
    moreover have "R ! k \<in> set R" using k R by (intro nth_mem) simp
    ultimately have "CHR ''='' \<in> set ?R" using eqc R by simp
    then show ?thesis by simp
  next
    case gt
    then have "?out ! (length ?P + 9) \<in> set ?p" by (intro occurrence_nth [OF out]) auto
    with nlt \<open>?out ! (length ?P + 9) = _\<close> show ?thesis by simp
  next
    case after
    have "\<exists>w. u = (?P @ ?R) @ w \<and> T = w @ ?p @ v"
      by (rule append_position) (use out after in auto)
    then show ?thesis by auto
  qed
qed

lemma pairs_redacted_suffix: "pairs_redacted name (a @ b) \<Longrightarrow> pairs_redacted name b"
  unfolding pairs_redacted_def by (metis append.assoc)

lemma redact_pair_values_step:
  obtains (none) "\<not> str_contains s (m @ ''='')" "redact_pair_values s m R = s"
  | (some) A val T where "s = A @ m @ ''='' @ val @ T" "str_find s (m @ ''='') = Some (length A)"
      "redact_pair_values s m R = A @ m @ ''='' @ R @ redact_pair_values T m R"
      "length T < length s"
proof (cases "str_find s (m @ ''='')")
  case None
  with none show thesis by (simp add: redact_pair_values.simps [of s] str_find_None)
next
  case (Some i)
  define start where "start = i + length (m @ ''='')"
  define fin where "fin = (case find_pred ends_pair_value (drop start s) of
     None \<Rightarrow> length s | Some offset \<Rightarrow> start + offset)"
  have i: "start \<le> length s" "s = take i s @ m @ ''='' @ drop start s"
    using str_find_SomeD [OF Some] by (auto simp: start_def)
  have e: "start \<le> fin" using i(1) by (auto simp: fin_def split: option.splits)
  have "drop start s = take (fin - start) (drop start s) @ drop fin s"
    using e by (metis append_take_drop_id drop_drop le_add_diff_inverse2)
  with i(2) have "s = take i s @ m @ ''='' @ take (fin - start) (drop start s) @ drop fin s"
    by simp
  moreover have "str_find s (m @ ''='') = Some (length (take i s))"
    using i(1) Some by (simp add: start_def)
  moreover have "redact_pair_values s m R = take i s @ m @ ''='' @ R @ redact_pair_values (drop fin s) m R"
    using Some by (simp add: redact_pair_values.simps [of s] Let_def start_def fin_def
        cong: option.case_cong)
  moreover have "length (drop fin s) < length s"
    using i(1) e by (auto simp: start_def)
  ultimately show thesis by (rule some)
qed

lemma redact_pair_values_own:
  assumes m: "plain_name m"
  shows "pairs_redacted m (redact_pair_values s m ''<redacted>'')"
proof (induction "length s" arbitrary: s rule: less_induct)
  case less
  show ?case
  proof (cases rule: redact_pair_values_step [of s m "''<redacted>''"])
    case none
    then show ?thesis by (auto simp: pairs_redacted_def str_contains_iff)
  next
    case (some A val T)
    note IH = less [OF some(4)]
    show ?thesis
      unfolding pairs_redacted_def
    proof (intro allI impI)
      fix u v
      assume "redact_pair_values s m ''<redacted>'' = u @ m @ ''='' @ v"
      with some(3) have "A @ m @ ''='' @ ''<redacted>'' @ redact_pair_values T m ''<redacted>'' = u @ m @ ''='' @ v"
        by simp
      from pair_pass_occurrence [OF this m] show "starts_with v ''<redacted>''"
      proof (elim disjE exE conjE)
        fix w assume w: "A @ m @ ''='' = u @ m @ ''='' @ w" "v = w @ ''<redacted>'' @ redact_pair_values T m ''<redacted>''"
        have "w = []"
        proof (rule ccontr)
          assume "w \<noteq> []"
          with w(1) have "length u < length A"
            by (metis (no_types, opaque_lifting) add_less_cancel_right append.assoc length_append length_greater_0_conv less_add_same_cancel1)
          moreover have "s = u @ (m @ ''='') @ w @ val @ T" using some(1) w(1) by simp
          then have "drop (length u) s = (m @ ''='') @ w @ val @ T" by simp
          then have "starts_with (drop (length u) s) (m @ ''='')" by (simp only: starts_with_append)
          ultimately show False using str_find_minimal [OF some(2)] by blast
        qed
        with w(2) show ?thesis by simp
      next
        fix w assume "redact_pair_values T m ''<redacted>'' = w @ m @ ''='' @ v"
        with IH show ?thesis unfolding pairs_redacted_def by blast
      qed
    qed
  qed
qed

lemma redact_pair_values_other:
  assumes n: "plain_name n"
  shows "pairs_redacted n s \<Longrightarrow> pairs_redacted n (redact_pair_values s m ''<redacted>'')"
proof (induction "length s" arbitrary: s rule: less_induct)
  case less
  show ?case
  proof (cases rule: redact_pair_values_step [of s m "''<redacted>''"])
    case none
    with less.prems show ?thesis by simp
  next
    case (some A val T)
    have "pairs_redacted n ((A @ m @ ''='' @ val) @ T)" using less.prems some(1) by simp
    then have "pairs_redacted n T" by (rule pairs_redacted_suffix)
    note IH = less.hyps [OF some(4) this]
    show ?thesis
      unfolding pairs_redacted_def
    proof (intro allI impI)
      fix u v
      assume "redact_pair_values s m ''<redacted>'' = u @ n @ ''='' @ v"
      with some(3) have "A @ m @ ''='' @ ''<redacted>'' @ redact_pair_values T m ''<redacted>'' = u @ n @ ''='' @ v"
        by simp
      from pair_pass_occurrence [OF this n] show "starts_with v ''<redacted>''"
      proof (elim disjE exE conjE)
        fix w assume w: "A @ m @ ''='' = u @ n @ ''='' @ w" "v = w @ ''<redacted>'' @ redact_pair_values T m ''<redacted>''"
        have "s = u @ n @ ''='' @ w @ val @ T" using some(1) w(1) by simp
        with less.prems have R: "starts_with (w @ val @ T) ''<redacted>''"
          unfolding pairs_redacted_def by blast
        show ?thesis
        proof (cases "w = []")
          case True
          with w(2) show ?thesis by simp
        next
          case False
          then have last: "last w = CHR ''=''" using arg_cong [OF w(1), of last] by simp
          have "CHR ''='' \<in> set w" using last False by (metis last_in_set)
          with R have "starts_with w ''<redacted>''"
            by (rule starts_with_until) simp
          then show ?thesis unfolding w(2) by (rule starts_with_mono)
        qed
      next
        fix w assume "redact_pair_values T m ''<redacted>'' = w @ n @ ''='' @ v"
        with IH show ?thesis unfolding pairs_redacted_def by blast
      qed
    qed
  qed
qed

lemma redact_cookie_pairs_redacted:
  "list_all plain_name names \<Longrightarrow>
     (\<forall>n\<in>set kept. plain_name n \<and> pairs_redacted n s) \<Longrightarrow>
     \<forall>n\<in>set names \<union> set kept. pairs_redacted n (redact_cookie_pairs names s)"
proof (induction names arbitrary: s kept)
  case Nil
  then show ?case by (simp add: redact_cookie_pairs_def)
next
  case (Cons m names)
  let ?s = "redact_pair_values s m ''<redacted>''"
  have "\<forall>n\<in>set (m # kept). plain_name n \<and> pairs_redacted n ?s"
    using Cons.prems by (auto intro: redact_pair_values_own redact_pair_values_other)
  from Cons.IH [OF _ this] Cons.prems(1) show ?case
    by (auto simp: redact_cookie_pairs_def)
qed

subsection \<open>Lines: no line of the result matches a pattern of the last pass\<close>

definition leaks_credential :: "string \<Rightarrow> bool" where
  "leaks_credential line \<longleftrightarrow>
     (let lowercase = to_ascii_lowercase line in
      (str_contains lowercase ''passport.bilibili.com'' \<and> str_contains lowercase ''qrcode_key='')
      \<or> (str_contains lowercase ''biliplus.com/login'' \<and> str_contains lowercase ''balh_auth='')
      \<or> str_contains lowercase ''balh-login-credentials:''
      \<or> contains_bbdown_credential_json lowercase
      \<or> contains_bbdown_credential_parameter lowercase
      \<or> contains_authorization_header lowercase)"

definition line_placeholders :: "string list" where
  "line_placeholders =
     [''<redacted Bilibili login QR URL>'', ''<redacted BBDown access-key authorization URL>'',
      ''<redacted BBDown access-key callback message>'',
      ''<redacted BBDown access-key callback URL>'', ''<redacted BBDown credential>'']"

lemma line_placeholders_mem:
  "''<redacted Bilibili login QR URL>'' \<in> set line_placeholders"
  "''<redacted BBDown access-key authorization URL>'' \<in> set line_placeholders"
  "''<redacted BBDown access-key callback message>'' \<in> set line_placeholders"
  "''<redacted BBDown access-key callback URL>'' \<in> set line_placeholders"
  "''<redacted BBDown credential>'' \<in> set line_placeholders"
  by (simp_all add: line_placeholders_def)

lemma redact_sensitive_line_cases:
  obtains "redact_sensitive_line l \<in> set line_placeholders"
  | "redact_sensitive_line l = l" "\<not> leaks_credential l"
proof (cases "leaks_credential l")
  case True
  have "redact_sensitive_line l \<in> set line_placeholders"
    using True unfolding redact_sensitive_line_def leaks_credential_def Let_def
    by (auto simp: line_placeholders_mem)
  with that(1) show thesis by blast
next
  case False
  then have "redact_sensitive_line l = l"
    by (auto simp: redact_sensitive_line_def leaks_credential_def Let_def)
  with False that(2) show thesis by blast
qed

lemma placeholders_free:
  "x \<in> set line_placeholders \<Longrightarrow> \<not> leaks_credential x \<and> CHR ''='' \<notin> set x \<and> CHR 0x0A \<notin> set x"
  unfolding line_placeholders_def leaks_credential_def contains_bbdown_credential_json_def
    contains_bbdown_credential_parameter_def contains_authorization_header_def credential_names_def
  by (simp, elim disjE; simp add: to_ascii_lowercase_def ascii_lower_def byte_def)

lemma leaks_credential_mono:
  assumes "str_contains a b" "leaks_credential b"
  shows "leaks_credential a"
proof -
  have m: "str_contains (to_ascii_lowercase b) p \<Longrightarrow> str_contains (to_ascii_lowercase a) p" for p
    using str_contains_map [OF assms(1)] str_contains_trans
    unfolding to_ascii_lowercase_def by metis
  show ?thesis
    using assms(2) m
    unfolding leaks_credential_def Let_def contains_bbdown_credential_json_def
      contains_bbdown_credential_parameter_def contains_authorization_header_def list_ex_iff
    by blast
qed

lemma redact_sensitive_line_safe: "\<not> leaks_credential (redact_sensitive_line l)"
  by (cases rule: redact_sensitive_line_cases [of l]) (auto dest: placeholders_free)

lemma redact_sensitive_line_LF_free:
  "l \<in> set (str_lines s) \<Longrightarrow> CHR 0x0A \<notin> set (redact_sensitive_line l)"
  by (cases rule: redact_sensitive_line_cases [of l]) (auto dest: placeholders_free str_lines_LF_free)

lemma redact_sensitive_lines_safe:
  "list_all (\<lambda>l. \<not> leaks_credential l) (str_lines (redact_sensitive_lines s))"
proof (cases "str_lines s = []")
  case True
  then show ?thesis by (simp add: redact_sensitive_lines_def str_lines_def)
next
  case False
  show ?thesis
    unfolding list_all_iff
  proof (intro ballI)
    fix l assume "l \<in> set (str_lines (redact_sensitive_lines s))"
    then obtain p where p: "p \<in> set (split_on CHR 0x0A (redact_sensitive_lines s))" "str_contains p l"
      by (elim str_lines_pieces)
    have "split_on CHR 0x0A (redact_sensitive_lines s) = map redact_sensitive_line (str_lines s)"
      unfolding redact_sensitive_lines_def
      by (intro split_on_join) (auto simp: False dest: redact_sensitive_line_LF_free)
    with p(1) have "\<not> leaks_credential p" by (auto simp: redact_sensitive_line_safe)
    with p(2) show "\<not> leaks_credential l" using leaks_credential_mono by blast
  qed
qed

lemma pairs_redactedD: "pairs_redacted n (u @ n @ ''='' @ v) \<Longrightarrow> starts_with v ''<redacted>''"
  unfolding pairs_redacted_def by blast

lemma pairs_redacted_line:
  assumes "pairs_redacted n s" "l \<in> set (str_lines s)"
  shows "pairs_redacted n l"
  unfolding pairs_redacted_def
proof (intro allI impI)
  fix u v assume l: "l = u @ n @ ''='' @ v"
  obtain y z where s: "s = y @ l @ z" and z: "z = [] \<or> hd z = CHR 0x0A \<or> hd z = CHR 0x0D"
    using str_lines_context [OF assms(2)] by blast
  have eq: "s = (y @ u) @ n @ ''='' @ (v @ z)" unfolding s l by simp
  from assms(1) have sw: "starts_with (v @ z) ''<redacted>''"
    unfolding eq by (rule pairs_redactedD)
  show "starts_with v ''<redacted>''"
  proof (cases z)
    case Nil
    with sw show ?thesis by simp
  next
    case (Cons c cs)
    with z have "c = CHR 0x0A \<or> c = CHR 0x0D" by simp
    then have "c \<notin> set ''<redacted>''" by (elim disjE; simp)
    with sw show ?thesis unfolding Cons by (rule starts_with_before)
  qed
qed

lemma pairs_redacted_sensitive_lines:
  assumes n: "plain_name n" and s: "pairs_redacted n s"
  shows "pairs_redacted n (redact_sensitive_lines s)"
  unfolding pairs_redacted_def
proof (intro allI impI)
  fix u v assume "redact_sensitive_lines s = u @ n @ ''='' @ v"
  then have "join [CHR 0x0A] (map redact_sensitive_line (str_lines s)) = u @ (n @ ''='') @ v"
    by (simp add: redact_sensitive_lines_def)
  moreover have "CHR 0x0A \<notin> set (n @ ''='')" using n by (auto simp: plain_name_def)
  ultimately have "\<exists>x\<in>set (map redact_sensitive_line (str_lines s)).
      \<exists>a b v'. x = a @ (n @ ''='') @ b \<and> v = b @ v'"
    by (intro join_occurrence) auto
  then obtain l a b v' where l: "l \<in> set (str_lines s)"
    "redact_sensitive_line l = a @ (n @ ''='') @ b" "v = b @ v'"
    by auto
  have "redact_sensitive_line l = l"
    using l(2) placeholders_free [of "redact_sensitive_line l"]
    by (cases rule: redact_sensitive_line_cases [of l]) auto
  with l(2) have "l = a @ n @ ''='' @ b" by simp
  with pairs_redacted_line [OF s l(1)] have "starts_with b ''<redacted>''"
    unfolding pairs_redacted_def by blast
  then show "starts_with v ''<redacted>''" unfolding l(3) by (rule starts_with_mono)
qed

text \<open>
  C23: no line of a redacted text, compared without regard to ASCII case, holds a login QR URL, an
  access-key authorization or callback URL, a credential JSON key or parameter, or an authorization
  header.
\<close>

theorem redacted_lines_safe:
  "list_all (\<lambda>line. \<not> leaks_credential line) (str_lines (redact_sensitive_text text))"
  unfolding redact_sensitive_text_def Let_def by (rule redact_sensitive_lines_safe)

text \<open>
  C24: after redaction every assignment \<open>name=\<close> of a Bilibili cookie name, anywhere in the text, is
  followed by \<open><redacted>\<close>, whatever the earlier and later passes did to the text.
\<close>

theorem redacted_cookies:
  "list_all (\<lambda>name. pairs_redacted name (redact_sensitive_text text)) BILIBILI_COOKIE_NAMES"
proof -
  have "\<forall>n\<in>set BILIBILI_COOKIE_NAMES.
      pairs_redacted n (redact_cookie_pairs BILIBILI_COOKIE_NAMES s)" for s
    using redact_cookie_pairs_redacted [OF plain_cookie_names, of "[]" s] by simp
  moreover have "\<forall>n\<in>set BILIBILI_COOKIE_NAMES. plain_name n"
    using plain_cookie_names by (simp add: list_all_iff)
  ultimately show ?thesis
    unfolding redact_sensitive_text_def Let_def list_all_iff
    by (simp add: pairs_redacted_sensitive_lines)
qed

subsection \<open>URL user information\<close>

lemma find_pred_append:
  "\<forall>x\<in>set a. \<not> P x \<Longrightarrow> b = [] \<or> P (hd b) \<Longrightarrow>
     (case find_pred P (a @ b) of None \<Rightarrow> length (a @ b) | Some i \<Rightarrow> i) = length a"
  by (induction a) (auto split: option.splits, (cases b; auto)+)


lemma rfind_char_None: "c \<notin> set s \<Longrightarrow> rfind_char c s = None"
  by (auto simp: rfind_char_def find_pred_None)

lemma redact_url_userinfo_step:
  assumes find: "str_find (pre @ ''://'' @ auth @ rest) ''://'' = Some (length pre)"
    and auth: "\<forall>c\<in>set auth. \<not> ends_authority c"
    and rest: "rest = [] \<or> ends_authority (hd rest)"
  shows "redact_url_userinfo (pre @ ''://'' @ auth @ rest) =
    (case Option.bind (rfind_char CHR ''@'' auth) (\<lambda>index. if index > 0 then Some index else None) of
       None \<Rightarrow> pre @ ''://'' @ auth @ redact_url_userinfo rest
     | Some k \<Rightarrow> pre @ ''://<redacted>@'' @ drop (k + 1) auth @ redact_url_userinfo rest)"
proof -
  let ?s = "pre @ ''://'' @ auth @ rest" and ?st = "length pre + 3"
  have "(case find_pred ends_authority (drop ?st ?s) of
     None \<Rightarrow> length ?s | Some offset \<Rightarrow> ?st + offset) =
     ?st + (case find_pred ends_authority (auth @ rest) of None \<Rightarrow> length (auth @ rest) | Some i \<Rightarrow> i)"
    by (auto split: option.splits)
  also have "\<dots> = ?st + length auth" using find_pred_append [OF auth rest] by simp
  finally have fin: "(case find_pred ends_authority (drop ?st ?s) of
     None \<Rightarrow> length ?s | Some offset \<Rightarrow> ?st + offset) = ?st + length auth" .
  have parts: "take (?st + length auth) ?s = pre @ ''://'' @ auth"
    "drop (?st + length auth) ?s = rest" "take ?st ?s = pre @ ''://''"
    by (simp_all add: numeral_3_eq_3)
  then have auth': "drop ?st (take (?st + length auth) ?s) = auth"
    by (simp add: numeral_3_eq_3)
  show ?thesis
    by (subst redact_url_userinfo.simps, simp only: find option.case Let_def fin auth')
       (simp add: parts [simplified] split: option.splits)
qed

lemma redact_url_userinfo_none:
  "\<not> str_contains s ''://'' \<Longrightarrow> redact_url_userinfo s = s"
  by (simp add: redact_url_userinfo.simps str_find_None [symmetric])

lemma str_find_first:
  "CHR '':'' \<notin> set a \<Longrightarrow> str_find (a @ ''://'' @ t) ''://'' = Some (length a)"
  by (induction a) auto



text \<open>
  C39: the scan misses a nested scheme. When an authority ends in a colon, as in
  \<open>redirect://http://user:pw@host\<close>, the slashes of the inner separator are the authority's end, the
  rest no longer holds a separator, and the inner user information is left in the text.
\<close>

theorem redact_url_userinfo_nested_scheme:
  assumes "CHR '':'' \<notin> set outer"
    and "\<forall>c\<in>set inner. \<not> ends_authority c" and "CHR ''@'' \<notin> set inner"
    and "\<not> str_contains (''//'' @ ui @ ''@'' @ host) ''://''"
  shows "redact_url_userinfo (outer @ ''://'' @ inner @ ''://'' @ ui @ ''@'' @ host) =
    outer @ ''://'' @ inner @ ''://'' @ ui @ ''@'' @ host"
proof -
  let ?auth = "inner @ '':''" and ?rest = "''//'' @ ui @ ''@'' @ host"
  have "\<forall>c\<in>set ?auth. \<not> ends_authority c"
    using assms(2) by (auto simp: ends_authority_def is_ascii_whitespace_def byte_def)
  moreover have "hd ?rest = CHR ''/''" by simp
  moreover have "ends_authority CHR ''/''" by (simp add: ends_authority_def)
  moreover have "rfind_char CHR ''@'' ?auth = None" using assms(3) by (intro rfind_char_None) simp
  ultimately have "redact_url_userinfo (outer @ ''://'' @ ?auth @ ?rest) =
      outer @ ''://'' @ ?auth @ redact_url_userinfo ?rest"
    using redact_url_userinfo_step [of outer ?auth ?rest] str_find_first [OF assms(1)] by simp
  with redact_url_userinfo_none [OF assms(4)] show ?thesis by simp
qed

theorem redact_url_userinfo_nested_scheme_witness:
  "redact_url_userinfo ''redirect://http://user:pw@host'' = ''redirect://http://user:pw@host''"
  using redact_url_userinfo_nested_scheme [of "''redirect''" "''http''" "''user:pw''" "''host''"]
  by (simp add: ends_authority_def is_ascii_whitespace_def byte_def)

end
