(* ===== verification/EpisodeFailure.thy ===== *)
theory EpisodeFailure
  imports Prelude
begin

section \<open>Classification of episode failures (\<open>episode_retry.rs\<close>, \<open>disk_space.rs\<close>)\<close>

text \<open>
  After one episode of a Bilibili group fails, \<open>classify_episode_failure\<close> decides from the error
  whether the episode is retried, left failed, or the whole group is paused. An \<open>anyhow\<close> error is its
  chain of causes, outermost first: each has a message and, where the cause is an \<open>std::io::Error\<close>,
  its kind and OS error number. \<open>downcast_ref\<close> to the disk-space error is a field of the error,
  because \<open>anyhow\<close> looks through every layer of context. Durations are in seconds. The platform's
  numbers of ENOSPC and EDQUOT, and the rendering of byte counts (a \<open>f64\<close> computation), are parameters.
\<close>

datatype io_kind = NotFound | PermissionDenied | OtherKind

record io_error =
  io_kind :: io_kind
  raw_os_error :: "int option"

record cause =
  message :: string
  as_io_error :: "io_error option"

record disk_space_error =
  available_bytes :: u64
  required_bytes :: u64
  phase :: string

record any_error =
  error_chain :: "cause list"
  downcast_disk_space :: "disk_space_error option"

definition display_chain :: "any_error \<Rightarrow> string" where
  \<comment> \<open>\<open>format!("{error:#}")\<close>: the messages of the chain, separated by a colon and a space\<close>
  "display_chain error = join '': '' (map message (error_chain error))"

definition with_context :: "string \<Rightarrow> any_error \<Rightarrow> any_error" where
  \<comment> \<open>\<open>error.context(message)\<close>\<close>
  "with_context msg error =
     error\<lparr>error_chain := \<lparr>message = msg, as_io_error = None\<rparr> # error_chain error\<rparr>"

subsection \<open>Disk space\<close>

definition STATE_AND_SIDECAR_RESERVE_BYTES :: u64 where
  "STATE_AND_SIDECAR_RESERVE_BYTES = 256 * 1024 * 1024"

definition required_space_bytes :: "u64 \<Rightarrow> u64 \<Rightarrow> u64" where
  "required_space_bytes additional reserve = saturating_add additional reserve"

definition has_sufficient_space :: "u64 \<Rightarrow> u64 \<Rightarrow> u64 \<Rightarrow> bool" where
  "has_sufficient_space available additional reserve =
     (case checked_add additional reserve of
        None \<Rightarrow> False | Some required \<Rightarrow> required \<le> available)"

definition display_disk_space_error :: "(u64 \<Rightarrow> string) \<Rightarrow> disk_space_error \<Rightarrow> string" where
  "display_disk_space_error human_bytes e =
     ''Insufficient disk space during '' @ phase e @ '': '' @ human_bytes (available_bytes e)
       @ '' available, '' @ human_bytes (required_bytes e)
       @ '' required (including a 256 MiB reserve for state and sidecars). Clear space, then Resume the download.''"

definition ensure_disk_space ::
  "(u64 \<Rightarrow> string) \<Rightarrow> any_error + u64 \<Rightarrow> u64 \<Rightarrow> string \<Rightarrow> any_error + unit" where
  \<comment> \<open>the second argument is what \<open>root.available_space_bytes()\<close> returned\<close>
  "ensure_disk_space human_bytes available_space additional_bytes in_phase =
     (case available_space of
        Inl error \<Rightarrow> Inl (with_context (''failed to query available disk space during '' @ in_phase) error)
      | Inr available \<Rightarrow>
          let required = required_space_bytes additional_bytes STATE_AND_SIDECAR_RESERVE_BYTES
          in if \<not> has_sufficient_space available additional_bytes STATE_AND_SIDECAR_RESERVE_BYTES then
               let e = \<lparr>available_bytes = available, required_bytes = required, phase = in_phase\<rparr>
               in Inl \<lparr>error_chain = [\<lparr>message = display_disk_space_error human_bytes e, as_io_error = None\<rparr>],
                       downcast_disk_space = Some e\<rparr>
             else Inr ())"

definition disk_space_needles :: "string list" where
  "disk_space_needles =
     [''no space left on device'', ''insufficient disk space'', ''disk is full'', ''disk full'',
      ''disk quota exceeded'', ''disc quota exceeded'', ''os error 28'', ''os error: 28'',
      ''os error 122'', ''os error: 122'', ''os error 69'', ''os error: 69'']"

definition is_disk_space_failure :: "int list \<Rightarrow> any_error \<Rightarrow> bool" where
  \<comment> \<open>\<open>disk_errnos\<close>: the platform's ENOSPC and EDQUOT\<close>
  "is_disk_space_failure disk_errnos error =
     (if downcast_disk_space error \<noteq> None then True
      else if list_ex (\<lambda>c. case as_io_error c of None \<Rightarrow> False
                         | Some io \<Rightarrow> (case raw_os_error io of None \<Rightarrow> False
                                      | Some n \<Rightarrow> n \<in> set disk_errnos)) (error_chain error) then True
      else contains_any (to_ascii_lowercase (display_chain error)) disk_space_needles)"

subsection \<open>The message patterns\<close>

definition auth_needles :: "string list" where
  "auth_needles =
    [''login expired'',
     ''login has expired'',
     ''login is required'',
     ''not logged in'',
     ''authentication required'',
     ''unauthorized'',
     ''credential'',
     ''cookie expired'',
     ''expired cookie'',
     ''token expired'',
     ''expired token'',
     [CHR 0xE8, CHR 0xB4, CHR 0xA6, CHR 0xE5, CHR 0x8F, CHR 0xB7, CHR 0xE6, CHR 0x9C, CHR 0xAA, CHR 0xE7, CHR 0x99, CHR 0xBB, CHR 0xE5, CHR 0xBD, CHR 0x95],
     [CHR 0xE6, CHR 0x9C, CHR 0xAA, CHR 0xE7, CHR 0x99, CHR 0xBB, CHR 0xE5, CHR 0xBD, CHR 0x95],
     [CHR 0xE7, CHR 0x99, CHR 0xBB, CHR 0xE5, CHR 0xBD, CHR 0x95, CHR 0xE8, CHR 0xBF, CHR 0x87, CHR 0xE6, CHR 0x9C, CHR 0x9F],
     [CHR 0xE7, CHR 0x99, CHR 0xBB, CHR 0xE5, CHR 0xBD, CHR 0x95, CHR 0xE5, CHR 0xA4, CHR 0xB1, CHR 0xE6, CHR 0x95, CHR 0x88],
     [CHR 0xE9, CHR 0x9C, CHR 0x80, CHR 0xE8, CHR 0xA6, CHR 0x81, CHR 0xE7, CHR 0x99, CHR 0xBB, CHR 0xE5, CHR 0xBD, CHR 0x95]]"

definition region_needles :: "string list" where
  "region_needles =
    [''area restriction'',
     ''region restriction'',
     ''region-restricted'',
     ''unavailable in your region'',
     ''unavailable in your country'',
     ''geo-restricted'',
     [CHR 0xE5, CHR 0x9C, CHR 0xB0, CHR 0xE5, CHR 0x8D, CHR 0x80, CHR 0xE9, CHR 0x99, CHR 0x90, CHR 0xE5, CHR 0x88, CHR 0xB6],
     [CHR 0xE5, CHR 0x9C, CHR 0xB0, CHR 0xE5, CHR 0x8C, CHR 0xBA, CHR 0xE9, CHR 0x99, CHR 0x90, CHR 0xE5, CHR 0x88, CHR 0xB6],
     [CHR 0xE5, CHR 0x8C, CHR 0xBA, CHR 0xE5, CHR 0x9F, CHR 0x9F, CHR 0xE9, CHR 0x99, CHR 0x90, CHR 0xE5, CHR 0x88, CHR 0xB6],
     [CHR 0xE5, CHR 0x9C, CHR 0xB0, CHR 0xE5, CHR 0x9F, CHR 0x9F, CHR 0xE9, CHR 0x99, CHR 0x90, CHR 0xE5, CHR 0x88, CHR 0xB6],
     [CHR 0xE4, CHR 0xBB, CHR 0x85, CHR 0xE9, CHR 0x99, CHR 0x90, CHR 0xE4, CHR 0xB8, CHR 0xAD, CHR 0xE5, CHR 0x9B, CHR 0xBD, CHR 0xE5, CHR 0xA4, CHR 0xA7, CHR 0xE9, CHR 0x99, CHR 0x86]]"

definition missing_root_needles :: "string list" where
  "missing_root_needles =
    [''no such file or directory'',
     ''(os error 2)'']"

definition storage_needles :: "string list" where
  "storage_needles =
    [''no space left on device'',
     ''disk is full'',
     ''disk full'',
     ''insufficient disk space'',
     ''failed to query available disk space'',
     ''read-only file system'',
     ''filesystem is read-only'',
     ''root permission'',
     ''enospc'',
     ''erofs'']"

definition permission_needles :: "string list" where
  "permission_needles =
    [''permission denied'',
     ''operation not permitted'',
     ''eacces'',
     ''eperm'',
     ''os error 1'',
     ''os error 13'',
     ''os error 30'']"

definition local_path_needles :: "string list" where
  "local_path_needles =
    [''output root'',
     ''staging directory'',
     ''local filesystem'',
     ''local file system'',
     ''write output'',
     ''create output'',
     ''open output'']"

definition unsafe_needles :: "string list" where
  "unsafe_needles =
    [''unsafe publication'',
     ''unsafe destination'',
     ''identity mismatch'',
     ''identity changed'',
     ''changed identity since it was saved'',
     ''bilibili group inventory changed since the reviewed plan'',
     ''bilibili group episode numbering changed since the reviewed plan'',
     ''bilibili media requirements changed since the reviewed plan'',
     ''needs a confirmed stream plan'',
     ''saved bilibili group inventory no longer matches the current selection'',
     ''object identity changed'',
     ''path identity changed'',
     ''output root or staging directory changed'',
     ''output root changed after overwrite confirmation'',
     ''configured output root identity changed'',
     ''output root identity changed'',
     ''video staging root identity changed'',
     ''staging directory identity changed'',
     ''staging directory access path changed'',
     ''video staging ownership record changed during validation'',
     ''video staging ownership record does not match the bound output root'',
     ''video staging ownership record identity changed after validation'',
     ''video control ownership record does not match the bound output root'',
     ''video control ownership record identity changed after validation'',
     ''bound file descriptor identity changed'',
     ''bound directory descriptor identity changed'',
     ''bound directory identity changed'',
     ''bound file identity or permissions changed'',
     ''bound directory identity or private permissions changed'',
     ''bound output parent directory identity changed'',
     ''reserved bilibili mux output identity changed'',
     ''bilibili mux prepublication anchor identity changed'',
     ''published primary media object changed while rebuilding the final report'',
     ''published primary media is missing while rebuilding the final report'',
     ''published primary media is not a regular file while rebuilding the final report'',
     ''failed to validate moved destination through the configured output root'',
     ''published media source is outside its configured download root'',
     ''published media path is outside its configured download root'',
     ''publication path is outside the output root'',
     ''overwrite target changed after confirmation'',
     ''file was replaced'',
     ''file replacement detected'',
     ''source changed during publication'']"

definition unavailable_needles :: "string list" where
  "unavailable_needles =
    [''episode not found'',
     ''episode unavailable'',
     ''invalid episode'',
     ''video not found'',
     ''video unavailable'',
     ''content is unavailable'',
     [CHR 0xE8, CHR 0xAF, CHR 0xA5, CHR 0xE8, CHR 0xA7, CHR 0x86, CHR 0xE9, CHR 0xA2, CHR 0x91, CHR 0xE4, CHR 0xB8, CHR 0x8D, CHR 0xE5, CHR 0xAD, CHR 0x98, CHR 0xE5, CHR 0x9C, CHR 0xA8],
     [CHR 0xE8, CHR 0xA7, CHR 0x86, CHR 0xE9, CHR 0xA2, CHR 0x91, CHR 0xE4, CHR 0xB8, CHR 0x8D, CHR 0xE5, CHR 0xAD, CHR 0x98, CHR 0xE5, CHR 0x9C, CHR 0xA8],
     [CHR 0xE5, CHR 0x89, CHR 0xA7, CHR 0xE9, CHR 0x9B, CHR 0x86, CHR 0xE4, CHR 0xB8, CHR 0x8D, CHR 0xE5, CHR 0xAD, CHR 0x98, CHR 0xE5, CHR 0x9C, CHR 0xA8],
     [CHR 0xE8, CHR 0xA7, CHR 0x86, CHR 0xE9, CHR 0xA2, CHR 0x91, CHR 0xE4, CHR 0xB8, CHR 0x8D, CHR 0xE5, CHR 0x8F, CHR 0xAF, CHR 0xE7, CHR 0x94, CHR 0xA8]]"

definition network_needles :: "string list" where
  "network_needles =
    [''timed out'',
     ''timeout'',
     ''connection reset'',
     ''connection refused'',
     ''connection closed'',
     ''broken pipe'',
     ''failed to connect'',
     ''error sending request'',
     ''temporary failure in name resolution'',
     ''name or service not known'',
     ''network is unreachable'',
     ''network unreachable'',
     ''connection aborted'']"

subsection \<open>Recognising a failure\<close>

definition is_shared_output_recovery_failure :: "string \<Rightarrow> bool" where
  "is_shared_output_recovery_failure chain =
     (str_contains chain ''video output recovery scan is incomplete''
      \<or> str_contains chain ''shared output recovery failure: bilibili group publication receipt'')"

definition is_shared_executable_launch_failure :: "any_error \<Rightarrow> string \<Rightarrow> bool" where
  "is_shared_executable_launch_failure error chain =
     (if \<not> str_contains chain ''failed to run '' then False
      else list_ex (\<lambda>c. as_io_error c \<noteq> None) (error_chain error)
           \<or> str_contains chain ''(os error '')"

definition is_unsafe_publication_or_identity_failure :: "string \<Rightarrow> bool" where
  "is_unsafe_publication_or_identity_failure chain = contains_any chain unsafe_needles"

definition is_episode_unavailable :: "string \<Rightarrow> bool" where
  "is_episode_unavailable chain = contains_any chain unavailable_needles"

definition is_transient_network_failure :: "string \<Rightarrow> bool" where
  "is_transient_network_failure chain = contains_any chain network_needles"

definition has_typed_local_permission_error :: "any_error \<Rightarrow> bool" where
  "has_typed_local_permission_error error =
     list_ex (\<lambda>c. case as_io_error c of None \<Rightarrow> False
                | Some io \<Rightarrow> io_kind io = PermissionDenied
                    \<or> raw_os_error io \<in> {Some 1, Some 13, Some 30}) (error_chain error)"

definition is_shared_storage_failure :: "any_error \<Rightarrow> string \<Rightarrow> bool" where
  "is_shared_storage_failure error chain =
     (let missing_output_root =
            str_contains chain ''output root''
            \<and> (list_ex (\<lambda>c. case as_io_error c of None \<Rightarrow> False
                          | Some io \<Rightarrow> io_kind io = NotFound) (error_chain error)
               \<or> contains_any chain missing_root_needles)
      in if missing_output_root then True
         else if contains_any chain storage_needles then True
         else let permission_failure = contains_any chain permission_needles
              in permission_failure
                 \<and> (has_typed_local_permission_error error \<or> contains_any chain local_path_needles))"

fun match_indices_from :: "nat \<Rightarrow> nat \<Rightarrow> string \<Rightarrow> string \<Rightarrow> nat list" where
  \<comment> \<open>\<open>str::match_indices\<close>: the offsets of the matches found from the left without overlap;
      \<open>skip\<close> counts the bytes of the current match still to pass\<close>
  "match_indices_from offset skip [] p = []"
| "match_indices_from offset skip (x # xs) p =
     (case skip of
        Suc k \<Rightarrow> match_indices_from (Suc offset) k xs p
      | 0 \<Rightarrow> if starts_with (x # xs) p
             then offset # match_indices_from (Suc offset) (length p - 1) xs p
             else match_indices_from (Suc offset) 0 xs p)"

definition match_indices :: "string \<Rightarrow> string \<Rightarrow> nat list" where
  "match_indices s p = match_indices_from 0 0 s p"

fun char_offsets :: "nat \<Rightarrow> string list \<Rightarrow> nat list" where
  \<comment> \<open>the offsets of \<open>str::char_indices\<close>\<close>
  "char_offsets n [] = []"
| "char_offsets n (c # cs) = n # char_offsets (n + length c) cs"

definition status_context :: "string \<Rightarrow> string" where
  "status_context prior =
     (let requested_context_start = length prior - 48;
          context_start = (case find (\<lambda>index. requested_context_start \<le> index)
                                     (char_offsets 0 (chars prior)) of
                             None \<Rightarrow> 0 | Some index \<Rightarrow> index)
      in drop context_start prior)"

definition has_reason_phrase :: "string \<Rightarrow> string \<Rightarrow> bool" where
  "has_reason_phrase status after =
     (let text = trim_start after in
      if status = ''401'' then starts_with text ''unauthorized''
      else if status = ''403'' then starts_with text ''forbidden''
      else if status = ''404'' then starts_with text ''not found''
      else if status = ''429'' then starts_with text ''too many requests''
      else starts_with text ''server error'' \<or> starts_with text ''service unavailable''
           \<or> starts_with text ''bad gateway'' \<or> starts_with text ''gateway timeout''
           \<or> starts_with text ''internal server error'')"

definition has_http_status :: "string \<Rightarrow> nat \<Rightarrow> bool" where
  "has_http_status chain status_code =
     (let status = dec_digits status_code in
      list_ex (\<lambda>start.
        let prior = take start chain;
            context = status_context prior;
            after = drop (start + length status) chain;
            has_status_context = contains_any context [''http'', ''status'', ''response'', ''code''];
            code_boundary = (prior = [] \<or> \<not> is_ascii_digit (last prior))
                            \<and> (after = [] \<or> \<not> is_ascii_digit (hd after))
        in code_boundary \<and> (has_status_context \<or> has_reason_phrase status after))
        (match_indices chain status))"

definition has_http_5xx_status :: "string \<Rightarrow> bool" where
  "has_http_5xx_status chain = list_ex (has_http_status chain) [500..<600]"

definition is_group_authentication_failure :: "string \<Rightarrow> bool" where
  "is_group_authentication_failure chain =
     (has_http_status chain 401 \<or> contains_any chain auth_needles \<or> contains_any chain region_needles)"

subsection \<open>The decision\<close>

datatype disposition = Retry nat bool | FailEntry | PauseGroup

definition MAX_ADDITIONAL_EPISODE_RETRIES :: nat where
  "MAX_ADDITIONAL_EPISODE_RETRIES = 2"

definition NETWORK_RETRY_DELAY :: nat where "NETWORK_RETRY_DELAY = 5"

definition UPSTREAM_RETRY_DELAY :: nat where "UPSTREAM_RETRY_DELAY = 20"

definition retry_or_fail :: "nat \<Rightarrow> nat \<Rightarrow> bool \<Rightarrow> disposition" where
  "retry_or_fail retries_used delay refresh_plan =
     (if MAX_ADDITIONAL_EPISODE_RETRIES \<le> retries_used then FailEntry
      else Retry delay refresh_plan)"

definition pauses_group :: "int list \<Rightarrow> any_error \<Rightarrow> bool" where
  "pauses_group disk_errnos error =
     (let chain = to_ascii_lowercase (display_chain error) in
      is_shared_executable_launch_failure error chain
      \<or> is_disk_space_failure disk_errnos error
      \<or> is_shared_output_recovery_failure chain
      \<or> is_unsafe_publication_or_identity_failure chain
      \<or> is_shared_storage_failure error chain
      \<or> is_group_authentication_failure chain)"

definition classify_episode_failure_with_retry_after ::
  "int list \<Rightarrow> any_error \<Rightarrow> nat \<Rightarrow> nat option \<Rightarrow> disposition" where
  "classify_episode_failure_with_retry_after disk_errnos error retries_used retry_after =
     (let chain = to_ascii_lowercase (display_chain error) in
      if pauses_group disk_errnos error then PauseGroup
      else if has_http_status chain 404 \<or> is_episode_unavailable chain then FailEntry
      else if has_http_status chain 403 then retry_or_fail retries_used NETWORK_RETRY_DELAY True
      else if has_http_status chain 429 then
        retry_or_fail retries_used (case retry_after of None \<Rightarrow> UPSTREAM_RETRY_DELAY | Some d \<Rightarrow> d) False
      else if has_http_5xx_status chain then retry_or_fail retries_used UPSTREAM_RETRY_DELAY False
      else if is_transient_network_failure chain then
        retry_or_fail retries_used NETWORK_RETRY_DELAY False
      else FailEntry)"

definition classify_episode_failure :: "int list \<Rightarrow> any_error \<Rightarrow> nat \<Rightarrow> disposition" where
  "classify_episode_failure disk_errnos error retries_used =
     classify_episode_failure_with_retry_after disk_errnos error retries_used None"

subsection \<open>Disk space\<close>

lemma unat_reserve: "unat STATE_AND_SIDECAR_RESERVE_BYTES = 268435456"
  by (simp add: STATE_AND_SIDECAR_RESERVE_BYTES_def)

lemma has_sufficient_space_iff:
  "has_sufficient_space a b r \<longleftrightarrow> unat b + unat r \<le> unat a"
proof (cases "checked_add b r")
  case None
  have "unat a < 2 ^ 64" using unsigned_less [of a] by simp
  with checked_add_NoneD [OF None] have "unat a < unat b + unat r" by simp
  with None show ?thesis by (simp add: has_sufficient_space_def)
next
  case (Some c)
  with checked_add_SomeD [OF Some] show ?thesis
    by (simp add: has_sufficient_space_def word_le_nat_alt)
qed

text \<open>
  the disk check succeeds exactly when the free bytes cover the additional bytes and the
  256 MiB reserve, as mathematical integers: a sum past the 64-bit range is refused, never wrapped.
\<close>

lemma ensure_disk_space_exact:
  "ensure_disk_space human_bytes (Inr available) additional in_phase = Inr ()
     \<longleftrightarrow> unat additional + 256 * 1024 * 1024 \<le> unat available"
  by (simp add: ensure_disk_space_def has_sufficient_space_iff unat_reserve Let_def)

subsection \<open>Context does not hide a disk-space failure\<close>

definition mentions :: "any_error \<Rightarrow> string \<Rightarrow> bool" where
  "mentions error needle \<longleftrightarrow> str_contains (to_ascii_lowercase (display_chain error)) needle"

lemma display_chain_with_context:
  assumes "error_chain e \<noteq> []"
  shows "display_chain (with_context m e) = m @ '': '' @ display_chain e"
  using assms by (cases "error_chain e") (auto simp: display_chain_def with_context_def)

lemma mentions_with_context:
  "error_chain e \<noteq> [] \<Longrightarrow> mentions e n \<Longrightarrow> mentions (with_context m e) n"
  unfolding mentions_def
  by (simp only: display_chain_with_context to_ascii_lowercase_append not_False_eq_True)
     (intro str_contains_appendI2)

lemma with_context_nonempty [simp]: "error_chain (with_context m e) \<noteq> []"
  by (simp add: with_context_def)

lemma downcast_with_context [simp]:
  "downcast_disk_space (with_context m e) = downcast_disk_space e"
  by (simp add: with_context_def)

definition disk_failure :: "any_error \<Rightarrow> bool" where
  \<comment> \<open>what every error of the disk check keeps under context\<close>
  "disk_failure e \<longleftrightarrow> error_chain e \<noteq> [] \<and>
     (downcast_disk_space e \<noteq> None \<or> mentions e ''failed to query available disk space'')"

lemma disk_failure_with_context: "disk_failure e \<Longrightarrow> disk_failure (with_context m e)"
  by (auto simp: disk_failure_def intro: mentions_with_context)

lemma disk_failure_contexts: "disk_failure e \<Longrightarrow> disk_failure (fold with_context ms e)"
  by (induction ms arbitrary: e) (auto intro: disk_failure_with_context)

lemma disk_failure_pauses: "disk_failure e \<Longrightarrow> pauses_group errnos e"
  by (auto simp: disk_failure_def pauses_group_def Let_def is_disk_space_failure_def
      is_shared_storage_failure_def mentions_def contains_any_iff storage_needles_def)

lemma ensure_disk_space_failure:
  assumes "ensure_disk_space hb available_space additional in_phase = Inl e"
    and "\<And>q. available_space = Inl q \<Longrightarrow> error_chain q \<noteq> []"
  shows "disk_failure e"
proof (cases available_space)
  case (Inl q)
  let ?m = "''failed to query available disk space during '' @ in_phase"
  from assms(1) Inl have e: "e = with_context ?m q"
    by (simp add: ensure_disk_space_def)
  have "str_contains (to_ascii_lowercase ?m) ''failed to query available disk space''"
    by (simp add: to_ascii_lowercase_def ascii_lower_def byte_def)
  then have "str_contains (to_ascii_lowercase (display_chain e)) ''failed to query available disk space''"
    unfolding e display_chain_with_context [OF assms(2) [OF Inl]] to_ascii_lowercase_append [of ?m]
    by (rule str_contains_appendI1)
  then have "mentions e ''failed to query available disk space''" by (simp only: mentions_def)
  then show ?thesis by (simp add: disk_failure_def e)
next
  case (Inr a)
  with assms(1) show ?thesis
    by (auto simp: ensure_disk_space_def Let_def disk_failure_def split: if_splits)
qed

text \<open>
  C32: whatever the disk check reports, a query failure or too little space, and however many layers of
  context the callers add, the failure pauses the group; it is neither retried nor charged to the
  episode.
\<close>

theorem disk_check_failure_pauses_group:
  assumes "ensure_disk_space human_bytes available_space additional in_phase = Inl e"
    and "\<forall>q. available_space = Inl q \<longrightarrow> error_chain q \<noteq> []"
  shows "classify_episode_failure_with_retry_after errnos (fold with_context contexts e) n retry_after
           = PauseGroup"
  using disk_failure_pauses [OF disk_failure_contexts [OF ensure_disk_space_failure]] assms
  by (simp add: classify_episode_failure_with_retry_after_def)

theorem disk_check_failure_pauses_group_witness:
  "classify_episode_failure_with_retry_after [28, 69]
     (fold with_context [''mux'', ''episode 3'']
        (case ensure_disk_space (\<lambda>b. ''x'') (Inr 1000) 5000 ''mux'' of Inl e \<Rightarrow> e | Inr _ \<Rightarrow> undefined))
     0 (Some 7) = PauseGroup"
proof -
  have "ensure_disk_space (\<lambda>b. ''x'') (Inr 1000) 5000 ''mux'' \<noteq> Inr ()"
    by (simp add: ensure_disk_space_exact)
  then obtain e where e: "ensure_disk_space (\<lambda>b. ''x'') (Inr 1000) 5000 ''mux'' = Inl e"
    by (cases "ensure_disk_space (\<lambda>b. ''x'') (Inr 1000) 5000 ''mux''") auto
  have "\<forall>q. (Inr 1000 :: any_error + u64) = Inl q \<longrightarrow> error_chain q \<noteq> []" by simp
  from disk_check_failure_pauses_group [OF e this, of "[28, 69]" "[''mux'', ''episode 3'']" 0 "Some 7"]
  show ?thesis by (simp add: e)
qed

subsection \<open>When a retry is granted\<close>



subsection \<open>HTTP status numbers\<close>

lemma match_indices_from_sound:
  assumes "p \<noteq> []" "i \<in> set (match_indices_from offset skip s p)"
  shows "offset \<le> i \<and> starts_with (drop (i - offset) s) p"
  using assms(2)
proof (induction offset skip s p rule: match_indices_from.induct)
  case (1 offset skip p)
  then show ?case by simp
next
  case (2 offset skip x xs p)
  have step: "Suc offset \<le> i \<and> starts_with (drop (i - Suc offset) xs) p \<Longrightarrow> ?case"
    by (auto simp: Suc_diff_le [symmetric] Suc_le_eq drop_Cons' diff_Suc split: nat.splits)
  show ?case
  proof (cases skip)
    case (Suc k)
    with 2 step show ?thesis by auto
  next
    case 0
    with 2 step show ?thesis by (auto split: if_splits)
  qed
qed

text \<open>
  a number is taken for an HTTP status only where it stands alone: it is not part of a longer run of
  digits, and the 48 bytes before it name HTTP, a status, a response or a code, or the reason phrase of
  that status follows.
\<close>

lemma has_http_status_stands_alone:
  assumes "has_http_status chain code"
  shows "\<exists>before after. chain = before @ dec_digits code @ after
    \<and> (before = [] \<or> \<not> is_ascii_digit (last before)) \<and> (after = [] \<or> \<not> is_ascii_digit (hd after))
    \<and> (contains_any (status_context before) [''http'', ''status'', ''response'', ''code'']
       \<or> has_reason_phrase (dec_digits code) after)"
proof -
  from assms obtain i where i: "i \<in> set (match_indices chain (dec_digits code))"
    "take i chain = [] \<or> \<not> is_ascii_digit (last (take i chain))"
    "drop (i + length (dec_digits code)) chain = []
      \<or> \<not> is_ascii_digit (hd (drop (i + length (dec_digits code)) chain))"
    "contains_any (status_context (take i chain)) [''http'', ''status'', ''response'', ''code'']
       \<or> has_reason_phrase (dec_digits code) (drop (i + length (dec_digits code)) chain)"
    by (auto simp: has_http_status_def Let_def list_ex_iff)
  from match_indices_from_sound [OF dec_digits_nonempty] i(1)
  have "starts_with (drop i chain) (dec_digits code)" by (fastforce simp: match_indices_def)
  then have "drop i chain = dec_digits code @ drop (length (dec_digits code)) (drop i chain)"
    by (rule starts_with_take)
  then have "chain = take i chain @ dec_digits code @ drop (i + length (dec_digits code)) chain"
    by (metis add.commute append_take_drop_id drop_drop)
  with i(2-4) show ?thesis by blast
qed

lemma has_http_status_stands_alone_witness:
  "has_http_status ''http 503'' 503 \<and>
   (\<exists>before after. ''http 503'' = before @ dec_digits 503 @ after
    \<and> (before = [] \<or> \<not> is_ascii_digit (last before)))"
proof -
  have h: "has_http_status ''http 503'' 503" by code_simp
  from has_http_status_stands_alone [OF h] show ?thesis using h by blast
qed


end
