(* ===== verification/Attempt.thy ===== *)
theory Attempt
  imports Redaction
begin

section \<open>Bilibili download attempts (\<open>bilibili_attempt.rs\<close>): the state machine\<close>

text \<open>
  An attempt snapshot records, per selected episode, how far the download came. Grouped attempts
  (\<open>independent_entries\<close>) publish each episode on its own; the others are verified as a whole. Every
  \<open>&mut self\<close> method of the source is a function from snapshot to snapshot. A \<open>BTreeMap\<close> of hashes is
  the list of its bindings in key order; entry indices are 32-bit words, counters are \<open>nat\<close> because the
  source only compares them and takes maxima.
\<close>

type_synonym hash_map = "(string \<times> string) list"

datatype attempt_outcome =
  OFailed | OPartiallyCompleted | OCancelled | OInterrupted | OVerified

datatype entry_state = Pending | Downloading | Downloaded | Failed | Interrupted | Verified

record attempt_entry =
  ae_index :: u32
  ae_title :: string
  ae_state :: entry_state
  ae_stage :: string
  ae_already_present :: bool
  ae_requires_redownload :: bool
  ae_attempts :: nat
  ae_error :: "string option"
  ae_stable_media_id :: string
  ae_media_paths :: "string list"
  ae_media_hashes :: hash_map

record attempt_snapshot =
  sn_title :: string
  sn_entries :: "attempt_entry list"
  sn_skipped_entries :: nat
  sn_outcome :: "attempt_outcome option"
  sn_independent_entries :: bool
  sn_retry_indices :: "u32 list option"
  sn_media_profile :: "string option"
  sn_publication_namespace :: "string option"

datatype attempt_update =
    Started
  | Stage string
  | Completed
  | UFailed
  | Retrying nat string
  | Failure string nat
  | AlreadyPresent "string list" hash_map
  | UVerified "string list" hash_map

definition pending_entry :: "u32 \<Rightarrow> string \<Rightarrow> string \<Rightarrow> attempt_entry" where
  "pending_entry index title stable_media_id =
     \<lparr>ae_index = index, ae_title = title, ae_state = Pending, ae_stage = [],
      ae_already_present = False, ae_requires_redownload = False, ae_attempts = 0,
      ae_error = None, ae_stable_media_id = stable_media_id, ae_media_paths = [],
      ae_media_hashes = []\<rparr>"

definition new_snapshot :: "string \<Rightarrow> (u32 \<times> string) list \<Rightarrow> nat \<Rightarrow> attempt_snapshot" where
  "new_snapshot title entries skipped =
     \<lparr>sn_title = title, sn_entries = map (\<lambda>(index, t). pending_entry index t []) entries,
      sn_skipped_entries = skipped, sn_outcome = None, sn_independent_entries = False,
      sn_retry_indices = None, sn_media_profile = None, sn_publication_namespace = None\<rparr>"

definition new_independent ::
  "string \<Rightarrow> (u32 \<times> string \<times> string option) list \<Rightarrow> nat \<Rightarrow> attempt_snapshot" where
  "new_independent title entries skipped =
     (let snapshot = new_snapshot title (map (\<lambda>(index, t, _). (index, t)) entries) skipped
      in snapshot\<lparr>sn_independent_entries := True,
           sn_entries := map (\<lambda>(entry, (_, _, media_id)).
                entry\<lparr>ae_stable_media_id := (case media_id of None \<Rightarrow> [] | Some i \<Rightarrow> i)\<rparr>)
              (zip (sn_entries snapshot) entries)\<rparr>)"

definition sanitize_entry_error :: "string \<Rightarrow> string" where
  "sanitize_entry_error error =
     (let redacted = redact_sensitive_text error in
      if length redacted \<le> 1000 then redacted
      else take (floor_char_boundary redacted (1000 - 3)) redacted @ ''...'')"

definition count_state :: "entry_state \<Rightarrow> attempt_snapshot \<Rightarrow> nat" where
  "count_state st s = count_where (\<lambda>e. ae_state e = st) (sn_entries s)"

definition verified_entries :: "attempt_snapshot \<Rightarrow> nat" where
  "verified_entries s = count_state Verified s"

definition refresh_independent_skipped_entries :: "attempt_snapshot \<Rightarrow> attempt_snapshot" where
  "refresh_independent_skipped_entries s =
     (if sn_independent_entries s
      then s\<lparr>sn_skipped_entries := count_where ae_already_present (sn_entries s)\<rparr> else s)"

definition update_entries ::
  "u32 \<Rightarrow> (attempt_entry \<Rightarrow> attempt_entry) \<Rightarrow> attempt_snapshot \<Rightarrow> attempt_snapshot" where
  \<comment> \<open>\<open>for entry in self.entries.iter_mut().filter(|entry| entry.index == index)\<close>\<close>
  "update_entries index f s =
     s\<lparr>sn_entries := update_where (\<lambda>e. ae_index e = index) f (sn_entries s)\<rparr>"

definition clear_outputs :: "attempt_entry \<Rightarrow> attempt_entry" where
  "clear_outputs e = e\<lparr>ae_media_paths := [], ae_media_hashes := []\<rparr>"

subsection \<open>Progress updates\<close>

definition entry_started :: "u32 \<Rightarrow> attempt_snapshot \<Rightarrow> attempt_snapshot" where
  "entry_started index s =
     (if sn_outcome s \<noteq> None then s
      else refresh_independent_skipped_entries (update_entries index
        (\<lambda>e. if ae_state e \<in> {Pending, Failed, Interrupted, Downloading}
             then clear_outputs (e\<lparr>ae_state := Downloading, ae_stage := [], ae_already_present := False,
                    ae_attempts := max (ae_attempts e) 1\<rparr>)
             else e) s))"

definition stage_started :: "u32 \<Rightarrow> string \<Rightarrow> attempt_snapshot \<Rightarrow> attempt_snapshot" where
  "stage_started index stage s =
     (if sn_outcome s \<noteq> None then s
      else update_entries index
        (\<lambda>e. if ae_state e \<in> {Pending, Downloading}
             then e\<lparr>ae_state := Downloading, ae_stage := stage\<rparr>
             else if ae_state e = Downloaded \<and> sn_independent_entries s then e\<lparr>ae_stage := stage\<rparr>
             else e) s)"

definition entry_completed :: "u32 \<Rightarrow> attempt_snapshot \<Rightarrow> attempt_snapshot" where
  "entry_completed index s =
     (if sn_outcome s \<noteq> None then s
      else refresh_independent_skipped_entries (update_entries index
        (\<lambda>e. if ae_state e \<notin> {Downloaded, Verified}
             then e\<lparr>ae_state := Downloaded, ae_stage := [], ae_already_present := False,
                    ae_error := None\<rparr>
             else e) s))"

definition entry_failed :: "u32 \<Rightarrow> attempt_snapshot \<Rightarrow> attempt_snapshot" where
  "entry_failed index s =
     (if sn_outcome s \<noteq> None then s
      else refresh_independent_skipped_entries (update_entries index
        (\<lambda>e. if ae_state e \<notin> {Downloaded, Verified}
             then e\<lparr>ae_state := Failed, ae_already_present := False,
                    ae_attempts := max (ae_attempts e) 1\<rparr>
             else e) s))"

definition entry_retrying :: "u32 \<Rightarrow> nat \<Rightarrow> string \<Rightarrow> attempt_snapshot \<Rightarrow> attempt_snapshot" where
  "entry_retrying index attempt error s =
     (if sn_outcome s \<noteq> None then s
      else let error = sanitize_entry_error error in
        refresh_independent_skipped_entries (update_entries index
        (\<lambda>e. if ae_state e \<noteq> Verified
             then clear_outputs (e\<lparr>ae_state := Downloading, ae_stage := [], ae_already_present := False,
                    ae_attempts := max (ae_attempts e) attempt, ae_error := Some error\<rparr>)
             else e) s))"

definition entry_failed_with_error ::
  "u32 \<Rightarrow> nat \<Rightarrow> string \<Rightarrow> attempt_snapshot \<Rightarrow> attempt_snapshot" where
  "entry_failed_with_error index attempts error s =
     (if sn_outcome s \<noteq> None then s
      else let error = sanitize_entry_error error in
        refresh_independent_skipped_entries (update_entries index
        (\<lambda>e. if ae_state e \<noteq> Verified
             then clear_outputs (e\<lparr>ae_state := Failed, ae_already_present := False,
                    ae_stage := (if sn_independent_entries s then ae_stage e else []),
                    ae_attempts := max (ae_attempts e) attempts, ae_error := Some error\<rparr>)
             else e) s))"

definition entry_verified :: "u32 \<Rightarrow> attempt_snapshot \<Rightarrow> attempt_snapshot" where
  "entry_verified index s =
     (if sn_outcome s \<noteq> None then s
      else refresh_independent_skipped_entries (update_entries index
        (\<lambda>e. let e = e\<lparr>ae_state := Verified, ae_stage := []\<rparr>;
                 e = (if sn_independent_entries s
                      then e\<lparr>ae_already_present := False, ae_requires_redownload := False\<rparr> else e)
             in e\<lparr>ae_error := None, ae_attempts := max (ae_attempts e) 1\<rparr>) s))"

definition entry_verified_with_outputs ::
  "u32 \<Rightarrow> string list \<Rightarrow> hash_map \<Rightarrow> attempt_snapshot \<Rightarrow> attempt_snapshot" where
  "entry_verified_with_outputs index media_paths hashes s =
     (let s = entry_verified index s in
      if sn_outcome s \<noteq> None then s
      else update_entries index
             (\<lambda>e. e\<lparr>ae_media_paths := media_paths, ae_media_hashes := hashes\<rparr>) s)"

text \<open>
  \<open>entry_already_present_with_outputs\<close> zips the matching entries with the attempts and redownload
  flags they had before; since the entries matching an index keep their positions, the entry at each
  position takes back its own previous values.
\<close>

definition restore_attempts :: "u32 \<Rightarrow> attempt_entry list \<Rightarrow> attempt_entry list \<Rightarrow> attempt_entry list" where
  "restore_attempts index olds news =
     map (\<lambda>(old, e). if ae_index e = index
            then e\<lparr>ae_already_present := True, ae_attempts := ae_attempts old,
                   ae_requires_redownload := ae_requires_redownload old\<rparr>
            else e) (zip olds news)"

definition entry_already_present_with_outputs ::
  "u32 \<Rightarrow> string list \<Rightarrow> hash_map \<Rightarrow> attempt_snapshot \<Rightarrow> attempt_snapshot" where
  "entry_already_present_with_outputs index media_paths hashes s =
     (if \<not> sn_independent_entries s then s
      else let s' = entry_verified_with_outputs index media_paths hashes s in
        if sn_outcome s' \<noteq> None then s'
        else refresh_independent_skipped_entries
               (s'\<lparr>sn_entries := restore_attempts index (sn_entries s) (sn_entries s')\<rparr>))"

fun apply_update :: "attempt_update \<Rightarrow> u32 \<Rightarrow> attempt_snapshot \<Rightarrow> attempt_snapshot" where
  "apply_update Started index s = entry_started index s"
| "apply_update (Stage stage) index s = stage_started index stage s"
| "apply_update Completed index s = entry_completed index s"
| "apply_update UFailed index s = entry_failed index s"
| "apply_update (Retrying attempt error) index s = entry_retrying index attempt error s"
| "apply_update (Failure error attempts) index s = entry_failed_with_error index attempts error s"
| "apply_update (AlreadyPresent paths hashes) index s =
     entry_already_present_with_outputs index paths hashes s"
| "apply_update (UVerified paths hashes) index s = entry_verified_with_outputs index paths hashes s"

subsection \<open>Resume and retry\<close>

definition prepare_resume :: "bool \<Rightarrow> attempt_snapshot \<Rightarrow> attempt_snapshot" where
  "prepare_resume retry_failed s =
     (if \<not> sn_independent_entries s then s
      else refresh_independent_skipped_entries
        (s\<lparr>sn_outcome := None,
           sn_retry_indices :=
             (if retry_failed
              then Some (map ae_index (filter (\<lambda>e. ae_state e = Failed) (sn_entries s)))
              else None),
           sn_entries := update_where
             (\<lambda>e. if retry_failed then ae_state e = Failed
                  else ae_state e \<in> {Pending, Failed, Interrupted, Downloading})
             (\<lambda>e. clear_outputs (e\<lparr>ae_state := Pending, ae_stage := [], ae_already_present := False\<rparr>))
             (sn_entries s)\<rparr>))"

fun update_first :: "('a \<Rightarrow> bool) \<Rightarrow> ('a \<Rightarrow> 'a) \<Rightarrow> 'a list \<Rightarrow> 'a list" where
  \<comment> \<open>the entry \<open>iter_mut().find(P)\<close> returns, updated in place\<close>
  "update_first P f [] = []"
| "update_first P f (x # xs) = (if P x then f x # xs else x # update_first P f xs)"

definition prepare_episode_retry :: "u32 \<Rightarrow> attempt_snapshot \<Rightarrow> bool \<times> attempt_snapshot" where
  "prepare_episode_retry index s =
     (if \<not> sn_independent_entries s then (False, s)
      else case find (\<lambda>e. ae_index e = index) (sn_entries s) of
        None \<Rightarrow> (False, s)
      | Some entry \<Rightarrow>
          if ae_state entry \<notin> {Pending, Failed, Interrupted} then (False, s)
          else (True, refresh_independent_skipped_entries
            (s\<lparr>sn_outcome := None, sn_retry_indices := Some [index],
               sn_entries := update_first (\<lambda>e. ae_index e = index)
                 (\<lambda>e. clear_outputs (e\<lparr>ae_state := Pending, ae_stage := [],
                        ae_already_present := False, ae_error := None\<rparr>)) (sn_entries s)\<rparr>)))"

subsection \<open>Reconciling with an approved inventory\<close>

type_synonym entry_queues = "string \<Rightarrow> attempt_entry list"

definition previous_by_id :: "attempt_entry list \<Rightarrow> entry_queues" where
  \<comment> \<open>the entries with a media id, per id in their order\<close>
  "previous_by_id entries = (\<lambda>media_id.
     if media_id = [] then [] else filter (\<lambda>e. ae_stable_media_id e = media_id) entries)"

definition reconciled_entry ::
  "string list \<Rightarrow> string list \<Rightarrow> u32 \<times> string \<times> string \<Rightarrow> attempt_entry option \<Rightarrow> attempt_entry" where
  "reconciled_entry preserved_ids redownload_ids identity previous =
     (case identity of (index, title, media_id) \<Rightarrow>
      let entry = (pending_entry index title media_id)
                    \<lparr>ae_requires_redownload := media_id \<in> set redownload_ids\<rparr>
      in case previous of
           None \<Rightarrow> entry
         | Some p \<Rightarrow>
             let preserve_verified = (ae_state p = Verified \<and> \<not> ae_requires_redownload p
                                      \<and> media_id \<in> set preserved_ids);
                 entry = entry\<lparr>ae_attempts := ae_attempts p, ae_error := ae_error p,
                           ae_requires_redownload := ae_requires_redownload entry
                                                     \<or> ae_requires_redownload p\<rparr>
             in if preserve_verified
                then entry\<lparr>ae_state := Verified, ae_already_present := ae_already_present p,
                           ae_media_paths := ae_media_paths p, ae_media_hashes := ae_media_hashes p\<rparr>
                else entry)"

fun reconcile_entries ::
  "string list \<Rightarrow> string list \<Rightarrow> entry_queues \<Rightarrow> (u32 \<times> string \<times> string) list \<Rightarrow> attempt_entry list" where
  \<comment> \<open>each inventory entry takes the front of its id's queue\<close>
  "reconcile_entries preserved redownload queues [] = []"
| "reconcile_entries preserved redownload queues ((index, title, media_id) # rest) =
     (case queues media_id of
        [] \<Rightarrow> reconciled_entry preserved redownload (index, title, media_id) None
                # reconcile_entries preserved redownload queues rest
      | p # ps \<Rightarrow> reconciled_entry preserved redownload (index, title, media_id) (Some p)
                # reconcile_entries preserved redownload (queues(media_id := ps)) rest)"

definition reconcile_independent_inventory ::
  "string \<Rightarrow> string option \<Rightarrow> (u32 \<times> string \<times> string) list \<Rightarrow> string list \<Rightarrow> string list
     \<Rightarrow> attempt_snapshot \<Rightarrow> attempt_snapshot" where
  "reconcile_independent_inventory title media_profile inventory preserved_ids redownload_ids s =
     (let scoped_media_ids = map_option (\<lambda>indices.
            filter (\<lambda>media_id. media_id \<noteq> [])
              (map ae_stable_media_id (filter (\<lambda>e. ae_index e \<in> set indices) (sn_entries s))))
            (sn_retry_indices s);
          entries = reconcile_entries preserved_ids redownload_ids (previous_by_id (sn_entries s)) inventory
      in s\<lparr>sn_entries := entries, sn_title := title,
           sn_skipped_entries := count_where ae_already_present entries,
           sn_outcome := None,
           sn_retry_indices := map_option (\<lambda>ids.
             map ae_index (filter (\<lambda>e. ae_stable_media_id e \<in> set ids) entries)) scoped_media_ids,
           sn_independent_entries := True, sn_media_profile := media_profile\<rparr>)"

subsection \<open>Finishing an attempt\<close>

definition sanitize_errors :: "attempt_snapshot \<Rightarrow> attempt_snapshot" where
  "sanitize_errors s =
     s\<lparr>sn_entries := map (\<lambda>e. e\<lparr>ae_error := map_option sanitize_entry_error (ae_error e)\<rparr>)
                       (sn_entries s)\<rparr>"

fun may_replace :: "attempt_outcome \<Rightarrow> attempt_outcome \<Rightarrow> bool" where
  "may_replace OVerified new = (new \<noteq> OVerified)"
| "may_replace OInterrupted new = (new = OCancelled)"
| "may_replace OFailed new = (new = OCancelled)"
| "may_replace OPartiallyCompleted new = (new = OCancelled)"
| "may_replace OCancelled new = False"

definition effective_outcome :: "attempt_snapshot \<Rightarrow> attempt_outcome \<Rightarrow> attempt_outcome" where
  "effective_outcome s outcome =
     (let outcome = (if sn_independent_entries s \<and> outcome = OVerified
                        \<and> list_ex (\<lambda>e. ae_state e \<noteq> Verified) (sn_entries s)
                     then (if verified_entries s > 0 then OPartiallyCompleted else OFailed)
                     else outcome)
      in if sn_independent_entries s \<and> outcome = OFailed \<and> verified_entries s > 0
         then OPartiallyCompleted else outcome)"

definition close_entries :: "attempt_outcome \<Rightarrow> attempt_snapshot \<Rightarrow> attempt_entry list" where
  "close_entries outcome s =
     (case outcome of
        OVerified \<Rightarrow>
          (if \<not> sn_independent_entries s
           then map (\<lambda>e. e\<lparr>ae_state := Verified, ae_stage := []\<rparr>) (sn_entries s)
           else sn_entries s)
      | OFailed \<Rightarrow> update_where (\<lambda>e. ae_state e = Downloading) (\<lambda>e. e\<lparr>ae_state := Failed\<rparr>) (sn_entries s)
      | OPartiallyCompleted \<Rightarrow>
          update_where (\<lambda>e. ae_state e = Downloading) (\<lambda>e. e\<lparr>ae_state := Failed\<rparr>) (sn_entries s)
      | OCancelled \<Rightarrow>
          update_where (\<lambda>e. ae_state e = Downloading) (\<lambda>e. e\<lparr>ae_state := Interrupted\<rparr>) (sn_entries s)
      | OInterrupted \<Rightarrow>
          update_where (\<lambda>e. ae_state e = Downloading) (\<lambda>e. e\<lparr>ae_state := Interrupted\<rparr>) (sn_entries s))"

definition finish :: "attempt_outcome \<Rightarrow> attempt_snapshot \<Rightarrow> attempt_snapshot" where
  "finish outcome s =
     (if (case sn_outcome s of None \<Rightarrow> False | Some old \<Rightarrow> \<not> may_replace old outcome) then s
      else let outcome = effective_outcome s outcome
           in s\<lparr>sn_entries := close_entries outcome s, sn_outcome := Some outcome\<rparr>)"

definition total_entries :: "attempt_snapshot \<Rightarrow> nat" where
  "total_entries s = length (sn_entries s)"

definition downloaded_entries :: "attempt_snapshot \<Rightarrow> nat" where
  "downloaded_entries s = count_state Downloaded s"

definition failed_entries :: "attempt_snapshot \<Rightarrow> nat" where
  "failed_entries s = count_state Failed s"

section \<open>What every operation keeps of an attempt\<close>

definition entry_wf :: "attempt_entry \<Rightarrow> bool" where
  \<comment> \<open>only a verified entry counts as already present or has published outputs\<close>
  "entry_wf e = (ae_state e = Verified
     \<or> (\<not> ae_already_present e \<and> ae_media_paths e = [] \<and> ae_media_hashes e = []))"

definition attempt_wf :: "attempt_snapshot \<Rightarrow> bool" where
  "attempt_wf s =
     (list_all entry_wf (sn_entries s)
      \<and> (sn_outcome s = Some OVerified \<longrightarrow> list_all (\<lambda>e. ae_state e = Verified) (sn_entries s))
      \<and> (sn_outcome s \<noteq> None \<longrightarrow> list_all (\<lambda>e. ae_state e \<noteq> Downloading) (sn_entries s))
      \<and> (sn_independent_entries s \<and> sn_outcome s = Some OFailed
           \<longrightarrow> list_all (\<lambda>e. ae_state e \<noteq> Verified) (sn_entries s)))"

definition skipped_consistent :: "attempt_snapshot \<Rightarrow> bool" where
  "skipped_consistent s =
     (sn_independent_entries s \<longrightarrow> sn_skipped_entries s = count_where ae_already_present (sn_entries s))"

named_theorems attempt_ops

lemmas [attempt_ops] =
  entry_started_def stage_started_def entry_completed_def entry_failed_def entry_retrying_def
  entry_failed_with_error_def entry_verified_def entry_verified_with_outputs_def
  entry_already_present_with_outputs_def update_entries_def refresh_independent_skipped_entries_def
  clear_outputs_def Let_def

lemma list_all_update_where:
  assumes "list_all Q xs" "\<And>x. P x \<Longrightarrow> Q x \<Longrightarrow> Q (f x)"
  shows "list_all Q (update_where P f xs)"
  using assms by (auto simp: list_all_iff set_update_where)

lemma list_all_update_first:
  assumes "list_all Q xs" "\<And>x. P x \<Longrightarrow> Q x \<Longrightarrow> Q (f x)"
  shows "list_all Q (update_first P f xs)"
  using assms(1) by (induction xs) (auto simp: assms(2))

lemma length_update_first [simp]: "length (update_first P f xs) = length xs"
  by (induction xs) auto

lemma refresh_simps [simp]:
  "sn_entries (refresh_independent_skipped_entries s) = sn_entries s"
  "sn_outcome (refresh_independent_skipped_entries s) = sn_outcome s"
  "sn_independent_entries (refresh_independent_skipped_entries s) = sn_independent_entries s"
  "sn_title (refresh_independent_skipped_entries s) = sn_title s"
  "sn_retry_indices (refresh_independent_skipped_entries s) = sn_retry_indices s"
  "sn_media_profile (refresh_independent_skipped_entries s) = sn_media_profile s"
  "sn_publication_namespace (refresh_independent_skipped_entries s) = sn_publication_namespace s"
  by (simp_all add: refresh_independent_skipped_entries_def)

lemma skipped_consistent_refresh [simp]:
  "skipped_consistent (refresh_independent_skipped_entries s)"
  by (simp add: skipped_consistent_def refresh_independent_skipped_entries_def)

text \<open>
  The effect of an update on one entry. Every update of an open attempt is this map over the entries:
  the lemmas about updates follow from it by a case distinction on the update.
\<close>

definition verify_entry :: "bool \<Rightarrow> string list \<Rightarrow> hash_map \<Rightarrow> attempt_entry \<Rightarrow> attempt_entry" where
  "verify_entry indep paths hashes e =
     e\<lparr>ae_state := Verified, ae_stage := [],
       ae_already_present := (if indep then False else ae_already_present e),
       ae_requires_redownload := (if indep then False else ae_requires_redownload e),
       ae_error := None, ae_attempts := max (ae_attempts e) 1,
       ae_media_paths := paths, ae_media_hashes := hashes\<rparr>"

fun entry_update :: "bool \<Rightarrow> attempt_update \<Rightarrow> attempt_entry \<Rightarrow> attempt_entry" where
  "entry_update indep Started e =
     (if ae_state e \<in> {Pending, Failed, Interrupted, Downloading}
      then clear_outputs (e\<lparr>ae_state := Downloading, ae_stage := [], ae_already_present := False,
             ae_attempts := max (ae_attempts e) 1\<rparr>)
      else e)"
| "entry_update indep (Stage stage) e =
     (if ae_state e \<in> {Pending, Downloading} then e\<lparr>ae_state := Downloading, ae_stage := stage\<rparr>
      else if ae_state e = Downloaded \<and> indep then e\<lparr>ae_stage := stage\<rparr> else e)"
| "entry_update indep Completed e =
     (if ae_state e \<notin> {Downloaded, Verified}
      then e\<lparr>ae_state := Downloaded, ae_stage := [], ae_already_present := False, ae_error := None\<rparr>
      else e)"
| "entry_update indep UFailed e =
     (if ae_state e \<notin> {Downloaded, Verified}
      then e\<lparr>ae_state := Failed, ae_already_present := False, ae_attempts := max (ae_attempts e) 1\<rparr>
      else e)"
| "entry_update indep (Retrying attempt error) e =
     (if ae_state e \<noteq> Verified
      then clear_outputs (e\<lparr>ae_state := Downloading, ae_stage := [], ae_already_present := False,
             ae_attempts := max (ae_attempts e) attempt, ae_error := Some (sanitize_entry_error error)\<rparr>)
      else e)"
| "entry_update indep (Failure error attempts) e =
     (if ae_state e \<noteq> Verified
      then clear_outputs (e\<lparr>ae_state := Failed, ae_already_present := False,
             ae_stage := (if indep then ae_stage e else []),
             ae_attempts := max (ae_attempts e) attempts, ae_error := Some (sanitize_entry_error error)\<rparr>)
      else e)"
| "entry_update indep (AlreadyPresent paths hashes) e =
     (if indep
      then (verify_entry indep paths hashes e)\<lparr>ae_already_present := True, ae_attempts := ae_attempts e,
             ae_requires_redownload := ae_requires_redownload e\<rparr>
      else e)"
| "entry_update indep (UVerified paths hashes) e = verify_entry indep paths hashes e"

lemma apply_update_closed:
  "sn_outcome s \<noteq> None \<Longrightarrow> apply_update u i s = s"
  by (cases u) (auto simp: attempt_ops)

lemma update_where_compose:
  assumes "\<And>x. P x \<Longrightarrow> P (f x)"
  shows "update_where P g (update_where P f xs) = update_where P (g \<circ> f) xs"
  using assms by (simp add: update_where_def)

lemma restore_attempts_update_where:
  assumes "\<And>e. ae_index e = i \<Longrightarrow> ae_index (f e) = i"
  shows "restore_attempts i es (update_where (\<lambda>e. ae_index e = i) f es)
    = update_where (\<lambda>e. ae_index e = i)
        (\<lambda>e. (f e)\<lparr>ae_already_present := True, ae_attempts := ae_attempts e,
                    ae_requires_redownload := ae_requires_redownload e\<rparr>) es"
  using assms by (induction es) (auto simp: restore_attempts_def update_where_def)

lemma entry_verified_with_outputs_entries:
  assumes "sn_outcome s = None"
  shows "sn_entries (entry_verified_with_outputs i paths hashes s)
    = update_where (\<lambda>e. ae_index e = i) (verify_entry (sn_independent_entries s) paths hashes) (sn_entries s)"
  using assms
  by (simp add: entry_verified_with_outputs_def entry_verified_def update_entries_def Let_def
      update_where_def verify_entry_def)

lemma entry_verified_with_outputs_rest:
  "sn_outcome (entry_verified_with_outputs i paths hashes s) = sn_outcome s"
  "sn_independent_entries (entry_verified_with_outputs i paths hashes s) = sn_independent_entries s"
  "sn_title (entry_verified_with_outputs i paths hashes s) = sn_title s"
  by (simp_all add: entry_verified_with_outputs_def entry_verified_def update_entries_def Let_def)

lemma apply_update_entries:
  assumes "sn_outcome s = None"
  shows "sn_entries (apply_update u i s)
    = update_where (\<lambda>e. ae_index e = i) (entry_update (sn_independent_entries s) u) (sn_entries s)"
proof (cases u)
  case (AlreadyPresent paths hashes)
  show ?thesis
  proof (cases "sn_independent_entries s")
    case True
    have "ae_index (verify_entry True paths hashes e) = ae_index e" for e
      by (simp add: verify_entry_def)
    with True assms AlreadyPresent show ?thesis
      by (simp add: entry_already_present_with_outputs_def Let_def entry_verified_with_outputs_entries
          entry_verified_with_outputs_rest restore_attempts_update_where) 
         (simp add: update_where_def)
  next
    case False
    with AlreadyPresent show ?thesis
      by (simp add: entry_already_present_with_outputs_def update_where_def cong: if_cong)
  qed
next
  case (UVerified paths hashes)
  with assms show ?thesis
    by (simp add: entry_verified_with_outputs_entries update_where_def)
qed (use assms in \<open>simp_all add: entry_started_def stage_started_def entry_completed_def entry_failed_def
  entry_retrying_def entry_failed_with_error_def update_entries_def update_where_def Let_def\<close>)

lemma apply_update_rest [simp]:
  "sn_outcome (apply_update u i s) = sn_outcome s"
  "sn_independent_entries (apply_update u i s) = sn_independent_entries s"
  "sn_title (apply_update u i s) = sn_title s"
  by (cases u; simp add: entry_started_def stage_started_def entry_completed_def entry_failed_def
    entry_retrying_def entry_failed_with_error_def update_entries_def Let_def
    entry_verified_with_outputs_rest entry_already_present_with_outputs_def)+


lemma entry_update_wf: "entry_wf e \<Longrightarrow> entry_wf (entry_update indep u e)"
  by (cases u) (auto simp: entry_wf_def clear_outputs_def verify_entry_def)

lemma entry_update_keeps:
  "ae_index (entry_update indep u e) = ae_index e"
  "ae_title (entry_update indep u e) = ae_title e"
  "ae_stable_media_id (entry_update indep u e) = ae_stable_media_id e"
  "ae_attempts e \<le> ae_attempts (entry_update indep u e)"
  "ae_state e = Verified \<Longrightarrow> ae_state (entry_update indep u e) = Verified"
  by (cases u; auto simp: clear_outputs_def verify_entry_def)+

lemma apply_update_wf: "attempt_wf s \<Longrightarrow> attempt_wf (apply_update u i s)"
proof (cases "sn_outcome s = None")
  case True
  assume "attempt_wf s"
  with True show ?thesis
    by (simp add: attempt_wf_def apply_update_entries list_all_update_where entry_update_wf)
qed (simp add: apply_update_closed)

lemma prepare_resume_wf: "attempt_wf s \<Longrightarrow> attempt_wf (prepare_resume r s)"
  by (auto simp: attempt_wf_def prepare_resume_def intro!: list_all_update_where)
    (auto simp: entry_wf_def clear_outputs_def)

lemma prepare_episode_retry_wf:
  "attempt_wf s \<Longrightarrow> attempt_wf (snd (prepare_episode_retry i s))"
  by (auto simp: attempt_wf_def prepare_episode_retry_def split: option.splits
      intro!: list_all_update_first) (auto simp: entry_wf_def clear_outputs_def)

lemma reconciled_entry_wf: "entry_wf (reconciled_entry pids rids identity previous)"
  by (cases identity; cases previous)
    (auto simp: reconciled_entry_def entry_wf_def pending_entry_def Let_def)

lemma reconcile_entries_wf: "list_all entry_wf (reconcile_entries pids rids q inventory)"
  by (induction pids rids q inventory rule: reconcile_entries.induct)
    (auto simp: reconciled_entry_wf fun_upd_def split: list.splits)

lemma reconcile_wf: "attempt_wf (reconcile_independent_inventory title profile inventory pids rids s)"
  by (simp add: attempt_wf_def reconcile_independent_inventory_def Let_def reconcile_entries_wf)

lemma sanitize_errors_wf: "attempt_wf s \<Longrightarrow> attempt_wf (sanitize_errors s)"
  by (auto simp: attempt_wf_def sanitize_errors_def list_all_iff entry_wf_def)

lemma effective_outcome_verified:
  "effective_outcome s oc = OVerified \<Longrightarrow> sn_independent_entries s
    \<Longrightarrow> list_all (\<lambda>e. ae_state e = Verified) (sn_entries s)"
  by (auto simp: effective_outcome_def Let_def list_ex_iff list_all_iff split: if_splits)

lemma close_entries_wf:
  assumes "list_all entry_wf (sn_entries s)"
  shows "list_all entry_wf (close_entries oc s)"
  using assms
  by (auto simp: close_entries_def list_all_iff set_update_where split: attempt_outcome.splits)
    (auto simp: entry_wf_def)

lemma close_entries_no_downloading:
  assumes "oc = effective_outcome s oc'"
  shows "list_all (\<lambda>e. ae_state e \<noteq> Downloading) (close_entries oc s)"
  using assms effective_outcome_verified[of s oc']
  by (auto simp: close_entries_def list_all_iff set_update_where split: attempt_outcome.splits)

lemma close_entries_verified:
  assumes "OVerified = effective_outcome s oc"
  shows "list_all (\<lambda>e. ae_state e = Verified) (close_entries OVerified s)"
  using effective_outcome_verified[OF assms[symmetric]] by (auto simp: close_entries_def list_all_iff)

lemma effective_outcome_failed:
  "effective_outcome s oc = OFailed \<Longrightarrow> sn_independent_entries s
    \<Longrightarrow> list_all (\<lambda>e. ae_state e \<noteq> Verified) (sn_entries s)"
  by (auto simp: effective_outcome_def Let_def verified_entries_def count_state_def count_where_0_iff
      list_all_iff split: if_splits)

lemma close_entries_failed:
  assumes "OFailed = effective_outcome s oc" "sn_independent_entries s"
  shows "list_all (\<lambda>e. ae_state e \<noteq> Verified) (close_entries OFailed s)"
  using effective_outcome_failed[OF assms(1)[symmetric] assms(2)]
  by (auto simp: close_entries_def list_all_iff set_update_where)

lemma finish_wf: "attempt_wf s \<Longrightarrow> attempt_wf (finish oc s)"
  using close_entries_wf[of s] close_entries_no_downloading[of _ s oc] close_entries_verified[of s oc]
    close_entries_failed[of s oc]
  by (auto simp: attempt_wf_def finish_def Let_def)

lemma new_snapshot_wf: "attempt_wf (new_snapshot title es skipped)"
  by (auto simp: attempt_wf_def new_snapshot_def list_all_iff entry_wf_def pending_entry_def)

lemma new_independent_wf: "attempt_wf (new_independent title es skipped)"
  by (auto simp: attempt_wf_def new_independent_def new_snapshot_def list_all_iff entry_wf_def
      pending_entry_def Let_def dest!: set_zip_leftD)

subsection \<open>Reachable attempts\<close>

inductive attempt_step :: "attempt_snapshot \<Rightarrow> attempt_snapshot \<Rightarrow> bool" where
  step_update: "attempt_step s (apply_update u i s)"
| step_resume: "attempt_step s (prepare_resume retry_failed s)"
| step_retry: "prepare_episode_retry i s = (True, s') \<Longrightarrow> attempt_step s s'"
| step_reconcile: "attempt_step s (reconcile_independent_inventory title profile inventory pids rids s)"
| step_sanitize: "attempt_step s (sanitize_errors s)"
| step_finish: "attempt_step s (finish oc s)"

inductive attempt_reachable :: "attempt_snapshot \<Rightarrow> bool" where
  start_whole: "attempt_reachable (new_snapshot title es skipped)"
| start_grouped: "attempt_reachable (new_independent title es skipped)"
| reach_step: "attempt_reachable s \<Longrightarrow> attempt_step s s' \<Longrightarrow> attempt_reachable s'"

inductive_cases attempt_stepE: "attempt_step s s'"

lemma attempt_step_wf:
  assumes "attempt_step s s'" "attempt_wf s"
  shows "attempt_wf s'"
  using assms
  by (cases rule: attempt_step.cases)
    (simp_all add: apply_update_wf prepare_resume_wf reconcile_wf sanitize_errors_wf finish_wf,
     metis prepare_episode_retry_wf snd_conv)

lemma attempt_reachable_wf: "attempt_reachable s \<Longrightarrow> attempt_wf s"
  by (induction rule: attempt_reachable.induct)
    (auto simp: new_snapshot_wf new_independent_wf dest: attempt_step_wf)


subsection \<open>Properties of attempts\<close>

text \<open>
  C9: In every state an attempt can reach (from a fresh snapshot, by progress updates, resumes,
  scoped retries, reconciliations, error sanitising and finishing, in any order) an entry that is marked
  as already present or that carries published paths or hashes is verified; an attempt whose outcome is
  \<open>Verified\<close> has only verified entries; a finished attempt has no entry left downloading; and a grouped
  attempt that is reported as failed has no verified entry.
\<close>

theorem attempt_invariant:
  assumes "attempt_reachable s"
  shows "(\<forall>e\<in>set (sn_entries s). ae_already_present e \<or> ae_media_paths e \<noteq> [] \<or> ae_media_hashes e \<noteq> []
            \<longrightarrow> ae_state e = Verified)
    \<and> (sn_outcome s = Some OVerified \<longrightarrow> (\<forall>e\<in>set (sn_entries s). ae_state e = Verified))
    \<and> (sn_outcome s \<noteq> None \<longrightarrow> (\<forall>e\<in>set (sn_entries s). ae_state e \<noteq> Downloading))
    \<and> (sn_independent_entries s \<and> sn_outcome s = Some OFailed \<longrightarrow> verified_entries s = 0)"
  using attempt_reachable_wf[OF assms]
  by (auto simp: attempt_wf_def list_all_iff entry_wf_def verified_entries_def count_state_def
      count_where_0_iff)

theorem attempt_invariant_witness:
  "\<exists>s. s = finish OVerified (apply_update (UVerified [''a.mp4''] [(''a.mp4'', ''h'')]) 1
              (new_independent ''S'' [(1, ''A'', Some ''m1''), (2, ''B'', Some ''m2'')] 0))
    \<and> sn_outcome s = Some OPartiallyCompleted \<and> verified_entries s = 1
    \<and> (\<forall>e\<in>set (sn_entries s). ae_media_paths e \<noteq> [] \<longrightarrow> ae_state e = Verified)"
proof -
  define s where "s = finish OVerified (apply_update (UVerified [''a.mp4''] [(''a.mp4'', ''h'')]) 1
              (new_independent ''S'' [(1, ''A'', Some ''m1''), (2, ''B'', Some ''m2'')] 0))"
  have "attempt_reachable s"
    unfolding s_def by (intro reach_step[OF reach_step[OF start_grouped step_update] step_finish])
  moreover have "sn_outcome s = Some OPartiallyCompleted \<and> verified_entries s = 1"
    unfolding s_def by code_simp
  ultimately show ?thesis using attempt_invariant[of s] s_def by blast
qed

text \<open>
  C34: A progress update never loses information about an entry: index, title and stable media id stay,
  the number of attempts never falls, a verified entry stays verified, and entries with another index
  are left alone; once the attempt has an outcome, no update changes it at all.
\<close>

theorem progress_update_transition:
  assumes "k < length (sn_entries s)"
  shows "length (sn_entries (apply_update u i s)) = length (sn_entries s)
    \<and> (let e = sn_entries s ! k; e' = sn_entries (apply_update u i s) ! k in
         ae_index e' = ae_index e \<and> ae_title e' = ae_title e
         \<and> ae_stable_media_id e' = ae_stable_media_id e
         \<and> ae_attempts e \<le> ae_attempts e'
         \<and> (ae_state e = Verified \<longrightarrow> ae_state e' = Verified)
         \<and> (ae_index e \<noteq> i \<longrightarrow> e' = e)
         \<and> (sn_outcome s \<noteq> None \<longrightarrow> apply_update u i s = s))"
proof (cases "sn_outcome s = None")
  case True
  with assms show ?thesis
    by (simp add: apply_update_entries update_where_nth entry_update_keeps Let_def)
qed (simp add: apply_update_closed)

theorem progress_update_transition_witness:
  "let s = apply_update (UVerified [] []) 2 (new_independent ''S'' [(1, ''A'', None), (2, ''B'', None)] 0);
       s' = apply_update (Failure ''x'' 3) 2 s
   in ae_state (sn_entries s' ! 1) = Verified \<and> sn_entries s' ! 0 = sn_entries s ! 0"
proof -
  define s where "s = apply_update (UVerified [] []) 2
    (new_independent ''S'' [(1, ''A'', None), (2, ''B'', None)] 0)"
  have len: "0 < length (sn_entries s)" "1 < length (sn_entries s)"
    and old: "ae_index (sn_entries s ! 0) \<noteq> 2" "ae_state (sn_entries s ! 1) = Verified"
    unfolding s_def by code_simp+
  show ?thesis
    unfolding Let_def s_def[symmetric]
    using progress_update_transition[OF len(1), of "Failure ''x'' 3" 2]
      progress_update_transition[OF len(2), of "Failure ''x'' 3" 2] old
    by (simp add: Let_def del: apply_update.simps)
qed




lemma update_where_filter_neutral:
  assumes "\<And>x. P x \<Longrightarrow> \<not> Q x \<and> \<not> Q (f x)"
  shows "filter Q (update_where P f xs) = filter Q xs"
  using assms by (induction xs) (auto simp: update_where_def)

lemma update_first_filter_neutral:
  assumes "\<And>x. x \<in> set xs \<Longrightarrow> P x \<Longrightarrow> x = y \<Longrightarrow> \<not> Q x \<and> \<not> Q (f x)" "find P xs = Some y"
  shows "filter Q (update_first P f xs) = filter Q xs"
  using assms by (induction xs) (auto split: if_splits)

lemma map_update_first: "(\<And>x. g (f x) = g x) \<Longrightarrow> map g (update_first P f xs) = map g xs"
  by (induction xs) auto

lemma find_update_first: "find P xs = Some y \<Longrightarrow> P (f y) \<Longrightarrow> find P (update_first P f xs) = Some (f y)"
  by (induction xs) (auto split: if_splits)

text \<open>
  Preparing a grouped attempt for a resume (or a retry of its failed entries) reopens it, resets to
  pending exactly the entries that are to be run again (all unfinished ones, or only the failed ones, whose
  indices become the retry scope), drops the outputs of those entries, and keeps every verified and
  downloaded entry exactly as it was; the skipped counter agrees with the entries afterwards.
\<close>

lemma prepare_resume_resets:
  assumes "sn_independent_entries s"
  shows "let s' = prepare_resume retry_failed s;
             reset = (\<lambda>e. if retry_failed then ae_state e = Failed
                          else ae_state e \<in> {Pending, Failed, Interrupted, Downloading}) in
      sn_outcome s' = None
    \<and> length (sn_entries s') = length (sn_entries s)
    \<and> (\<forall>k < length (sn_entries s).
         if reset (sn_entries s ! k)
         then ae_state (sn_entries s' ! k) = Pending \<and> ae_media_paths (sn_entries s' ! k) = []
              \<and> ae_attempts (sn_entries s' ! k) = ae_attempts (sn_entries s ! k)
              \<and> ae_index (sn_entries s' ! k) = ae_index (sn_entries s ! k)
         else sn_entries s' ! k = sn_entries s ! k)
    \<and> filter (\<lambda>e. ae_state e \<in> {Verified, Downloaded}) (sn_entries s')
        = filter (\<lambda>e. ae_state e \<in> {Verified, Downloaded}) (sn_entries s)
    \<and> sn_retry_indices s' = (if retry_failed
        then Some (map ae_index (filter (\<lambda>e. ae_state e = Failed) (sn_entries s))) else None)
    \<and> skipped_consistent s'"
  using assms
  by (auto simp: prepare_resume_def Let_def update_where_nth clear_outputs_def
      intro!: update_where_filter_neutral split: if_splits)

lemma prepare_resume_resets_witness:
  "let s = finish OFailed (apply_update UFailed 2 (apply_update (UVerified [''a''] []) 1
             (new_independent ''S'' [(1, ''A'', None), (2, ''B'', None), (3, ''C'', None)] 0)));
       s' = prepare_resume True s
   in sn_retry_indices s' = Some [2] \<and> sn_outcome s' = None
      \<and> ae_state (sn_entries s' ! 1) = Pending \<and> sn_entries s' ! 0 = sn_entries s ! 0"
proof -
  define s where "s = finish OFailed (apply_update UFailed 2 (apply_update (UVerified [''a''] []) 1
             (new_independent ''S'' [(1, ''A'', None), (2, ''B'', None), (3, ''C'', None)] 0)))"
  have g: "sn_independent_entries s" unfolding s_def by code_simp
  have f: "map ae_index (filter (\<lambda>e. ae_state e = Failed) (sn_entries s)) = [2]"
    "length (sn_entries s) = 3" "ae_state (sn_entries s ! 0) = Verified"
    "ae_state (sn_entries s ! 1) = Failed"
    unfolding s_def by code_simp+
  show ?thesis
    unfolding Let_def s_def[symmetric]
    using prepare_resume_resets[OF g, of True] f
    by (simp add: Let_def)
qed

text \<open>
  A scoped retry of one episode is accepted exactly when the attempt is grouped and the first entry
  with that index is pending, failed or interrupted. Then only that entry changes: it becomes pending, loses
  its error and outputs and keeps its number of attempts, every other entry and every verified or downloaded
  one is untouched, and the retry scope is that index alone. A refused retry changes nothing.
\<close>

lemma prepare_episode_retry_scoped:
  "prepare_episode_retry i s = (ok, s') \<Longrightarrow>
     (ok \<longleftrightarrow> sn_independent_entries s \<and>
        (\<exists>e. find (\<lambda>e. ae_index e = i) (sn_entries s) = Some e
             \<and> ae_state e \<in> {Pending, Failed, Interrupted}))
   \<and> (\<not> ok \<longrightarrow> s' = s)
   \<and> (ok \<longrightarrow> sn_outcome s' = None \<and> sn_retry_indices s' = Some [i]
        \<and> filter (\<lambda>e. ae_index e \<noteq> i) (sn_entries s') = filter (\<lambda>e. ae_index e \<noteq> i) (sn_entries s)
        \<and> filter (\<lambda>e. ae_state e \<in> {Verified, Downloaded, Downloading}) (sn_entries s')
            = filter (\<lambda>e. ae_state e \<in> {Verified, Downloaded, Downloading}) (sn_entries s)
        \<and> map ae_attempts (sn_entries s') = map ae_attempts (sn_entries s)
        \<and> (\<exists>e. find (\<lambda>e. ae_index e = i) (sn_entries s') = Some e
             \<and> ae_state e = Pending \<and> ae_error e = None \<and> ae_media_paths e = []))"
proof -
  assume r: "prepare_episode_retry i s = (ok, s')"
  show ?thesis
  proof (cases "sn_independent_entries s \<and> (\<exists>e. find (\<lambda>e. ae_index e = i) (sn_entries s) = Some e
             \<and> ae_state e \<in> {Pending, Failed, Interrupted})")
    case False
    then have "ok = False \<and> s' = s"
      using r by (auto simp: prepare_episode_retry_def split: option.splits if_splits)
    with False show ?thesis by blast
  next
    case True
    then obtain e where g: "sn_independent_entries s" and e: "find (\<lambda>e. ae_index e = i) (sn_entries s) = Some e"
      "ae_state e \<in> {Pending, Failed, Interrupted}" by blast
    define f where "f = (\<lambda>e. clear_outputs (e\<lparr>ae_state := Pending, ae_stage := [],
                        ae_already_present := False, ae_error := None\<rparr>))"
    have s': "s' = refresh_independent_skipped_entries (s\<lparr>sn_outcome := None, sn_retry_indices := Some [i],
               sn_entries := update_first (\<lambda>e. ae_index e = i) f (sn_entries s)\<rparr>)" and ok: ok
      using r g e by (auto simp: prepare_episode_retry_def f_def)
    have f: "ae_index (f x) = ae_index x" "ae_state (f x) = Pending" "ae_attempts (f x) = ae_attempts x"
      "ae_error (f x) = None" "ae_media_paths (f x) = []" for x
      by (simp_all add: f_def clear_outputs_def)
    have ei: "ae_index e = i" using e(1) by (auto simp: find_Some_iff)
    have n1: "filter (\<lambda>e. ae_index e \<noteq> i) (update_first (\<lambda>e. ae_index e = i) f (sn_entries s))
        = filter (\<lambda>e. ae_index e \<noteq> i) (sn_entries s)"
      by (rule update_first_filter_neutral[OF _ e(1)]) (simp add: f)
    have n2: "filter (\<lambda>e. ae_state e \<in> {Verified, Downloaded, Downloading})
          (update_first (\<lambda>e. ae_index e = i) f (sn_entries s))
        = filter (\<lambda>e. ae_state e \<in> {Verified, Downloaded, Downloading}) (sn_entries s)"
      by (rule update_first_filter_neutral[OF _ e(1)]) (use e(2) in \<open>auto simp: f\<close>)
    show ?thesis
      using True ok s' find_update_first[OF e(1), of f] ei
      by (simp add: n1 n2[simplified] f map_update_first)
  qed
qed

lemma prepare_episode_retry_scoped_witness:
  "let s = finish OFailed (apply_update UFailed 2 (apply_update (UVerified [''a''] []) 1
             (new_independent ''S'' [(1, ''A'', None), (2, ''B'', None), (3, ''C'', None)] 0)))
   in sn_retry_indices (snd (prepare_episode_retry 2 s)) = Some [2]
      \<and> \<not> fst (prepare_episode_retry 1 s) \<and> snd (prepare_episode_retry 1 s) = s"
proof -
  define s where "s = finish OFailed (apply_update UFailed 2 (apply_update (UVerified [''a''] []) 1
             (new_independent ''S'' [(1, ''A'', None), (2, ''B'', None), (3, ''C'', None)] 0)))"
  have f: "fst (prepare_episode_retry 2 s)" "\<not> fst (prepare_episode_retry 1 s)"
    unfolding s_def by code_simp+
  show ?thesis
    unfolding Let_def s_def[symmetric]
    using prepare_episode_retry_scoped[of 2 s, OF prod.collapse[symmetric]]
      prepare_episode_retry_scoped[of 1 s, OF prod.collapse[symmetric]] f by blast
qed

lemma reconcile_entries_identity:
  "map (\<lambda>e. (ae_index e, ae_title e, ae_stable_media_id e)) (reconcile_entries pids rids q inventory) = inventory"
proof -
  have "(ae_index e, ae_title e, ae_stable_media_id e) = identity"
    if "e = reconciled_entry pids rids identity previous" for e pids rids identity previous
    using that by (cases identity; cases previous) (auto simp: reconciled_entry_def pending_entry_def Let_def)
  note this[OF refl, simp]
  show ?thesis
    by (induction pids rids q inventory rule: reconcile_entries.induct) (auto simp: fun_upd_def split: list.splits)
qed

definition inherits_receipt :: "string list \<Rightarrow> attempt_entry \<Rightarrow> attempt_entry \<Rightarrow> bool" where
  "inherits_receipt pids p e =
     (ae_state p = Verified \<and> \<not> ae_requires_redownload p \<and> ae_stable_media_id e \<in> set pids
      \<and> ae_media_paths e = ae_media_paths p \<and> ae_media_hashes e = ae_media_hashes p
      \<and> ae_already_present e = ae_already_present p)"

lemma reconciled_entry_verified:
  "ae_state (reconciled_entry pids rids identity previous) = Verified
    \<Longrightarrow> \<exists>p. previous = Some p \<and> inherits_receipt pids p (reconciled_entry pids rids identity previous)"
  by (cases identity; cases previous)
    (auto simp: reconciled_entry_def pending_entry_def Let_def inherits_receipt_def split: if_splits)

lemma reconciled_entry_id: "ae_stable_media_id (reconciled_entry pids rids (i, t, m) previous) = m"
  by (cases previous) (auto simp: reconciled_entry_def pending_entry_def Let_def)

lemma reconcile_entries_receipts:
  "e \<in> set (reconcile_entries pids rids q inventory) \<Longrightarrow> ae_state e = Verified
    \<Longrightarrow> \<exists>p\<in>set (q (ae_stable_media_id e)). inherits_receipt pids p e"
proof (induction pids rids q inventory rule: reconcile_entries.induct)
  case (2 pids rids q index title media_id rest)
  show ?case
  proof (cases "q media_id")
    case Nil
    with 2 show ?thesis by (auto dest: reconciled_entry_verified)
  next
    case (Cons p ps)
    have "set ((q(media_id := ps)) m) \<subseteq> set (q m)" for m using Cons by auto
    with 2 Cons show ?thesis
      by (auto dest!: reconciled_entry_verified simp: reconciled_entry_id fun_upd_def)
  qed
qed simp

lemma reconcile_entries_count:
  "count_where (\<lambda>e. ae_stable_media_id e = m \<and> ae_state e = Verified) (reconcile_entries pids rids q inventory)
    \<le> count_where (\<lambda>e. ae_state e = Verified) (q m)"
proof (induction pids rids q inventory rule: reconcile_entries.induct)
  case (2 pids rids q index title media_id rest)
  show ?case
  proof (cases "q media_id")
    case Nil
    with 2 show ?thesis
      using reconciled_entry_verified[of pids rids "(index, title, media_id)" None]
      by (auto simp: count_where_def)
  next
    case (Cons p ps)
    have "count_where (\<lambda>e. ae_state e = Verified) ((q(media_id := ps)) m)
        + (if m = media_id \<and> ae_state p = Verified then 1 else 0) \<le> count_where (\<lambda>e. ae_state e = Verified) (q m)"
      using Cons by (auto simp: count_where_def)
    with 2(2)[OF Cons] Cons show ?thesis
      using reconciled_entry_verified[of pids rids "(index, title, media_id)" "Some p"]
      by (auto simp: count_where_def reconciled_entry_id inherits_receipt_def fun_upd_def)
  qed
qed (simp add: count_where_def)

text \<open>
  C35: After reconciling with an approved inventory the entries are those of the inventory, in its order; an
  entry is verified only when it takes over the receipt of a previously verified entry with the same
  non-empty media id that needed no new download and was declared compatible, and then has that entry's
  outputs; and per media id no more entries are verified than before, so that no receipt is used twice.
\<close>

theorem reconcile_receipts:
  "let s' = reconcile_independent_inventory title profile inventory pids rids s in
     map (\<lambda>e. (ae_index e, ae_title e, ae_stable_media_id e)) (sn_entries s') = inventory
   \<and> (\<forall>e\<in>set (sn_entries s'). ae_state e = Verified \<longrightarrow>
        ae_stable_media_id e \<noteq> []
        \<and> (\<exists>p\<in>set (sn_entries s). ae_stable_media_id p = ae_stable_media_id e \<and> inherits_receipt pids p e))
   \<and> (\<forall>m. count_where (\<lambda>e. ae_stable_media_id e = m \<and> ae_state e = Verified) (sn_entries s')
           \<le> count_where (\<lambda>e. ae_stable_media_id e = m \<and> ae_state e = Verified) (sn_entries s))
   \<and> skipped_consistent s' \<and> sn_outcome s' = None"
proof -
  let ?es = "reconcile_entries pids rids (previous_by_id (sn_entries s)) inventory"
  have V: "ae_stable_media_id e \<noteq> []
        \<and> (\<exists>p\<in>set (sn_entries s). ae_stable_media_id p = ae_stable_media_id e \<and> inherits_receipt pids p e)"
    if "e \<in> set ?es" "ae_state e = Verified" for e
    using reconcile_entries_receipts[OF that] by (auto simp: previous_by_id_def split: if_splits)
  have N: "count_where (\<lambda>e. ae_state e = Verified) (previous_by_id (sn_entries s) m)
      \<le> count_where (\<lambda>e. ae_stable_media_id e = m \<and> ae_state e = Verified) (sn_entries s)" for m
    by (simp add: previous_by_id_def count_where_def conj_commute)
  have C: "count_where (\<lambda>e. ae_stable_media_id e = m \<and> ae_state e = Verified) ?es
      \<le> count_where (\<lambda>e. ae_stable_media_id e = m \<and> ae_state e = Verified) (sn_entries s)" for m
    by (rule order_trans[OF reconcile_entries_count N])
  show ?thesis
    using V C
    by (simp add: reconcile_independent_inventory_def Let_def reconcile_entries_identity skipped_consistent_def)
qed

theorem reconcile_receipts_witness:
  "let s = apply_update (UVerified [''a''] []) 1 (new_independent ''S'' [(1, ''A'', Some ''m'')] 0);
       s' = reconcile_independent_inventory ''T'' None [(7, ''A'', ''m''), (8, ''A2'', ''m'')] [''m''] [] s
   in map ae_state (sn_entries s') = [Verified, Pending] \<and> map ae_index (sn_entries s') = [7, 8]
      \<and> (\<exists>p\<in>set (sn_entries s). inherits_receipt [''m''] p (sn_entries s' ! 0))"
proof -
  define s where "s = apply_update (UVerified [''a''] []) 1 (new_independent ''S'' [(1, ''A'', Some ''m'')] 0)"
  define s' where "s' = reconcile_independent_inventory ''T'' None [(7, ''A'', ''m''), (8, ''A2'', ''m'')] [''m''] [] s"
  have m: "map ae_state (sn_entries s') = [Verified, Pending]" "map ae_index (sn_entries s') = [7, 8]"
    unfolding s_def s'_def by code_simp+
  then have e: "sn_entries s' ! 0 \<in> set (sn_entries s')" "ae_state (sn_entries s' ! 0) = Verified"
    by (auto simp: map_eq_Cons_conv)
  show ?thesis
    unfolding Let_def s_def[symmetric] s'_def[symmetric]
    using reconcile_receipts[of "''T''" None "[(7, ''A'', ''m''), (8, ''A2'', ''m'')]" "[''m'']" "[]" s] e m
    by (auto simp: Let_def s'_def[symmetric])
qed


end
