(* ===== verification/AttemptSummary.thy ===== *)
theory AttemptSummary
  imports Attempt
begin

section \<open>The summary of an attempt (\<open>bilibili_attempt.rs\<close>)\<close>

text \<open>
  The message the bot shows for an attempt: counters, the outcome, and the failed and interrupted
  episodes, in at most 1800 bytes. \<open>compact_ranges\<close> works on the sorted 32-bit indices; the strings are
  UTF-8 byte lists.
\<close>

definition SUMMARY_MAX_BYTES :: nat where "SUMMARY_MAX_BYTES = 1800"
definition MAX_DETAIL_RANGES :: nat where "MAX_DETAIL_RANGES = 8"
definition MAX_DETAIL_ENTRIES :: nat where "MAX_DETAIL_ENTRIES = 8"

subsection \<open>Ranges of episode indices\<close>

definition format_range :: "u32 \<Rightarrow> u32 \<Rightarrow> string" where
  "format_range start last_index =
     (if start = last_index then dec_digits (unat start)
      else dec_digits (unat start) @ ''-'' @ dec_digits (unat last_index))"

fun ranges_from :: "u32 \<Rightarrow> u32 \<Rightarrow> u32 list \<Rightarrow> (u32 \<times> u32) list" where
  \<comment> \<open>the loop over the sorted indices, with the open range \<open>start..=end\<close>\<close>
  "ranges_from start e [] = [(start, e)]"
| "ranges_from start e (i # is) =
     (if checked_add e 1 = Some i then ranges_from start i is
      else (start, e) # ranges_from i i is)"

definition index_ranges :: "u32 list \<Rightarrow> (u32 \<times> u32) list" where
  "index_ranges indices =
     (case remdups_adj (sort indices) of [] \<Rightarrow> [] | start # rest \<Rightarrow> ranges_from start start rest)"

definition compact_ranges :: "u32 list \<Rightarrow> string list" where
  "compact_ranges indices = map (\<lambda>(start, e). format_range start e) (index_ranges indices)"

subsection \<open>One line of text\<close>

fun words_from :: "string \<Rightarrow> string list \<Rightarrow> string list" where
  "words_from w [] = (if w = [] then [] else [w])"
| "words_from w (c # cs) =
     (if is_whitespace c then (if w = [] then words_from [] cs else w # words_from [] cs)
      else words_from (w @ c) cs)"

definition split_whitespace :: "string \<Rightarrow> string list" where
  "split_whitespace s = words_from [] (chars s)"

definition single_line :: "string \<Rightarrow> string" where
  "single_line value =
     (let line = concat (map (\<lambda>c. if is_control c then '' '' else c) (chars value)) in
      join '' '' (map (\<lambda>word. if str_contains word ''://'' \<or> starts_with word ''www.''
                              then ''[link]'' else word) (split_whitespace line)))"

definition truncate_text :: "string \<Rightarrow> nat \<Rightarrow> string" where
  "truncate_text value max_bytes =
     (if length value \<le> max_bytes then value
      else take (floor_char_boundary value (max_bytes - 3)) value @ ''...'')"

definition append_bounded :: "string \<Rightarrow> string \<Rightarrow> string" where
  "append_bounded output addition =
     (if length output + length addition \<le> SUMMARY_MAX_BYTES then output @ addition
      else let remaining = SUMMARY_MAX_BYTES - length output in
        if remaining \<le> 3 then output
        else let e = floor_char_boundary addition (remaining - 3) in
          if e > 0 then output @ take e addition @ ''...'' else output)"

subsection \<open>The summary\<close>

definition summary_counts :: "attempt_snapshot \<Rightarrow> string" where
  "summary_counts s =
     (let title = truncate_text (single_line (sn_title s)) 240;
          num = (\<lambda>n. dec_digits n);
          cnt = (\<lambda>st. num (count_state st s))
      in if sn_independent_entries s
         then let verified = count_state Verified s;
                  completed = count_where (\<lambda>e. ae_state e = Verified \<and> \<not> ae_already_present e) (sn_entries s)
              in title @ ''\<newline>Episodes: '' @ num (total_entries s)
                 @ ''\<newline>Completed: '' @ num completed @ ''; already present: '' @ num (sn_skipped_entries s)
                 @ ''; remaining: '' @ num (total_entries s - verified)
                 @ ''\<newline>Failed: '' @ cnt Failed
                 @ ''; in progress: '' @ num (count_state Downloading s + downloaded_entries s)
                 @ ''; waiting: '' @ cnt Pending @ ''; paused: '' @ cnt Interrupted
                 @ (if downloaded_entries s > 0
                    then ''\<newline>Awaiting merge, publication or verification: '' @ num (downloaded_entries s)
                    else [])
         else title @ ''\<newline>Selected: '' @ num (total_entries s)
              @ ''; skipped/already present: '' @ num (sn_skipped_entries s)
              @ ''\<newline>Downloaded pending mux/publication/verification: '' @ num (downloaded_entries s)
              @ ''; verified: '' @ cnt Verified
              @ ''\<newline>Failed: '' @ cnt Failed @ ''; not started: '' @ cnt Pending
              @ ''; interrupted: '' @ cnt Interrupted @ ''; running: '' @ cnt Downloading)"

fun outcome_label :: "attempt_outcome \<Rightarrow> string" where
  "outcome_label OFailed = ''failed''"
| "outcome_label OPartiallyCompleted = ''partially completed''"
| "outcome_label OCancelled = ''cancelled''"
| "outcome_label OInterrupted = ''interrupted''"
| "outcome_label OVerified = ''verified''"

definition entry_detail :: "attempt_entry \<Rightarrow> string" where
  "entry_detail e =
     ''\<newline>Episode '' @ dec_digits (unat (ae_index e)) @ '': '' @ single_line (ae_title e)
     @ (if ae_stage e = [] then []
        else '' (last reported stage: '' @ single_line (ae_stage e) @ '')'')
     @ (if ae_attempts e > 0 then '' (attempts: '' @ dec_digits (ae_attempts e) @ '')'' else [])
     @ (case ae_error e of None \<Rightarrow> []
        | Some error \<Rightarrow> '' (last error: '' @ single_line (sanitize_entry_error error) @ '')'')"

definition section_header :: "string \<Rightarrow> attempt_entry list \<Rightarrow> string" where
  "section_header label entries =
     (let ranges = compact_ranges (map ae_index entries);
          shown_ranges = take MAX_DETAIL_RANGES ranges;
          omitted_ranges = length ranges - length shown_ranges
      in ''\<newline>'' @ label @ '' episodes: '' @ join '', '' shown_ranges
         @ (if omitted_ranges > 0 then '' (+'' @ dec_digits omitted_ranges @ '' ranges)'' else []))"

definition append_section :: "attempt_snapshot \<Rightarrow> entry_state \<Rightarrow> string \<Rightarrow> string" where
  "append_section s st output =
     (let entries = filter (\<lambda>e. ae_state e = st) (sn_entries s) in
      if entries = [] \<or> length output \<ge> SUMMARY_MAX_BYTES then output
      else let label = (if st = Failed then ''Failed'' else ''Interrupted'');
               output = append_bounded output (section_header label entries)
           in fold (\<lambda>e out. append_bounded out (entry_detail e)) (take MAX_DETAIL_ENTRIES entries) output)"

definition summary :: "attempt_snapshot \<Rightarrow> string" where
  "summary s =
     (let output = summary_counts s;
          output = (case sn_outcome s of None \<Rightarrow> output
                    | Some oc \<Rightarrow> output @ ''\<newline>Outcome: '' @ outcome_label oc)
      in append_section s Interrupted (append_section s Failed output))"

subsection \<open>Bounds\<close>

lemma length_append_bounded:
  "length output \<le> SUMMARY_MAX_BYTES \<Longrightarrow> length (append_bounded output addition) \<le> SUMMARY_MAX_BYTES"
proof -
  assume a: "length output \<le> SUMMARY_MAX_BYTES"
  have "floor_char_boundary addition (SUMMARY_MAX_BYTES - length output - 3)
      \<le> SUMMARY_MAX_BYTES - length output - 3" by (rule floor_char_boundary_le)
  with a show ?thesis by (auto simp: append_bounded_def Let_def)
qed

lemma append_bounded_prefix: "prefix output (append_bounded output addition)"
  by (auto simp: append_bounded_def Let_def)

lemma length_truncate_text: "length (truncate_text value m) \<le> max m 3"
  using floor_char_boundary_le[of "value" "m - 3"] by (auto simp: truncate_text_def)

lemma length_append_section:
  assumes "length output \<le> SUMMARY_MAX_BYTES"
  shows "length (append_section s st output) \<le> SUMMARY_MAX_BYTES"
proof -
  have "length (fold (\<lambda>e out. append_bounded out (entry_detail e)) es out) \<le> SUMMARY_MAX_BYTES"
    if "length out \<le> SUMMARY_MAX_BYTES" for es out
    using that by (induction es arbitrary: out) (auto intro: length_append_bounded)
  with assms show ?thesis
    by (simp add: append_section_def Let_def length_append_bounded)
qed

lemma fold_append_bounded_prefix: "prefix out (fold (\<lambda>e out. append_bounded out (g e)) es out)"
  by (induction es arbitrary: out) (auto intro: prefix_order.order_trans[OF append_bounded_prefix])

lemma append_section_prefix: "prefix output (append_section s st output)"
  by (auto simp: append_section_def Let_def
      intro: prefix_order.order_trans[OF append_bounded_prefix fold_append_bounded_prefix])

lemma dec20: "n < 2 ^ 64 \<Longrightarrow> length (dec_digits n) \<le> 20"
  by (rule length_dec_digits_le) auto

lemma count_state_le: "count_state st s \<le> length (sn_entries s)"
  by (simp add: count_state_def count_where_le_length)

lemma count_two_states_le:
  "st \<noteq> st' \<Longrightarrow> count_state st s + count_state st' s \<le> length (sn_entries s)"
proof -
  assume d: "st \<noteq> st'"
  have "count_where (\<lambda>e. ae_state e = st) es + count_where (\<lambda>e. ae_state e = st') es \<le> length es" for es
    using d by (induction es) (auto simp: count_where_def)
  then show ?thesis by (simp add: count_state_def)
qed

lemma length_summary_counts:
  assumes "length (sn_entries s) < 2 ^ 64" "sn_skipped_entries s < 2 ^ 64"
  shows "length (summary_counts s) \<le> 700"
proof -
  have c: "count_state st s < 2 ^ 64" for st
    using count_state_le[of st s] assms(1) by linarith
  have d: "count_where P (sn_entries s) < 2 ^ 64" for P
    using count_where_le_length[of P "sn_entries s"] assms(1) by linarith
  have e: "count_state Downloading s + count_state Downloaded s < 2 ^ 64"
    using count_two_states_le[of Downloading Downloaded s] assms(1) by simp
  have f: "length (sn_entries s) - k < 2 ^ 64" for k using assms(1) by linarith
  have t: "length (truncate_text (single_line (sn_title s)) 240) \<le> 240"
    using length_truncate_text[of "single_line (sn_title s)" 240] by simp
  note bounds = t dec20[OF c[of Failed]] dec20[OF c[of Pending]] dec20[OF c[of Interrupted]]
    dec20[OF c[of Downloading]] dec20[OF c[of Downloaded]] dec20[OF c[of Verified]]
    dec20[OF assms(1)] dec20[OF assms(2)] dec20[OF e] dec20[OF f[of "count_state Verified s"]]
    dec20[OF d[of "\<lambda>e. ae_state e = Verified \<and> \<not> ae_already_present e"]]
  show ?thesis
    using bounds unfolding summary_counts_def Let_def total_entries_def downloaded_entries_def
    by (simp split: if_splits)
qed

lemma length_outcome_label: "length (outcome_label oc) \<le> 19"
  by (cases oc) simp_all

text \<open>
  C37: The summary never exceeds 1800 bytes, whatever the titles, stages and errors are, and the counters
  and the outcome at its head are never cut: truncation only affects the episode details after them.
\<close>

theorem summary_bounded:
  assumes "length (sn_entries s) < 2 ^ 64" "sn_skipped_entries s < 2 ^ 64"
  shows "length (summary s) \<le> 1800
    \<and> prefix (summary_counts s @ (case sn_outcome s of None \<Rightarrow> []
                | Some oc \<Rightarrow> ''\<newline>Outcome: '' @ outcome_label oc)) (summary s)"
proof -
  define out where "out = (case sn_outcome s of None \<Rightarrow> summary_counts s
    | Some oc \<Rightarrow> summary_counts s @ ''\<newline>Outcome: '' @ outcome_label oc)"
  have "length out \<le> SUMMARY_MAX_BYTES"
    using length_summary_counts[OF assms] length_outcome_label[of "the (sn_outcome s)"]
    by (auto simp: out_def SUMMARY_MAX_BYTES_def split: option.splits)
  then have "length (summary s) \<le> SUMMARY_MAX_BYTES"
    unfolding summary_def Let_def out_def[symmetric] by (intro length_append_section)
  moreover have "prefix out (summary s)"
    unfolding summary_def Let_def out_def[symmetric]
    by (rule prefix_order.order_trans[OF append_section_prefix append_section_prefix])
  ultimately show ?thesis
    by (auto simp: SUMMARY_MAX_BYTES_def out_def split: option.splits)
qed

theorem summary_bounded_witness:
  "\<exists>s. length (sn_entries s) = 1 \<and> length (summary s) \<le> 1800 \<and> prefix (summary_counts s) (summary s)"
proof -
  define s where "s = finish OFailed (apply_update UFailed 1 (new_independent ''S'' [(1, ''A'', None)] 0))"
  have l: "length (sn_entries s) = 1" and k: "sn_skipped_entries s = 0" unfolding s_def by code_simp+
  have "length (sn_entries s) < 2 ^ 64" "sn_skipped_entries s < 2 ^ 64" using l k by simp_all
  from summary_bounded[OF this] l show ?thesis
    by (auto dest: append_prefixD)
qed

subsection \<open>Ranges\<close>

definition range_indices :: "(u32 \<times> u32) list \<Rightarrow> u32 set" where
  "range_indices rs = (\<Union>(a, b)\<in>set rs. {a..b})"

fun ranges_separated :: "(u32 \<times> u32) list \<Rightarrow> bool" where
  \<comment> \<open>ascending, and with at least one missing index between neighbours\<close>
  "ranges_separated [] = True"
| "ranges_separated [(a, b)] = (a \<le> b)"
| "ranges_separated ((a, b) # (c, d) # rs) =
     (a \<le> b \<and> unat b + 1 < unat c \<and> ranges_separated ((c, d) # rs))"

lemma checked_add_one:
  "checked_add (e :: u32) 1 = Some i \<longleftrightarrow> unat i = unat e + 1"
proof
  assume "checked_add e 1 = Some i"
  then show "unat i = unat e + 1"
    by (auto simp: checked_add_def unat_word_ariths split: if_splits)
next
  assume a: "unat i = unat e + 1"
  have "unat i < 2 ^ 32" using unsigned_less[of i] by simp
  with a show "checked_add e 1 = Some i"
    by (auto simp: checked_add_def word_unat_eq_iff unat_word_ariths)
qed

lemma hd_ranges_from: "\<exists>b rs. ranges_from start e is = (start, b) # rs"
  by (induction start e "is" rule: ranges_from.induct) auto

lemma atLeastAtMost_Suc:
  assumes "unat (i :: u32) = unat (e :: u32) + 1" "start \<le> e"
  shows "{start..e} \<union> {i} = {start..i}"
proof -
  have le: "x \<le> i \<longleftrightarrow> x \<le> e \<or> x = i" for x
    using assms(1) by (auto simp: word_le_nat_alt word_unat_eq_iff)
  have "start \<le> i" using assms by (auto simp: word_le_nat_alt)
  moreover have "\<not> i \<le> e" using assms(1) by (simp add: word_le_nat_alt)
  ultimately show ?thesis using assms(2) by (auto simp: le)
qed

lemma ranges_from_spec:
  assumes "sorted (e # is)" "distinct (e # is)" "start \<le> e"
  shows "range_indices (ranges_from start e is) = {start..e} \<union> set is
    \<and> ranges_separated (ranges_from start e is)"
  using assms
proof (induction start e "is" rule: ranges_from.induct)
  case (1 start e)
  then show ?case by (simp add: range_indices_def)
next
  case (2 start e i "is")
  have lt: "e < i" using "2.prems" by auto
  show ?case
  proof (cases "checked_add e 1 = Some i")
    case True
    then have u: "unat i = unat e + 1" by (simp add: checked_add_one)
    have "start \<le> i" using lt "2.prems"(3) by simp
    then have IH: "range_indices (ranges_from start i is) = {start..i} \<union> set is"
      "ranges_separated (ranges_from start i is)"
      using "2.IH"(1)[OF True] "2.prems" by auto
    show ?thesis
      using IH True atLeastAtMost_Suc[OF u "2.prems"(3)] by auto
  next
    case False
    have IH: "range_indices (ranges_from i i is) = {i..i} \<union> set is" "ranges_separated (ranges_from i i is)"
      using "2.IH"(2)[OF False] "2.prems" by auto
    have "unat e + 1 < unat i"
      using lt False by (auto simp: checked_add_one word_less_nat_alt)
    moreover obtain b rs where r: "ranges_from i i is = (i, b) # rs" using hd_ranges_from by blast
    ultimately show ?thesis
      using IH False "2.prems"(3) by (auto simp: range_indices_def)
  qed
qed

lemma distinct_remdups_adj_sorted: "sorted xs \<Longrightarrow> distinct (remdups_adj xs)"
  by (induction xs rule: remdups_adj.induct) (auto simp: less_le)

text \<open>
  The compact ranges of a list of indices denote exactly these indices (duplicates and order do not
  matter), in ascending order, and are maximal: between two neighbours at least one index is missing. The
  highest 32-bit index is handled without an overflow.
\<close>

lemma index_ranges_exact:
  "range_indices (index_ranges indices) = set indices \<and> ranges_separated (index_ranges indices)"
proof (cases "remdups_adj (sort indices)")
  case Nil
  then have "indices = []" by (metis remdups_adj_Nil_iff sort_key_simps(1) set_sort set_empty)
  with Nil show ?thesis by (simp add: index_ranges_def range_indices_def)
next
  case (Cons start rest)
  have s: "sorted (start # rest)" "distinct (start # rest)" "set (start # rest) = set indices"
    using Cons[symmetric] by (simp_all add: sorted_remdups_adj distinct_remdups_adj_sorted)
  show ?thesis
    using ranges_from_spec[OF s(1,2) order_refl] s(3) Cons by (auto simp: index_ranges_def)
qed


subsection \<open>No links\<close>

definition link_free :: "string \<Rightarrow> bool" where
  "link_free s = (\<not> str_contains s ''://'')"

lemma link_free_no_slash: "CHR ''/'' \<notin> set s \<Longrightarrow> link_free s"
  by (auto simp: link_free_def str_contains_iff)

lemma link_free_append:
  assumes "link_free a" "link_free b" "CHR ''/'' \<noteq> hd (b @ '' '') \<or> last (CHR '' '' # a) \<notin> {CHR '':'', CHR ''/''}"
  shows "link_free (a @ b)"
proof (rule ccontr)
  define p where "p = ''://''"
  assume "\<not> link_free (a @ b)"
  then obtain u v where uv: "a @ b = u @ p @ v"
    by (auto simp: link_free_def str_contains_iff p_def)
  consider "length u + length p \<le> length a" | "length a \<le> length u"
    | "length u < length a" "length a < length u + length p" by linarith
  then show False
  proof cases
    case 1
    from occurrence_position[OF uv 1] assms(1) show False
      by (auto simp: link_free_def str_contains_iff p_def)
  next
    case 2
    from append_position[OF uv 2] assms(2) show False
      by (auto simp: link_free_def str_contains_iff p_def)
  next
    case 3
    define k where "k = length a - length u"
    have k: "k = 1 \<or> k = 2" "length a = length u + k" using 3 by (auto simp: k_def p_def)
    have "(a @ b) ! length a = p ! k" using k(1) unfolding uv k(2) by (auto simp: p_def nth_append)
    moreover have "b \<noteq> []" using uv k by (auto simp: p_def dest: arg_cong[of _ _ length])
    ultimately have "hd (b @ '' '') = CHR ''/''" using k(1) by (auto simp: nth_append hd_conv_nth p_def)
    moreover have "(a @ b) ! (length a - 1) = p ! (k - 1)"
      using k(1) unfolding uv k(2) by (auto simp: p_def nth_append)
    then have "last (CHR '' '' # a) \<in> {CHR '':'', CHR ''/''}"
      using k 3(1) by (auto simp: nth_append last_conv_nth p_def split: if_splits)
    ultimately show False using assms(3) by simp
  qed
qed

lemma link_free_take: "link_free s \<Longrightarrow> link_free (take n s)"
  by (metis append_take_drop_id link_free_def str_contains_appendI1)

lemma dec_digits_no_slash: "CHR ''/'' \<notin> set (dec_digits n)"
proof (induction n rule: dec_digits.induct)
  case (1 n)
  have d: "CHR ''/'' \<noteq> char_of (48 + k)" if "k < 10" for k :: nat
  proof
    assume "CHR ''/'' = char_of (48 + k)"
    then have "(of_char (CHR ''/'') :: nat) = of_char (char_of (48 + k))" by (rule arg_cong)
    with that show False by simp
  qed
  show ?case by (subst dec_digits.simps) (use 1 d in auto)
qed


lemma words_from_no_blank:
  assumes "\<And>c. c \<in> set cs \<Longrightarrow> CHR '' '' \<notin> set c \<or> is_whitespace c" "CHR '' '' \<notin> set w"
  shows "word \<in> set (words_from w cs) \<Longrightarrow> CHR '' '' \<notin> set word"
  using assms by (induction w cs rule: words_from.induct) (auto split: if_splits)

lemma link_free_single_line: "link_free (single_line value)"
proof (rule ccontr)
  define line where "line = concat (map (\<lambda>c. if is_control c then '' '' else c) (chars value))"
  define words where "words = map (\<lambda>word. if str_contains word ''://'' \<or> starts_with word ''www.''
                              then ''[link]'' else word) (split_whitespace line)"
  have sl: "single_line value = join '' '' words"
    by (simp add: single_line_def Let_def line_def words_def)
  assume "\<not> link_free (single_line value)"
  then obtain u v where "join '' '' words = u @ ''://'' @ v"
    unfolding sl link_free_def by (auto simp: str_contains_iff)
  from join_occurrence[OF this] obtain word where w: "word \<in> set words" "str_contains word ''://''"
    unfolding str_contains_iff by fastforce
  moreover have "link_free word" if "word \<in> set words" for word
    using that by (auto simp: words_def link_free_def split: if_splits)
  ultimately show False by (simp add: link_free_def)
qed

lemma link_free_lits:
  "link_free []" "link_free ''...''"
  by (simp_all add: link_free_no_slash)

lemma link_free_dec [simp]: "link_free (dec_digits n)"
  by (rule link_free_no_slash) (rule dec_digits_no_slash)

lemma link_free_truncate: "link_free value \<Longrightarrow> link_free (truncate_text value m)"
  unfolding truncate_text_def by (auto intro!: link_free_append link_free_take simp: link_free_lits)

lemma link_free_append_bounded:
  assumes "link_free output" "link_free addition" "hd (addition @ '' '') \<noteq> CHR ''/''"
  shows "link_free (append_bounded output addition)"
proof -
  have "link_free (output @ take e addition @ ''...'')" if "0 < e" for e
  proof (rule link_free_append[OF assms(1)])
    show "link_free (take e addition @ ''...'')"
      by (rule link_free_append) (auto intro: link_free_take[OF assms(2)] simp: link_free_lits)
    show "CHR ''/'' \<noteq> hd ((take e addition @ ''...'') @ '' '') \<or> last (CHR '' '' # output) \<notin> {CHR '':'', CHR ''/''}"
      using assms(3) that by (cases addition; cases e) auto
  qed
  moreover have "link_free (output @ addition)"
    using link_free_append[OF assms(1,2)] assms(3) by metis
  ultimately show ?thesis using assms(1) by (simp add: append_bounded_def Let_def)
qed

text \<open>A piece of the message: it has no link, and appending it to any text makes none.\<close>

definition piece :: "string \<Rightarrow> bool" where
  "piece p = (link_free p \<and> hd (p @ '' '') \<noteq> CHR ''/'')"

lemma piece_lit: "CHR ''/'' \<notin> set p \<Longrightarrow> piece p"
  by (cases p) (auto simp: piece_def intro: link_free_no_slash)

lemma piece_dec: "piece (dec_digits n)"
  by (rule piece_lit) (rule dec_digits_no_slash)

lemma link_free_append_piece: "link_free a \<Longrightarrow> piece b \<Longrightarrow> link_free (a @ b)"
  by (rule link_free_append) (auto simp: piece_def)

lemma piece_append: "piece a \<Longrightarrow> piece b \<Longrightarrow> piece (a @ b)"
  using link_free_append_piece[of a b] by (cases a) (auto simp: piece_def)

lemma piece_if: "piece a \<Longrightarrow> piece b \<Longrightarrow> piece (if c then a else b)"
  by simp

lemma piece_text:
  assumes "piece a" "last (CHR ''/'' # a) \<notin> {CHR '':'', CHR ''/''}" "link_free b"
  shows "piece (a @ b)"
proof -
  have "a \<noteq> []" using assms(2) by auto
  then have "last (CHR '' '' # a) \<notin> {CHR '':'', CHR ''/''}" using assms(2) by simp
  with assms have "link_free (a @ b)" by (intro link_free_append) (auto simp: piece_def)
  with \<open>a \<noteq> []\<close> assms(1) show ?thesis by (cases a) (auto simp: piece_def)
qed

lemma piece_text_piece:
  assumes "piece a" "last (CHR ''/'' # a) \<notin> {CHR '':'', CHR ''/''}" "link_free b" "piece c"
  shows "piece (a @ b @ c)"
  using piece_append[OF piece_text[OF assms(1-3)] assms(4)] by simp

lemma piece_link_free: "piece p \<Longrightarrow> link_free p"
  by (simp add: piece_def)

lemma piece_entry_detail: "piece (entry_detail e)"
proof -
  have err: "piece (case ae_error e of None \<Rightarrow> []
        | Some error \<Rightarrow> '' (last error: '' @ single_line (sanitize_entry_error error) @ '')'')"
  proof (cases "ae_error e")
    case (Some error)
    have "piece ('' (last error: '' @ single_line (sanitize_entry_error error) @ '')'')"
      by (intro piece_text_piece piece_lit link_free_single_line) simp_all
    with Some show ?thesis by (simp only: option.case)
  qed (simp add: piece_lit)
  have att: "piece (if ae_attempts e > 0 then '' (attempts: '' @ dec_digits (ae_attempts e) @ '')'' else [])"
    by (intro piece_if piece_text_piece piece_lit link_free_dec) simp_all
  have stg: "piece (if ae_stage e = [] then []
        else '' (last reported stage: '' @ single_line (ae_stage e) @ '')'')"
    by (intro piece_if piece_text_piece piece_lit link_free_single_line) simp_all
  show ?thesis
    unfolding entry_detail_def
    by (intro piece_text_piece link_free_dec link_free_single_line piece_append err att stg)
      (simp_all add: piece_lit)
qed

lemma set_join: "set (join sep xs) \<subseteq> set sep \<union> (\<Union>x\<in>set xs. set x)"
  by (induction sep xs rule: join.induct) auto

lemma piece_section_header: "CHR ''/'' \<notin> set label \<Longrightarrow> piece (section_header label es)"
proof -
  assume l: "CHR ''/'' \<notin> set label"
  have "CHR ''/'' \<notin> set r" if "r \<in> set (compact_ranges is)" for r "is"
    using that by (auto simp: compact_ranges_def format_range_def dec_digits_no_slash split: if_splits)
  then have "link_free (join '', '' (take n (compact_ranges is)))" for n "is"
    by (intro link_free_no_slash) (use set_join in \<open>fastforce dest: in_set_takeD\<close>)
  note j = this
  have lf: "link_free label" using l by (rule link_free_no_slash)
  show ?thesis
    unfolding section_header_def Let_def
    by (intro piece_text_piece piece_append piece_if j lf link_free_dec) (simp_all add: piece_lit)
qed

lemma link_free_append_section: "link_free output \<Longrightarrow> link_free (append_section s st output)"
proof -
  have "link_free (fold (\<lambda>e out. append_bounded out (entry_detail e)) es out)" if "link_free out" for es out
    using that
  proof (induction es arbitrary: out)
    case (Cons e es)
    have "link_free (append_bounded out (entry_detail e))"
      using piece_entry_detail[of e] Cons.prems unfolding piece_def by (intro link_free_append_bounded) auto
    with Cons.IH show ?case by simp
  qed simp
  note f = this
  assume "link_free output"
  moreover have "piece (section_header (if st = Failed then ''Failed'' else ''Interrupted'') es)" for es
    by (rule piece_section_header) simp
  ultimately have "link_free (append_bounded output (section_header (if st = Failed then ''Failed'' else ''Interrupted'') es))" for es
    unfolding piece_def by (intro link_free_append_bounded) auto
  with f \<open>link_free output\<close> show ?thesis by (simp only: append_section_def Let_def) simp
qed

lemma link_free_summary_counts: "link_free (summary_counts s)"
proof -
  have slash: "piece ''; skipped/already present: ''"
    "piece ''\<newline>Downloaded pending mux/publication/verification: ''"
    by (simp_all add: piece_def link_free_def)
  show ?thesis
    unfolding summary_counts_def Let_def
    by (cases "sn_independent_entries s"; simp only: if_True if_False;
        intro link_free_append_piece link_free_truncate link_free_single_line piece_text_piece piece_text
          piece_if link_free_dec slash)
      (simp_all add: piece_lit slash piece_dec)
qed

text \<open>
  No title, stage or error can smuggle a link into the summary: it never contains the separator of a
  URL, wherever the pieces are joined or cut.
\<close>

lemma summary_link_free: "\<not> str_contains (summary s) ''://''"
proof -
  have "link_free (case sn_outcome s of None \<Rightarrow> summary_counts s
    | Some oc \<Rightarrow> summary_counts s @ ''\<newline>Outcome: '' @ outcome_label oc)"
  proof (cases "sn_outcome s")
    case (Some oc)
    have "piece (''\<newline>Outcome: '' @ outcome_label oc)"
      by (rule piece_lit) (cases oc; simp)
    with Some show ?thesis
      using link_free_append_piece[OF link_free_summary_counts] by (simp only: option.case)
  qed (simp add: link_free_summary_counts)
  then have "link_free (summary s)"
    unfolding summary_def Let_def by (intro link_free_append_section)
  then show ?thesis by (simp add: link_free_def)
qed

end
