(* ===== verification/Planning.thy ===== *)
theory Planning
  imports Redaction
begin

section \<open>Planning a download (\<open>bilibili_planning.rs\<close>)\<close>

text \<open>
  A season is planned episode by episode, at most two at a time. The tasks of a \<open>JoinSet\<close> finish in an
  order the program does not control: the scheduler takes an arbitrary list of choices that says, at each
  \<open>join_next\<close>, which task in flight is the next to finish, and the theorems quantify over it. What a future
  does (finish, run into its timeout, panic) is the value of a function parameter. The types of the external
  crate \<open>bbdown_core\<close> keep the fields and variants the source names; its client is a parameter.
\<close>

subsection \<open>Futures under a timeout\<close>

datatype 'a fut = FutDone 'a | FutElapsed | FutPanic

datatype task_failure =
  TimeoutFailure | Upstream string | UnexpectedEntryCount | IdentityChanged

definition failure_message :: "task_failure \<Rightarrow> string" where
  "failure_message f = (case f of
      TimeoutFailure \<Rightarrow> ''planning timed out''
    | Upstream reason \<Rightarrow> ''planning failed: '' @ reason
    | UnexpectedEntryCount \<Rightarrow> ''planner returned an unexpected entry count''
    | IdentityChanged \<Rightarrow> ''episode identity changed during planning'')"

definition spawn_episode_task ::
  "('a \<Rightarrow> (task_failure + 'o) fut) \<Rightarrow> 'a \<Rightarrow> (task_failure + 'o) option" where
  \<comment> \<open>the value a joined task yields, None for a \<open>JoinError\<close>\<close>
  "spawn_episode_task make_future task = (case make_future task of
      FutDone (Inr output) \<Rightarrow> Some (Inr output)
    | FutDone (Inl error) \<Rightarrow> Some (Inl error)
    | FutElapsed \<Rightarrow> Some (Inl TimeoutFailure)
    | FutPanic \<Rightarrow> None)"

subsection \<open>The bounded scheduler\<close>

definition MAX_EPISODE_PLANNING_CONCURRENCY :: nat where
  "MAX_EPISODE_PLANNING_CONCURRENCY = 2"

type_synonym 'a ordinal_task = "nat \<times> u32 \<times> 'a"

record ('a, 'o) sched =
  sc_pending :: "'a ordinal_task list"
  sc_flight :: "'a ordinal_task list"
  sc_ordered :: "'o option list"
  sc_completed :: nat
  sc_progress :: "(nat \<times> nat) list"

datatype ('a, 'o) sched_next =
    Continue "('a, 'o) sched"
  | Returned "string + 'o list" "(nat \<times> nat) list"

definition sched_start :: "(u32 \<times> 'a) list \<Rightarrow> ('a, 'o) sched" where
  "sched_start tasks =
     (let total = length tasks;
          numbered = enumerate 0 tasks;
          first = min MAX_EPISODE_PLANNING_CONCURRENCY total
      in \<lparr>sc_pending = drop first numbered, sc_flight = take first numbered,
          sc_ordered = replicate total None, sc_completed = 0, sc_progress = []\<rparr>)"

definition join_error :: string where
  "join_error = ''episode planning task was cancelled or failed unexpectedly''"

definition task_error :: "u32 \<Rightarrow> task_failure \<Rightarrow> string" where
  "task_error index f = ''episode index '' @ dec_digits (unat index) @ '' '' @ failure_message f"

definition sched_step ::
  "('a \<Rightarrow> (task_failure + 'o) fut) \<Rightarrow> nat \<Rightarrow> ('a, 'o) sched \<Rightarrow> ('a, 'o) sched_next" where
  \<comment> \<open>one turn of \<open>while let Some(joined) = join_set.join_next().await\<close>\<close>
  "sched_step make_future choice st =
     (if sc_flight st = []
      then Returned (Inr (map the (filter (\<lambda>slot. slot \<noteq> None) (sc_ordered st)))) (sc_progress st)
      else let k = choice mod length (sc_flight st);
               flight = take k (sc_flight st) @ drop (Suc k) (sc_flight st)
           in case sc_flight st ! k of (ordinal, episode_index, task) \<Rightarrow>
             (case spawn_episode_task make_future task of
                None \<Rightarrow> Returned (Inl join_error) (sc_progress st)
              | Some (Inl error) \<Rightarrow> Returned (Inl (task_error episode_index error)) (sc_progress st)
              | Some (Inr output) \<Rightarrow>
                  let completed = sc_completed st + 1 in
                  Continue \<lparr>sc_pending = drop 1 (sc_pending st),
                            sc_flight = flight @ take 1 (sc_pending st),
                            sc_ordered = (sc_ordered st)[ordinal := Some output],
                            sc_completed = completed,
                            sc_progress = sc_progress st @ [(completed, length (sc_ordered st))]\<rparr>))"

definition sched_size :: "('a, 'o) sched \<Rightarrow> nat" where
  "sched_size st = length (sc_pending st) + length (sc_flight st)"

lemma sched_step_nonempty:
  assumes "sc_flight st \<noteq> []" "k = choice mod length (sc_flight st)"
    "sc_flight st ! k = (ordinal, index, task)"
  shows "sched_step make_future choice st = (case make_future task of
      FutPanic \<Rightarrow> Returned (Inl join_error) (sc_progress st)
    | FutElapsed \<Rightarrow> Returned (Inl (task_error index TimeoutFailure)) (sc_progress st)
    | FutDone (Inl error) \<Rightarrow> Returned (Inl (task_error index error)) (sc_progress st)
    | FutDone (Inr out) \<Rightarrow> Continue
        \<lparr>sc_pending = drop 1 (sc_pending st),
         sc_flight = take k (sc_flight st) @ drop (Suc k) (sc_flight st) @ take 1 (sc_pending st),
         sc_ordered = (sc_ordered st)[ordinal := Some out], sc_completed = sc_completed st + 1,
         sc_progress = sc_progress st @ [(sc_completed st + 1, length (sc_ordered st))]\<rparr>)"
  using assms unfolding sched_step_def Let_def assms(2)[symmetric]
  by (simp add: spawn_episode_task_def split: fut.splits sum.splits)

lemma sched_step_Continue:
  assumes "sched_step make_future choice st = Continue st'"
  obtains k ordinal index task out where
    "k < length (sc_flight st)" "sc_flight st ! k = (ordinal, index, task)"
    "make_future task = FutDone (Inr out)"
    "st' = \<lparr>sc_pending = drop 1 (sc_pending st),
       sc_flight = take k (sc_flight st) @ drop (Suc k) (sc_flight st) @ take 1 (sc_pending st),
       sc_ordered = (sc_ordered st)[ordinal := Some out], sc_completed = sc_completed st + 1,
       sc_progress = sc_progress st @ [(sc_completed st + 1, length (sc_ordered st))]\<rparr>"
proof -
  define k where "k = choice mod length (sc_flight st)"
  obtain ordinal index task where f: "sc_flight st ! k = (ordinal, index, task)" by (cases "sc_flight st ! k")
  have ne: "sc_flight st \<noteq> []" using assms by (auto simp: sched_step_def)
  then have k: "k < length (sc_flight st)" by (simp add: k_def)
  from assms that[OF k f] show thesis
    unfolding sched_step_nonempty[OF ne k_def f] by (auto split: fut.splits sum.splits)
qed

lemma sched_step_decreases:
  "sched_step make_future choice st = Continue st' \<Longrightarrow> sched_size st' < sched_size st"
  by (elim sched_step_Continue) (cases "sc_pending st", auto simp: sched_size_def)

function sched_loop ::
  "('a \<Rightarrow> (task_failure + 'o) fut) \<Rightarrow> nat list \<Rightarrow> ('a, 'o) sched
     \<Rightarrow> (string + 'o list) \<times> (nat \<times> nat) list" where
  "sched_loop make_future choices st =
     (case sched_step make_future (case choices of [] \<Rightarrow> 0 | c # _ \<Rightarrow> c) st of
        Returned r ps \<Rightarrow> (r, ps)
      | Continue st' \<Rightarrow> sched_loop make_future (drop 1 choices) st')"
  by pat_completeness auto
termination
  by (relation "measure (\<lambda>(_, _, st). sched_size st)") (auto simp: sched_step_decreases)

declare sched_loop.simps [simp del]

definition schedule_bounded ::
  "nat list \<Rightarrow> (u32 \<times> 'a) list \<Rightarrow> ('a \<Rightarrow> (task_failure + 'o) fut)
     \<Rightarrow> (string + 'o list) \<times> (nat \<times> nat) list" where
  "schedule_bounded choices tasks make_future =
     (if length tasks = 0 then (Inr [], []) else sched_loop make_future choices (sched_start tasks))"

subsubsection \<open>What the scheduler guarantees\<close>


definition sched_inv ::
  "(u32 \<times> 'a) list \<Rightarrow> ('a \<Rightarrow> (task_failure + 'o) fut) \<Rightarrow> ('a, 'o) sched \<Rightarrow> bool" where
  "sched_inv tasks make_future st =
     (let todo = sc_flight st @ sc_pending st in
        distinct (map fst todo)
      \<and> (\<forall>(i, x)\<in>set todo. i < length tasks \<and> x = tasks ! i)
      \<and> length (sc_ordered st) = length tasks
      \<and> (\<forall>i<length tasks. i \<notin> fst ` set todo \<longrightarrow>
           (\<exists>out. sc_ordered st ! i = Some out \<and> make_future (snd (tasks ! i)) = FutDone (Inr out)))
      \<and> sc_completed st + length todo = length tasks
      \<and> length (sc_flight st) \<le> MAX_EPISODE_PLANNING_CONCURRENCY
      \<and> (sc_pending st \<noteq> [] \<longrightarrow> length (sc_flight st) = MAX_EPISODE_PLANNING_CONCURRENCY)
      \<and> sc_progress st = map (\<lambda>k. (Suc k, length tasks)) [0..<sc_completed st])"

lemma sched_inv_start: "sched_inv tasks make_future (sched_start tasks)"
proof -
  define m where "m = min MAX_EPISODE_PLANNING_CONCURRENCY (length tasks)"
  have todo: "sc_flight (sched_start tasks) @ sc_pending (sched_start tasks) = enumerate 0 tasks"
    by (simp add: sched_start_def Let_def)
  have d: "distinct (map fst (enumerate 0 tasks))" by simp
  have e: "\<forall>(i, x)\<in>set (enumerate 0 tasks). i < length tasks \<and> x = tasks ! i"
    by (auto simp: in_set_enumerate_eq)
  have a: "i \<in> fst ` set (enumerate 0 tasks)" if "i < length tasks" for i
    using that by (auto simp: image_iff in_set_enumerate_eq intro!: bexI[of _ "(i, tasks ! i)"])
  show ?thesis
    unfolding sched_inv_def todo Let_def
    using d e a by (auto simp: sched_start_def Let_def min_def)
qed

lemma sched_inv_step:
  assumes "sched_inv tasks make_future st" "sched_step make_future choice st = Continue st'"
  shows "sched_inv tasks make_future st'"
proof -
  obtain k i index task out where k: "k < length (sc_flight st)" "sc_flight st ! k = (i, index, task)"
    and f: "make_future task = FutDone (Inr out)"
    and st': "st' = \<lparr>sc_pending = drop 1 (sc_pending st),
       sc_flight = take k (sc_flight st) @ drop (Suc k) (sc_flight st) @ take 1 (sc_pending st),
       sc_ordered = (sc_ordered st)[i := Some out], sc_completed = sc_completed st + 1,
       sc_progress = sc_progress st @ [(sc_completed st + 1, length (sc_ordered st))]\<rparr>"
    using sched_step_Continue[OF assms(2)] by blast
  define todo where "todo = sc_flight st @ sc_pending st"
  define todo' where "todo' = take k (sc_flight st) @ drop (Suc k) (sc_flight st) @ sc_pending st"
  have t': "sc_flight st' @ sc_pending st' = todo'"
    by (simp add: st' todo'_def)
  have split: "todo = take k (sc_flight st) @ (i, index, task) # drop (Suc k) (sc_flight st) @ sc_pending st"
    unfolding todo_def using id_take_nth_drop[OF k(1)] k(2) by simp
  note I = assms(1)[unfolded sched_inv_def Let_def todo_def[symmetric]]
  have d: "distinct (map fst todo')" "i \<notin> fst ` set todo'" "fst ` set todo = insert i (fst ` set todo')"
    and sub: "set todo' \<subseteq> set todo" and len: "length todo = Suc (length todo')"
    using I unfolding split todo'_def by auto
  have i: "i < length tasks" and "(index, task) = tasks ! i" using I unfolding split by auto
  then have snd_i: "task = snd (tasks ! i)" by (metis snd_conv)
  have A: "\<forall>j<length tasks. j \<notin> fst ` set todo' \<longrightarrow>
           (\<exists>out. sc_ordered st' ! j = Some out \<and> make_future (snd (tasks ! j)) = FutDone (Inr out))"
  proof (intro allI impI)
    fix j assume j: "j < length tasks" "j \<notin> fst ` set todo'"
    show "\<exists>out. sc_ordered st' ! j = Some out \<and> make_future (snd (tasks ! j)) = FutDone (Inr out)"
    proof (cases "j = i")
      case True
      then show ?thesis using I i snd_i f by (simp add: st')
    next
      case False
      with j have "j \<notin> fst ` set todo" using d(3) by auto
      with I j(1) False show ?thesis by (simp add: st')
    qed
  qed
  have fl: "length (sc_flight st') \<le> MAX_EPISODE_PLANNING_CONCURRENCY"
    "sc_pending st' \<noteq> [] \<longrightarrow> length (sc_flight st') = MAX_EPISODE_PLANNING_CONCURRENCY"
    using I k(1) by (cases "sc_pending st"; auto simp: st' min_def)+
  show ?thesis
    unfolding sched_inv_def Let_def t'
    using d(1) A fl sub len I by (auto simp: st')
qed


definition sched_result_error ::
  "('a \<Rightarrow> (task_failure + 'o) fut) \<Rightarrow> u32 \<Rightarrow> 'a \<Rightarrow> (string + 'o list) \<Rightarrow> bool" where
  "sched_result_error make_future index task r =
      ((make_future task = FutPanic \<and> r = Inl join_error)
     \<or> (make_future task = FutElapsed \<and> r = Inl (task_error index TimeoutFailure))
     \<or> (\<exists>f. make_future task = FutDone (Inl f) \<and> r = Inl (task_error index f)))"

definition sched_result_ok ::
  "(u32 \<times> 'a) list \<Rightarrow> ('a \<Rightarrow> (task_failure + 'o) fut) \<Rightarrow> (string + 'o list) \<times> (nat \<times> nat) list \<Rightarrow> bool" where
  "sched_result_ok tasks make_future res = (case fst res of
      Inr outs \<Rightarrow> length outs = length tasks
        \<and> (\<forall>i<length tasks. make_future (snd (tasks ! i)) = FutDone (Inr (outs ! i)))
        \<and> snd res = map (\<lambda>k. (Suc k, length tasks)) [0..<length tasks]
    | Inl error \<Rightarrow> \<exists>(index, task)\<in>set tasks. sched_result_error make_future index task (fst res))"

lemma sched_step_Returned:
  assumes "sched_inv tasks make_future st" "sched_step make_future choice st = Returned r ps"
  shows "sched_result_ok tasks make_future (r, ps)"
proof (cases "sc_flight st = []")
  case True
  note I = assms(1)[unfolded sched_inv_def Let_def]
  have p: "sc_pending st = []" using I True by (auto simp: MAX_EPISODE_PLANNING_CONCURRENCY_def)
  with True I have len: "length (sc_ordered st) = length tasks" "sc_completed st = length tasks"
    and all: "\<forall>i<length tasks. \<exists>out. sc_ordered st ! i = Some out
        \<and> make_future (snd (tasks ! i)) = FutDone (Inr out)" by simp_all
  have "\<forall>slot\<in>set (sc_ordered st). slot \<noteq> None" using all len(1) by (fastforce simp: in_set_conv_nth)
  then have flt: "filter (\<lambda>slot. slot \<noteq> None) (sc_ordered st) = sc_ordered st" by simp
  have ps: "sc_progress st = map (\<lambda>k. (Suc k, length tasks)) [0..<length tasks]"
    using I len(2) by simp
  have "\<forall>i<length tasks. make_future (snd (tasks ! i)) = FutDone (Inr (the (sc_ordered st ! i)))"
    using all by fastforce
  then show ?thesis
    using assms(2) True len flt ps by (auto simp: sched_step_def sched_result_ok_def)
next
  case False
  define k where "k = choice mod length (sc_flight st)"
  obtain i index task where f: "sc_flight st ! k = (i, index, task)" by (cases "sc_flight st ! k")
  have "k < length (sc_flight st)" using False by (simp add: k_def)
  with f have "(i, index, task) \<in> set (sc_flight st)" by (metis nth_mem)
  moreover have "\<forall>(i, x)\<in>set (sc_flight st). i < length tasks \<and> x = tasks ! i"
    using assms(1) by (auto simp: sched_inv_def Let_def)
  ultimately have "i < length tasks \<and> (index, task) = tasks ! i" by blast
  then have "(index, task) \<in> set tasks" by simp
  moreover have "sched_result_error make_future index task r"
    using assms(2) unfolding sched_step_nonempty[OF False k_def f]
    by (auto simp: sched_result_error_def split: fut.splits sum.splits)
  moreover from this have "\<exists>error. r = Inl error" by (auto simp: sched_result_error_def)
  ultimately show ?thesis by (auto simp: sched_result_ok_def intro: bexI[of _ "(index, task)"])
qed

lemma sched_loop_ok:
  "sched_inv tasks make_future st \<Longrightarrow> sched_result_ok tasks make_future (sched_loop make_future choices st)"
proof (induction make_future choices st rule: sched_loop.induct)
  case (1 make_future choices st)
  show ?case
  proof (cases "sched_step make_future (case choices of [] \<Rightarrow> 0 | c # _ \<Rightarrow> c) st")
    case (Continue st')
    with 1 show ?thesis
      by (subst sched_loop.simps) (auto intro: sched_inv_step)
  next
    case (Returned r ps)
    with sched_step_Returned[OF "1.prems"] show ?thesis by (subst sched_loop.simps) simp
  qed
qed






subsection \<open>Episodes, plans and their validation\<close>

record episode_metadata =
  em_epid :: u64
  em_aid :: u64
  em_cid :: u64
  em_index :: u32
  em_title :: string

record plan_entry =
  pe_index :: u32
  pe_epid :: "u64 option"
  pe_aid :: u64
  pe_cid :: u64
  pe_title :: string

record download_plan =
  dp_title :: string
  dp_entries :: "plan_entry list"

datatype bb_input = InEpisode u64 | InCheeseEpisode u64 | InCheeseSeason u64 | InIntlEpisode u64 | InOther string

datatype bb_selection = SelEpisode u64 | SelOther string

datatype resolved_content = ResolvedSeason string "episode_metadata list" | ResolvedOther string

datatype bb_error = ApiError int string | AccessRestricted string | OtherBbError

datatype episode_input_kind = Pgc | Cheese | International

fun make_input :: "episode_input_kind \<Rightarrow> u64 \<Rightarrow> bb_input" where
  "make_input Pgc epid = InEpisode epid"
| "make_input Cheese epid = InCheeseEpisode epid"
| "make_input International epid = InIntlEpisode epid"

definition episode_input_kind_of :: "bb_input \<Rightarrow> episode_input_kind" where
  "episode_input_kind_of input = (case input of
      InCheeseEpisode _ \<Rightarrow> Cheese | InCheeseSeason _ \<Rightarrow> Cheese
    | InIntlEpisode _ \<Rightarrow> International | _ \<Rightarrow> Pgc)"

definition validate_and_preserve_episode ::
  "download_plan \<Rightarrow> episode_metadata \<Rightarrow> task_failure + download_plan" where
  "validate_and_preserve_episode plan expected =
     (case dp_entries plan of
        [entry] \<Rightarrow>
          if pe_epid entry \<noteq> Some (em_epid expected) \<or> pe_aid entry \<noteq> em_aid expected
             \<or> pe_cid entry \<noteq> em_cid expected
          then Inl IdentityChanged
          else Inr (plan\<lparr>dp_entries := [entry\<lparr>pe_index := em_index expected\<rparr>]\<rparr>)
      | _ \<Rightarrow> Inl UnexpectedEntryCount)"

fun partition_existing_episodes ::
  "'a list \<Rightarrow> 'e option list \<Rightarrow> 'a list \<times> ('a \<times> 'e) list" where
  \<comment> \<open>called with lists of the same length (the source asserts it)\<close>
  "partition_existing_episodes (episode # es) (evidence # evs) =
     (case partition_existing_episodes es evs of (planned, skipped) \<Rightarrow>
        case evidence of
          Some e \<Rightarrow> (planned, (episode, e) # skipped)
        | None \<Rightarrow> (episode # planned, skipped))"
| "partition_existing_episodes _ _ = ([], [])"

definition dec_int :: "int \<Rightarrow> string" where
  "dec_int i = (if i < 0 then ''-'' @ dec_digits (nat (- i)) else dec_digits (nat i))"

definition safe_planning_failure :: "bb_error \<Rightarrow> string" where
  "safe_planning_failure error =
     (let reason = (case error of
          ApiError code message \<Rightarrow> ''API returned code '' @ dec_int code @ '': '' @ message
        | AccessRestricted message \<Rightarrow> ''access restricted: '' @ message
        | OtherBbError \<Rightarrow> ''upstream request failed'')
      in concat (take 256 (chars (redact_sensitive_text reason))))"

subsection \<open>The planning pipeline\<close>

datatype planning_stage = ResolvingMetadata | ScanningExistingMedia | PlanningEpisodes | PlanComplete

datatype plan_event = StageProgress planning_stage nat nat | Progress nat nat

definition probe_future :: "('a \<Rightarrow> 'e option fut fut) \<Rightarrow> 'a \<Rightarrow> (task_failure + 'e option) fut" where
  \<comment> \<open>the probe under its own timeout inside the scheduler's: a slow probe is no evidence\<close>
  "probe_future predicate episode = (case predicate episode of
      FutElapsed \<Rightarrow> FutElapsed
    | FutPanic \<Rightarrow> FutPanic
    | FutDone FutPanic \<Rightarrow> FutPanic
    | FutDone FutElapsed \<Rightarrow> FutDone (Inr None)
    | FutDone (FutDone evidence) \<Rightarrow> FutDone (Inr evidence))"

definition probe_existing_episodes ::
  "nat list \<Rightarrow> episode_metadata list \<Rightarrow> (episode_metadata \<Rightarrow> 'e option fut fut) \<Rightarrow> string + 'e option list" where
  "probe_existing_episodes choices episodes predicate =
     fst (schedule_bounded choices (map (\<lambda>e. (em_index e, e)) episodes) (probe_future predicate))"

type_synonym plan_client = "bb_input \<Rightarrow> bb_selection option \<Rightarrow> (bb_error + download_plan) fut"

definition plan_episode ::
  "plan_client \<Rightarrow> episode_metadata \<times> episode_input_kind \<Rightarrow> (task_failure + plan_entry list) fut" where
  "plan_episode client work = (case work of (episode, input_kind) \<Rightarrow>
     (case client (make_input input_kind (em_epid episode)) (Some (SelEpisode (em_epid episode))) of
        FutElapsed \<Rightarrow> FutElapsed
      | FutPanic \<Rightarrow> FutPanic
      | FutDone (Inl error) \<Rightarrow> FutDone (Inl (Upstream (safe_planning_failure error)))
      | FutDone (Inr plan) \<Rightarrow>
          (case validate_and_preserve_episode plan episode of
             Inl f \<Rightarrow> FutDone (Inl f)
           | Inr plan \<Rightarrow> FutDone (Inr (dp_entries plan)))))"

type_synonym 'e plan_result =
  "string + download_plan \<times> resolved_content \<times> (episode_metadata \<times> 'e) list"

definition plan_season ::
  "plan_client \<Rightarrow> nat list \<Rightarrow> nat list \<Rightarrow> bb_input \<Rightarrow> resolved_content \<Rightarrow> string \<Rightarrow> episode_metadata list
     \<Rightarrow> (episode_metadata \<Rightarrow> 'e option fut fut) option \<Rightarrow> 'e plan_result \<times> plan_event list" where
  "plan_season client probe_choices plan_choices input resolved season_title selected is_existing =
     (let total = length selected;
          (scan, evidence) = (case is_existing of
              None \<Rightarrow> ([], Inr (replicate total None))
            | Some predicate \<Rightarrow> ([StageProgress ScanningExistingMedia 0 total],
                               probe_existing_episodes probe_choices selected predicate))
      in case evidence of
        Inl error \<Rightarrow> (Inl error, scan)
      | Inr evidence \<Rightarrow>
          let (episodes, skipped) = partition_existing_episodes selected evidence;
              planned_total = length episodes;
              events = scan @ [StageProgress PlanningEpisodes 0 planned_total, Progress 0 planned_total]
          in if episodes = []
             then if skipped = [] then (Inl ''season selection resolved to no episodes'', events)
                  else (Inr (\<lparr>dp_title = season_title, dp_entries = []\<rparr>, resolved, skipped),
                        events @ [StageProgress PlanComplete 0 planned_total])
             else let input_kind = episode_input_kind_of input;
                      work = map (\<lambda>e. (em_index e, (e, input_kind))) episodes;
                      (plans, progress) = schedule_bounded plan_choices work (plan_episode client);
                      events = events @ concat (map (\<lambda>(d, t). [Progress d t, StageProgress PlanningEpisodes d t]) progress)
                  in case plans of
                       Inl error \<Rightarrow> (Inl error, events)
                     | Inr plans \<Rightarrow>
                         (Inr (\<lparr>dp_title = season_title, dp_entries = concat plans\<rparr>, resolved, skipped),
                          events @ [StageProgress PlanComplete planned_total planned_total]))"

definition plan_download_with_filter ::
  "(string \<Rightarrow> bb_selection option \<Rightarrow> (bb_error + bb_input \<times> resolved_content) fut) \<Rightarrow> plan_client
     \<Rightarrow> nat list \<Rightarrow> nat list \<Rightarrow> string \<Rightarrow> bb_selection option
     \<Rightarrow> (episode_metadata \<Rightarrow> 'e option fut fut) option \<Rightarrow> 'e plan_result option \<times> plan_event list" where
  \<comment> \<open>None stands for a panic of the client, which unwinds the caller\<close>
  "plan_download_with_filter resolve client probe_choices plan_choices url selection is_existing =
     (let start = [StageProgress ResolvingMetadata 0 0] in
      case resolve url selection of
        FutPanic \<Rightarrow> (None, start)
      | FutElapsed \<Rightarrow> (Some (Inl ''Bilibili input resolution timed out''), start)
      | FutDone (Inl error) \<Rightarrow>
          (Some (Inl (''failed to parse or resolve Bilibili input: '' @ safe_planning_failure error)), start)
      | FutDone (Inr (input, resolved)) \<Rightarrow>
          (case resolved of
             ResolvedSeason season_title selected \<Rightarrow>
               (case plan_season client probe_choices plan_choices input resolved season_title selected is_existing of
                  (r, events) \<Rightarrow> (Some r, start @ events))
           | ResolvedOther _ \<Rightarrow>
               if is_existing \<noteq> None
               then (Some (Inl ''missing Bilibili episode download requires a season URL''), start)
               else (case client input selection of
                   FutPanic \<Rightarrow> (None, start)
                 | FutElapsed \<Rightarrow> (Some (Inl ''Bilibili download planning timed out''), start)
                 | FutDone (Inl error) \<Rightarrow>
                     (Some (Inl (''failed to plan Bilibili download: '' @ safe_planning_failure error)), start)
                 | FutDone (Inr plan) \<Rightarrow>
                     let n = length (dp_entries plan) in
                     (Some (Inr (plan, resolved, [])),
                      start @ [Progress n n, StageProgress PlanningEpisodes n n, StageProgress PlanComplete n n]))))"

definition plan_download_with_progress ::
  "(string \<Rightarrow> bb_selection option \<Rightarrow> (bb_error + bb_input \<times> resolved_content) fut) \<Rightarrow> plan_client
     \<Rightarrow> nat list \<Rightarrow> string \<Rightarrow> bb_selection option
     \<Rightarrow> (string + download_plan \<times> resolved_content) option \<times> plan_event list" where
  "plan_download_with_progress resolve client plan_choices url selection =
     (case plan_download_with_filter resolve client [] plan_choices url selection
             (None :: (episode_metadata \<Rightarrow> unit option fut fut) option) of
        (None, events) \<Rightarrow> (None, events)
      | (Some (Inl error), events) \<Rightarrow> (Some (Inl error), events)
      | (Some (Inr (plan, resolved, _)), events) \<Rightarrow> (Some (Inr (plan, resolved)), events))"


subsection \<open>A planned season\<close>

definition evidence_of :: "(episode_metadata \<Rightarrow> 'e option fut fut) option \<Rightarrow> episode_metadata \<Rightarrow> 'e option" where
  "evidence_of is_existing e = (case is_existing of
      None \<Rightarrow> None
    | Some predicate \<Rightarrow> (case predicate e of FutDone (FutDone evidence) \<Rightarrow> evidence | _ \<Rightarrow> None))"

lemma partition_existing_episodes_spec:
  "partition_existing_episodes es (map g es) =
     (filter (\<lambda>e. g e = None) es, map (\<lambda>e. (e, the (g e))) (filter (\<lambda>e. g e \<noteq> None) es))"
  by (induction es) (auto split: option.splits)

lemma schedule_bounded_Inr:
  "fst (schedule_bounded choices tasks make_future) = Inr outs
    \<Longrightarrow> length outs = length tasks \<and> (\<forall>i<length tasks. make_future (snd (tasks ! i)) = FutDone (Inr (outs ! i)))"
  using sched_loop_ok[OF sched_inv_start, of tasks make_future choices]
  by (auto simp: schedule_bounded_def sched_result_ok_def split: if_splits)

lemma probe_existing_episodes_Inr:
  assumes "probe_existing_episodes choices es predicate = Inr evidence"
  shows "evidence = map (evidence_of (Some predicate)) es"
proof -
  note r = schedule_bounded_Inr[OF assms[unfolded probe_existing_episodes_def]]
  have "ev = evidence_of (Some predicate) e" if "probe_future predicate e = FutDone (Inr ev)" for e ev
    using that by (auto simp: probe_future_def evidence_of_def split: fut.splits)
  with r show ?thesis by (auto intro!: nth_equalityI)
qed

lemma plan_episode_Inr:
  assumes "plan_episode client (e, k) = FutDone (Inr entries)"
  shows "map (\<lambda>p. (pe_index p, pe_epid p, pe_aid p, pe_cid p)) entries
    = [(em_index e, Some (em_epid e), em_aid e, em_cid e)]"
  using assms
  by (auto simp: plan_episode_def validate_and_preserve_episode_def
      split: fut.splits sum.splits list.splits if_splits)

lemma map_concat_singletons:
  assumes "length pss = length es" "\<forall>i<length es. map g (pss ! i) = [h (es ! i)]"
  shows "map g (concat pss) = map h es"
  using assms
proof (induction pss es rule: list_induct2)
  case (Cons ps pss e es)
  have "map g ps = [h e]" "\<forall>i<length es. map g (pss ! i) = [h (es ! i)]"
    using Cons.prems by (auto simp: All_less_Suc2)
  with Cons.IH show ?case by simp
qed simp

text \<open>
  C27: A season that is planned successfully has exactly one entry per selected episode without evidence of
  existing media, in the order of the selection, with the index of the resolved inventory and with the
  episode, archive and content ids that were asked for; the other selected episodes are returned as skipped
  with their evidence, a probe that timed out counts as no evidence, and an empty selection never succeeds.
  This holds in whatever order the probes and the planning tasks finish.
\<close>

theorem plan_season_success:
  assumes "fst (plan_season client pc qc input resolved title selected is_existing) = Inr (plan, r, skipped)"
  shows "map (\<lambda>p. (pe_index p, pe_epid p, pe_aid p, pe_cid p)) (dp_entries plan)
      = map (\<lambda>e. (em_index e, Some (em_epid e), em_aid e, em_cid e))
          (filter (\<lambda>e. evidence_of is_existing e = None) selected)
    \<and> skipped = map (\<lambda>e. (e, the (evidence_of is_existing e)))
                  (filter (\<lambda>e. evidence_of is_existing e \<noteq> None) selected)
    \<and> dp_title plan = title \<and> r = resolved \<and> selected \<noteq> []"
proof -
  define planned where "planned = filter (\<lambda>e. evidence_of is_existing e = None) selected"
  define skips where "skips = map (\<lambda>e. (e, the (evidence_of is_existing e)))
                  (filter (\<lambda>e. evidence_of is_existing e \<noteq> None) selected)"
  have none: "evidence_of None = (\<lambda>_. None :: 'a option)" by (simp add: fun_eq_iff evidence_of_def)
  have ev: "partition_existing_episodes selected evidence = (planned, skips)"
    if "case is_existing of None \<Rightarrow> evidence = replicate (length selected) None
        | Some predicate \<Rightarrow> probe_existing_episodes pc selected predicate = Inr evidence" for evidence
  proof -
    have "evidence = map (evidence_of is_existing) selected"
      using that by (cases is_existing)
        (auto simp: probe_existing_episodes_Inr none map_replicate_const)
    then show ?thesis
      by (simp add: planned_def skips_def partition_existing_episodes_spec)
  qed
  have "(planned = [] \<and> skips \<noteq> [] \<and> dp_entries plan = [] \<and> dp_title plan = title \<and> r = resolved \<and> skipped = skips)
    \<or> (\<exists>plans. planned \<noteq> [] \<and> fst (schedule_bounded qc (map (\<lambda>e. (em_index e, (e, episode_input_kind_of input))) planned) (plan_episode client)) = Inr plans
         \<and> dp_entries plan = concat plans \<and> dp_title plan = title \<and> r = resolved \<and> skipped = skips)"
    using assms unfolding plan_season_def Let_def
    by (auto simp: ev split: option.splits sum.splits prod.splits if_splits)
  then show ?thesis
  proof (elim disjE exE conjE)
    fix plans
    assume s: "fst (schedule_bounded qc (map (\<lambda>e. (em_index e, (e, episode_input_kind_of input))) planned) (plan_episode client)) = Inr plans"
      and p: "planned \<noteq> []" "dp_entries plan = concat plans" "dp_title plan = title" "r = resolved" "skipped = skips"
    from schedule_bounded_Inr[OF s] have l: "length plans = length planned"
      "\<forall>i<length planned. plan_episode client (planned ! i, episode_input_kind_of input) = FutDone (Inr (plans ! i))" by auto
    have "map (\<lambda>p. (pe_index p, pe_epid p, pe_aid p, pe_cid p)) (concat plans)
        = map (\<lambda>e. (em_index e, Some (em_epid e), em_aid e, em_cid e)) planned"
      by (rule map_concat_singletons[OF l(1)]) (use l(2) plan_episode_Inr in blast)
    moreover have "selected \<noteq> []" using p(1) by (auto simp: planned_def)
    ultimately show ?thesis using p by (simp add: planned_def skips_def)
  qed (auto simp: planned_def skips_def)
qed

definition demo_client :: plan_client where
  "demo_client input sel = (case input of
      InEpisode epid \<Rightarrow> FutDone (Inr \<lparr>dp_title = [], dp_entries =
        [\<lparr>pe_index = 1, pe_epid = Some epid, pe_aid = epid + 1, pe_cid = epid + 2, pe_title = []\<rparr>]\<rparr>)
    | _ \<Rightarrow> FutDone (Inl OtherBbError))"

theorem plan_season_success_witness:
  "\<exists>plan r skipped. map pe_index (dp_entries plan) = [7, 9] \<and> skipped = [] \<and> r = ResolvedOther ''x''
     \<and> fst (plan_season demo_client [] [1] (InOther ''ss1'') (ResolvedOther ''x'') ''T''
         [\<lparr>em_epid = 10, em_aid = 11, em_cid = 12, em_index = 7, em_title = []\<rparr>,
          \<lparr>em_epid = 20, em_aid = 21, em_cid = 22, em_index = 9, em_title = []\<rparr>]
         (None :: (episode_metadata \<Rightarrow> unit option fut fut) option)) = Inr (plan, r, skipped)"
proof -
  define es where "es = [\<lparr>em_epid = 10, em_aid = 11, em_cid = 12, em_index = 7, em_title = []\<rparr>,
          \<lparr>em_epid = 20, em_aid = 21, em_cid = 22, em_index = 9, em_title = []\<rparr>]"
  define res where "res = fst (plan_season demo_client [] [1] (InOther ''ss1'') (ResolvedOther ''x'') ''T'' es
         (None :: (episode_metadata \<Rightarrow> unit option fut fut) option))"
  have "case res of Inl _ \<Rightarrow> False | Inr _ \<Rightarrow> True" unfolding res_def es_def by code_simp
  then obtain plan r skipped where i: "res = Inr (plan, r, skipped)"
    by (metis prod_cases3 sum.case_eq_if sum.collapse(2))
  note t = plan_season_success[OF i[unfolded res_def]]
  then have e: "map (\<lambda>p. (pe_index p, pe_epid p, pe_aid p, pe_cid p)) (dp_entries plan)
      = [(7, Some 10, 11, 12), (9, Some 20, 21, 22)]"
    by (simp add: evidence_of_def es_def)
  have "map pe_index (dp_entries plan) = map fst (map (\<lambda>p. (pe_index p, pe_epid p, pe_aid p, pe_cid p)) (dp_entries plan))"
    by simp
  also have "\<dots> = [7, 9]" unfolding e by simp
  finally show ?thesis
    using t i unfolding res_def es_def[symmetric] by (simp add: evidence_of_def)
qed

end
