(* ===== verification/BTree.thy ===== *)
theory BTree
  imports Prelude "HOL-Library.List_Lexorder" "HOL-Library.Char_ord"
begin

section \<open>Ordered maps and sets of the standard library\<close>

text \<open>
  A \<open>BTreeMap\<close> is the list of its bindings in ascending key order, a \<open>BTreeSet\<close> its elements in ascending
  order; strings are ordered by their bytes. \<open>bt_insert\<close> replaces the value of a present key.
\<close>

fun bt_insert :: "'k::linorder \<Rightarrow> 'v \<Rightarrow> ('k \<times> 'v) list \<Rightarrow> ('k \<times> 'v) list" where
  "bt_insert k v [] = [(k, v)]"
| "bt_insert k v ((k', v') # m) =
     (if k = k' then (k, v) # m
      else if k < k' then (k, v) # (k', v') # m
      else (k', v') # bt_insert k v m)"

definition bt_remove :: "'k \<Rightarrow> ('k \<times> 'v) list \<Rightarrow> ('k \<times> 'v) list" where
  "bt_remove k m = filter (\<lambda>(k', _). k' \<noteq> k) m"

definition bt_collect :: "('k::linorder \<times> 'v) list \<Rightarrow> ('k \<times> 'v) list" where
  \<comment> \<open>\<open>collect\<close>: a later binding of a key replaces an earlier one\<close>
  "bt_collect xs = fold (\<lambda>(k, v). bt_insert k v) xs []"

definition bt_wf :: "('k::linorder \<times> 'v) list \<Rightarrow> bool" where
  "bt_wf m = sorted_wrt (<) (map fst m)"

definition bt_set :: "'a::linorder list \<Rightarrow> 'a list" where
  "bt_set xs = remdups_adj (sort xs)"

lemma map_of_bt_insert [simp]: "map_of (bt_insert k v m) = (map_of m)(k \<mapsto> v)"
  by (induction m) (auto simp: fun_eq_iff)

lemma map_of_bt_remove [simp]: "map_of (bt_remove k m) = (map_of m)(k := None)"
  by (induction m) (auto simp: bt_remove_def fun_eq_iff)

lemma set_fst_bt_insert [simp]: "fst ` set (bt_insert k v m) = insert k (fst ` set m)"
  by (metis dom_map_of_conv_image_fst dom_fun_upd map_of_bt_insert option.distinct(1))

lemma bt_wf_Nil [simp]: "bt_wf []"
  by (simp add: bt_wf_def)

lemma bt_wf_insert: "bt_wf m \<Longrightarrow> bt_wf (bt_insert k v m)"
proof (induction m)
  case (Cons p m)
  obtain k' v' where p: "p = (k', v')" by (cases p)
  have tl: "bt_wf m" "\<forall>x\<in>fst ` set m. k' < x" using Cons.prems by (auto simp: bt_wf_def p)
  show ?case
  proof (cases "k' < k")
    case True
    have "\<forall>x\<in>fst ` set (bt_insert k v m). k' < x" using tl(2) True by simp
    with Cons.IH[OF tl(1)] True show ?thesis by (auto simp: bt_wf_def p)
  next
    case False
    then show ?thesis using Cons.prems tl by (fastforce simp: bt_wf_def p)
  qed
qed (simp add: bt_wf_def)

lemma bt_wf_remove: "bt_wf m \<Longrightarrow> bt_wf (bt_remove k m)"
  unfolding bt_wf_def bt_remove_def by (induction m) (auto simp: image_iff)

lemma bt_wf_filter: "bt_wf m \<Longrightarrow> bt_wf (filter P m)"
  by (simp add: bt_wf_def sorted_wrt_map sorted_wrt_filter)

lemma bt_wf_distinct: "bt_wf m \<Longrightarrow> distinct (map fst m)"
  by (auto simp: bt_wf_def strict_sorted_iff)

lemma fold_bt_insert:
  "map_of (fold (\<lambda>(k, v). bt_insert k v) xs m) = map_of m ++ map_of (rev xs)"
  by (induction xs arbitrary: m) (auto simp: fun_eq_iff map_add_def split: option.splits)

lemma map_of_bt_collect: "map_of (bt_collect xs) = map_of (rev xs)"
  by (simp add: bt_collect_def fold_bt_insert)

lemma bt_wf_collect: "bt_wf (bt_collect xs)"
proof -
  have "bt_wf m \<Longrightarrow> bt_wf (fold (\<lambda>(k, v). bt_insert k v) xs m)" for m :: "('a \<times> 'b) list"
    by (induction xs arbitrary: m) (auto intro: bt_wf_insert)
  then show ?thesis by (simp add: bt_collect_def)
qed

lemma bt_wf_ext:
  assumes "bt_wf m" "bt_wf m'" "map_of m = map_of m'"
  shows "m = m'"
proof -
  have "set m = set m'"
    using assms by (metis bt_wf_distinct map_of_eq_Some_iff subset_antisym subrelI)
  moreover have "inj_on fst (set m)"
    using bt_wf_distinct[OF assms(1)] by (simp add: distinct_map)
  ultimately show ?thesis
    using assms(1,2) unfolding bt_wf_def strict_sorted_iff
    by (intro map_sorted_distinct_set_unique[of fst m m']) (auto simp: distinct_map)
qed

lemma bt_set_spec: "set (bt_set xs) = set xs" "sorted_wrt (<) (bt_set xs)"
proof -
  have "sorted ys \<Longrightarrow> distinct (remdups_adj ys)" for ys :: "'a list"
    by (induction ys rule: remdups_adj.induct) (auto simp: less_le)
  then show "set (bt_set xs) = set xs" "sorted_wrt (<) (bt_set xs)"
    by (simp_all add: bt_set_def strict_sorted_iff sorted_remdups_adj)
qed

lemma bt_collect_set: "distinct (map fst xs) \<Longrightarrow> set (bt_collect xs) = set xs"
proof -
  assume d: "distinct (map fst xs)"
  then have r: "distinct (map fst (rev xs))" by (simp add: rev_map[symmetric])
  have "(k, v) \<in> set (bt_collect xs) \<longleftrightarrow> (k, v) \<in> set xs" for k v
    using map_of_eq_Some_iff[OF bt_wf_distinct[OF bt_wf_collect[of xs]], of k v]
      map_of_eq_Some_iff[OF r, of k v]
    by (simp add: map_of_bt_collect)
  then show ?thesis by auto
qed

lemma bt_wf_set_ext: "bt_wf m \<Longrightarrow> bt_wf m' \<Longrightarrow> set m = set m' \<Longrightarrow> m = m'"
  by (rule bt_wf_ext) (auto intro!: map_of_inject_set[THEN iffD2] bt_wf_distinct)

lemma bt_collect_roundtrip:
  fixes h :: "('k::linorder \<times> 'v) list" and f :: "'k \<Rightarrow> 'l::linorder" and g :: "'l \<Rightarrow> 'k"
  assumes "bt_wf h" "\<And>k. k \<in> fst ` set h \<Longrightarrow> g (f k) = k"
  shows "bt_collect (map (\<lambda>(k, v). (g k, v)) (bt_collect (map (\<lambda>(k, v). (f k, v)) h))) = h"
proof -
  define up where "up = map (\<lambda>(k, v). (f k, v)) h"
  define down where "down = map (\<lambda>(k, v). (g k, v)) (bt_collect up)"
  have d: "distinct (map fst h)" by (rule bt_wf_distinct[OF assms(1)])
  have inj: "inj_on f (fst ` set h)" by (rule inj_on_inverseI[of _ g]) (rule assms(2))
  have mf: "map fst up = map f (map fst h)" by (simp add: up_def case_prod_beta comp_def)
  have dup: "distinct (map fst up)"
    unfolding mf distinct_map[of f] using d inj by simp
  have s1: "set (bt_collect up) = set up" by (rule bt_collect_set[OF dup])
  have id: "(case (case x of (k, v) \<Rightarrow> (f k, v)) of (k, v) \<Rightarrow> (g k, v)) = x" if "x \<in> set h" for x
    using assms(2)[OF imageI[OF that]] by (cases x) simp
  have s2: "set down = set h"
  proof -
    have "set down = (\<lambda>(k, v). (g k, v)) ` set up" by (simp add: down_def s1)
    also have "\<dots> = set h" unfolding up_def set_map image_image using id by simp
    finally show ?thesis .
  qed
  have dk: "distinct (map fst (bt_collect up))" by (rule bt_wf_distinct[OF bt_wf_collect])
  have injg: "inj_on g (fst ` set (bt_collect up))"
  proof (rule inj_on_inverseI[of _ f])
    fix l assume "l \<in> fst ` set (bt_collect up)"
    then have "l \<in> fst ` set up" by (simp add: s1)
    moreover have "fst ` set up = f ` fst ` set h" using arg_cong[OF mf, of set] by (simp only: set_map)
    ultimately obtain k where "k \<in> fst ` set h" "l = f k" by (auto simp del: set_map)
    then show "f (g l) = l" using assms(2) by simp
  qed
  have mg: "map fst down = map g (map fst (bt_collect up))" by (simp add: down_def case_prod_beta comp_def)
  have "distinct (map fst down)"
    unfolding mg distinct_map[of g] using dk injg by simp
  then have "set (bt_collect down) = set h" by (simp add: bt_collect_set s2)
  then have "bt_collect down = h" by (rule bt_wf_set_ext[OF bt_wf_collect assms(1)])
  then show ?thesis by (simp add: down_def up_def)
qed

end
