(* ===== verification/TaskRecord.thy ===== *)
theory TaskRecord
  imports BTree Attempt
begin

section \<open>Task records of the persistent queue (\<open>queue.rs\<close>)\<close>

text \<open>
  The data a queue store keeps for a task, the comparison of a reviewed plan with the current one, the
  counters derived from a grouped attempt, and the bookkeeping of a transfer between libraries. Time stamps,
  revisions and generations are 64-bit words. A path is its byte string; the hash function and the URL
  parser of external crates are parameters.
\<close>

subsection \<open>Status\<close>

datatype task_status =
    Received | Preparing | AwaitingSelection | AwaitingConfirmation | AwaitingDuplicateChoice
  | Queued | Running | Verifying | PartiallyCompleted | TInterrupted | TFailed | Cancelled | TCompleted

definition is_unfinished :: "task_status \<Rightarrow> bool" where
  "is_unfinished st = (st \<in> {Received, Preparing, AwaitingSelection, AwaitingConfirmation,
     AwaitingDuplicateChoice, Queued, Running, Verifying, PartiallyCompleted, TInterrupted})"

definition is_history :: "task_status \<Rightarrow> bool" where
  "is_history st = (st \<in> {Cancelled, TCompleted})"

subsection \<open>Plans\<close>

record plan_size =
  ps_subject :: string
  ps_bytes :: u64
  ps_provenance :: string

record hash_manifest =
  hm_file_count :: nat
  hm_sha256 :: string

record group_entry_identity =
  ge_index :: u32
  ge_title :: string
  ge_stable_media_id :: string

datatype collection_directory =
    Untracked
  | MissingDirectory string
  | ExistingDirectory string u64 u64 bool

record plan_snapshot =
  pl_stable_media_ids :: "string list"
  pl_selected_format_ids :: "string list"
  pl_exact_sizes :: "plan_size list"
  pl_approximate_sizes :: "plan_size list"
  pl_resolution_codecs :: "string list"
  pl_title :: "string option"
  pl_media_profile :: "string option"
  pl_publication_namespace :: "string option"
  pl_pgc_season_id :: "u64 option"
  pl_pgc_episode_orders :: "group_entry_identity list"
  pl_resolved_stream_ids :: "string list"
  pl_group_entries :: "group_entry_identity list"
  pl_collection_layout_version :: "u32 option"
  pl_collection_directory :: collection_directory

definition default_plan :: plan_snapshot where
  "default_plan = \<lparr>pl_stable_media_ids = [], pl_selected_format_ids = [], pl_exact_sizes = [],
     pl_approximate_sizes = [], pl_resolution_codecs = [], pl_title = None, pl_media_profile = None,
     pl_publication_namespace = None, pl_pgc_season_id = None, pl_pgc_episode_orders = [],
     pl_resolved_stream_ids = [], pl_group_entries = [], pl_collection_layout_version = None,
     pl_collection_directory = Untracked\<rparr>"

definition episode_numbers :: "group_entry_identity list \<Rightarrow> (string \<times> u32) list" where
  "episode_numbers es = bt_collect (map (\<lambda>e. (ge_stable_media_id e, ge_index e)) es)"

definition blocking_differences :: "plan_snapshot \<Rightarrow> plan_snapshot \<Rightarrow> string list" where
  "blocking_differences self current =
     (if pl_stable_media_ids self \<noteq> pl_stable_media_ids current then [''media identity''] else [])
   @ (if pl_pgc_season_id self \<noteq> None \<and> pl_pgc_season_id self \<noteq> pl_pgc_season_id current
      then [''PGC season identity''] else [])
   @ (if bt_set (pl_resolved_stream_ids self) \<noteq> bt_set (pl_resolved_stream_ids current)
      then [''resolved stream availability''] else [])
   @ (let previous_pgc = episode_numbers (pl_pgc_episode_orders self);
          current_pgc = episode_numbers (pl_pgc_episode_orders current)
      in if episode_numbers (pl_group_entries self) \<noteq> episode_numbers (pl_group_entries current)
            \<or> (previous_pgc \<noteq> [] \<and> previous_pgc \<noteq> current_pgc)
         then [''episode numbering''] else [])
   @ (if pl_selected_format_ids self \<noteq> pl_selected_format_ids current then [''selected format''] else [])
   @ (if pl_exact_sizes self \<noteq> pl_exact_sizes current then [''exact size''] else [])
   @ (if pl_resolution_codecs self \<noteq> pl_resolution_codecs current then [''media properties''] else [])
   @ (if pl_media_profile self \<noteq> pl_media_profile current then [''download requirements''] else [])
   @ (if pl_collection_directory self \<noteq> pl_collection_directory current
      then [''collection output directory''] else [])
   @ (if pl_collection_layout_version self \<noteq> pl_collection_layout_version current
      then [''collection output layout''] else [])"

definition has_media_id_prefix :: "string \<Rightarrow> string \<Rightarrow> bool" where
  "has_media_id_prefix value media_id =
     (starts_with value media_id \<and> starts_with (drop (length media_id) value) '':'')"

definition media_requirements_match_for :: "plan_snapshot \<Rightarrow> plan_snapshot \<Rightarrow> string \<Rightarrow> bool" where
  "media_requirements_match_for self current media_id =
     (let of_id = (\<lambda>value. has_media_id_prefix value media_id);
          previous_streams_resolved = list_ex (\<lambda>i. i = media_id) (pl_resolved_stream_ids self);
          current_streams_resolved = list_ex (\<lambda>i. i = media_id) (pl_resolved_stream_ids current);
          previous_has_stream_evidence =
            (list_ex of_id (pl_selected_format_ids self)
             \<or> list_ex (\<lambda>v. of_id (ps_subject v)) (pl_exact_sizes self)
             \<or> list_ex of_id (pl_resolution_codecs self));
          newly_resolved_without_old_evidence =
            (\<not> previous_streams_resolved \<and> current_streams_resolved \<and> \<not> previous_has_stream_evidence);
          stream_details_match =
            (newly_resolved_without_old_evidence
             \<or> (filter of_id (pl_selected_format_ids self) = filter of_id (pl_selected_format_ids current)
                \<and> filter (\<lambda>v. of_id (ps_subject v)) (pl_exact_sizes self)
                    = filter (\<lambda>v. of_id (ps_subject v)) (pl_exact_sizes current)
                \<and> filter of_id (pl_resolution_codecs self) = filter of_id (pl_resolution_codecs current)))
      in (\<not> previous_streams_resolved \<or> current_streams_resolved)
         \<and> pl_media_profile self = pl_media_profile current
         \<and> stream_details_match)"

subsection \<open>Jobs, destinations and transfers\<close>

datatype bilibili_selection = SelCurrent | SelLatest | SelAll | SelMissing | SelPage u32 | SelCurrentPage u32

datatype job_request =
    BilibiliJob string "bilibili_selection option"
  | YoutubeJob string
  | PdfJob string

fun job_url :: "job_request \<Rightarrow> string" where
  "job_url (BilibiliJob url _) = url"
| "job_url (YoutubeJob url) = url"
| "job_url (PdfJob url) = url"

record task_destination =
  td_library_id :: string
  td_root :: string
  td_category :: "string option"

record task_transfer =
  tt_transfer_id :: string
  tt_migration_id :: string
  tt_task_id :: string
  tt_started_generation :: u64
  tt_generation :: u64
  tt_revision :: u64
  tt_source :: task_destination
  tt_target :: task_destination
  tt_previous_status :: task_status
  tt_previous_error :: "string option"
  tt_previous_cancel_requested :: bool
  tt_pause_generation :: "u64 option"
  tt_plan_fingerprint :: "string option"

datatype transfer_phase = Copying | TargetInstalled

subsection \<open>The record\<close>

record task_record =
  tr_id :: string
  tr_update_id :: i64
  tr_message_id :: i64
  tr_status_message_id :: "i64 option"
  tr_chat_id :: i64
  tr_submitter_user_id :: "i64 option"
  tr_ordinal :: nat
  tr_original_url :: string
  tr_url_was_sanitized :: bool
  tr_job :: job_request
  tr_destination :: "task_destination option"
  tr_transfer :: "task_transfer option"
  tr_transfer_phase :: "transfer_phase option"
  tr_transfer_ack :: "task_transfer option"
  tr_status :: task_status
  tr_cancel_requested :: bool
  tr_plan :: "plan_snapshot option"
  tr_proposed_plan :: "plan_snapshot option"
  tr_display_metadata :: "plan_snapshot option"
  tr_saved_location :: "string option"
  tr_media_hashes :: hash_map
  tr_hash_manifest :: "hash_manifest option"
  tr_staging_attempts :: "string list"
  tr_entries_total :: nat
  tr_entries_completed :: nat
  tr_entries_failed :: nat
  tr_attempt :: "attempt_snapshot option"
  tr_error :: "string option"
  tr_created_at :: u64
  tr_updated_at :: u64
  tr_revision :: u64
  tr_generation :: u64
  tr_activity_revision :: u64
  tr_user_actions :: u64

definition new_task_record ::
  "u64 \<Rightarrow> string \<Rightarrow> i64 \<Rightarrow> i64 \<Rightarrow> i64 \<Rightarrow> i64 option \<Rightarrow> nat \<Rightarrow> job_request \<Rightarrow> task_record" where
  "new_task_record now task_id update_id message_id chat_id submitter ordinal job =
     \<lparr>tr_id = task_id, tr_update_id = update_id, tr_message_id = message_id, tr_status_message_id = None,
      tr_chat_id = chat_id, tr_submitter_user_id = submitter, tr_ordinal = ordinal,
      tr_original_url = job_url job, tr_url_was_sanitized = False, tr_job = job, tr_destination = None,
      tr_transfer = None, tr_transfer_phase = None, tr_transfer_ack = None, tr_status = Received,
      tr_cancel_requested = False, tr_plan = None, tr_proposed_plan = None, tr_display_metadata = None,
      tr_saved_location = None, tr_media_hashes = [], tr_hash_manifest = None, tr_staging_attempts = [],
      tr_entries_total = 1, tr_entries_completed = 0, tr_entries_failed = 0, tr_attempt = None,
      tr_error = None, tr_created_at = now, tr_updated_at = now, tr_revision = 1, tr_generation = 0,
      tr_activity_revision = 0, tr_user_actions = 0\<rparr>"

subsection \<open>The publication namespace\<close>

definition be_bytes :: "nat \<Rightarrow> nat \<Rightarrow> string" where
  \<comment> \<open>the \<open>n\<close> bytes of a number, most significant first (\<open>to_be_bytes\<close>)\<close>
  "be_bytes n v = map (\<lambda>k. char_of (v div 256 ^ (n - Suc k))) [0..<n]"

definition i64_bits :: "i64 \<Rightarrow> nat" where
  \<comment> \<open>the two's complement pattern of a 64-bit integer\<close>
  "i64_bits i = nat (i mod 2 ^ 64)"

definition namespace_preimage :: "string \<Rightarrow> i64 \<Rightarrow> u64 \<Rightarrow> string" where
  "namespace_preimage task_id chat_id created_at =
     ''bilibili-publication-namespace-v1'' @ [CHR 0x00] @ be_bytes 8 (length task_id) @ task_id
     @ be_bytes 8 (i64_bits chat_id) @ be_bytes 8 (unat created_at)"

definition bilibili_publication_namespace :: "(string \<Rightarrow> string) \<Rightarrow> task_record \<Rightarrow> string" where
  \<comment> \<open>the first argument is SHA-256 in hexadecimal\<close>
  "bilibili_publication_namespace sha r =
     ''bpn1-'' @ sha (namespace_preimage (tr_id r) (tr_chat_id r) (tr_created_at r))"

subsection \<open>Counters and receipts\<close>

definition attempt_total :: "attempt_snapshot \<Rightarrow> nat" where
  "attempt_total s = max (if sn_independent_entries s then total_entries s
                          else usat_add (total_entries s) (sn_skipped_entries s)) 1"

definition refresh_attempt_counts :: "task_record \<Rightarrow> task_record" where
  \<comment> \<open>\<open>refresh_bilibili_attempt_counts\<close>\<close>
  "refresh_attempt_counts r = (case tr_attempt r of
      None \<Rightarrow> r
    | Some snapshot \<Rightarrow>
        let snapshot = refresh_independent_skipped_entries snapshot;
            total = attempt_total snapshot;
            verified = count_where (\<lambda>e. ae_state e = Verified) (sn_entries snapshot)
        in r\<lparr>tr_attempt := Some snapshot,
             tr_entries_total := total,
             tr_entries_completed :=
               (if sn_independent_entries snapshot then min verified total
                else min (usat_add (sn_skipped_entries snapshot) verified) total),
             tr_entries_failed := min (failed_entries snapshot) total\<rparr>)"

definition has_verified_output_receipt :: "attempt_entry \<Rightarrow> bool" where
  "has_verified_output_receipt e =
     (ae_state e = Verified \<and> trim (ae_stable_media_id e) \<noteq> [] \<and> ae_media_paths e \<noteq> []
      \<and> ae_media_hashes e \<noteq> []
      \<and> list_all (\<lambda>path. map_of (ae_media_hashes e) path \<noteq> None) (ae_media_paths e))"

type_synonym receipt_key = "u32 \<times> string \<times> (string \<times> string) list"

definition receipt_outputs :: "attempt_entry \<Rightarrow> (string \<times> string) list" where
  \<comment> \<open>the pairs are sorted by path, then hash\<close>
  "receipt_outputs e = sort_key fst (sort_key snd
     (List.map_filter (\<lambda>path. map_option (\<lambda>hash. (path, hash)) (map_of (ae_media_hashes e) path))
       (ae_media_paths e)))"

definition verified_receipt_keys :: "task_record \<Rightarrow> receipt_key list" where
  \<comment> \<open>read as a set\<close>
  "verified_receipt_keys r = (case tr_attempt r of
      None \<Rightarrow> []
    | Some attempt \<Rightarrow>
        map (\<lambda>e. (ae_index e, ae_stable_media_id e, receipt_outputs e))
          (filter has_verified_output_receipt (sn_entries attempt)))"

definition is_stable_published_terminal_record :: "task_record \<Rightarrow> bool" where
  "is_stable_published_terminal_record r =
     (if tr_status r \<notin> {TCompleted, TFailed, Cancelled} \<or> tr_transfer r \<noteq> None
         \<or> tr_transfer_phase r \<noteq> None \<or> tr_transfer_ack r \<noteq> None
         \<or> (case tr_job r of BilibiliJob _ _ \<Rightarrow> False | _ \<Rightarrow> True)
      then False
      else if tr_attempt r \<noteq> None then verified_receipt_keys r \<noteq> []
      else tr_status r = TCompleted \<and> tr_saved_location r \<noteq> None)"

definition is_pgc_metadata_backfill_candidate :: "task_record \<Rightarrow> bool" where
  "is_pgc_metadata_backfill_candidate r =
     (is_stable_published_terminal_record r
      \<and> (case tr_plan r of None \<Rightarrow> False | Some plan \<Rightarrow> pl_pgc_season_id plan = None))"

subsection \<open>Accepting a plan for a grouped attempt\<close>

definition plan_contains :: "plan_snapshot option \<Rightarrow> string \<Rightarrow> bool" where
  "plan_contains previous_plan media_id = (case previous_plan of
      None \<Rightarrow> False
    | Some plan \<Rightarrow> list_ex (\<lambda>i. i = media_id) (pl_stable_media_ids plan)
        \<or> list_ex (\<lambda>e. ge_stable_media_id e = media_id) (pl_group_entries plan))"

definition requirements_match ::
  "plan_snapshot option \<Rightarrow> plan_snapshot \<Rightarrow> attempt_snapshot \<Rightarrow> string \<Rightarrow> bool" where
  "requirements_match previous_plan accepted_plan attempt media_id = (case previous_plan of
      None \<Rightarrow> False
    | Some old_plan \<Rightarrow> pl_media_profile old_plan = sn_media_profile attempt
        \<and> media_requirements_match_for old_plan accepted_plan media_id
        \<and> plan_contains previous_plan media_id)"

definition preserves_verified ::
  "plan_snapshot option \<Rightarrow> plan_snapshot \<Rightarrow> attempt_snapshot \<Rightarrow> string \<Rightarrow> bool" where
  "preserves_verified previous_plan accepted_plan attempt media_id =
     (requirements_match previous_plan accepted_plan attempt media_id
      \<and> (case find (\<lambda>e. ae_stable_media_id e = media_id) (sn_entries attempt) of
           None \<Rightarrow> False
         | Some e \<Rightarrow> ae_state e = Verified \<and> \<not> ae_requires_redownload e))"

definition needs_redownload ::
  "plan_snapshot option \<Rightarrow> plan_snapshot \<Rightarrow> attempt_snapshot \<Rightarrow> string \<Rightarrow> bool" where
  "needs_redownload previous_plan accepted_plan attempt media_id =
     ((plan_contains previous_plan media_id
       \<or> list_ex (\<lambda>e. ae_stable_media_id e = media_id) (sn_entries attempt))
      \<and> (\<not> requirements_match previous_plan accepted_plan attempt media_id
         \<or> (case find (\<lambda>e. ae_stable_media_id e = media_id) (sn_entries attempt) of
              None \<Rightarrow> False | Some e \<Rightarrow> ae_requires_redownload e)))"

definition reconcile_accepted_attempt ::
  "(string \<Rightarrow> string) \<Rightarrow> plan_snapshot option \<Rightarrow> plan_snapshot \<Rightarrow> task_record \<Rightarrow> task_record" where
  "reconcile_accepted_attempt sha previous_plan accepted_plan r = (case tr_attempt r of
      None \<Rightarrow> r
    | Some attempt \<Rightarrow>
        if \<not> sn_independent_entries attempt \<or> pl_group_entries accepted_plan = []
        then r\<lparr>tr_attempt := None, tr_entries_total := 1, tr_entries_completed := 0,
               tr_entries_failed := 0\<rparr>
        else let attempt = attempt\<lparr>sn_publication_namespace := Some
                   (case pl_publication_namespace accepted_plan of
                      Some ns \<Rightarrow> ns | None \<Rightarrow> bilibili_publication_namespace sha r)\<rparr>;
                 ids = map ge_stable_media_id (pl_group_entries accepted_plan);
                 title = (case pl_title accepted_plan of Some t \<Rightarrow> t | None \<Rightarrow> sn_title attempt);
                 entries = map (\<lambda>e. (ge_index e, ge_title e, ge_stable_media_id e))
                             (pl_group_entries accepted_plan);
                 attempt = reconcile_independent_inventory title (pl_media_profile accepted_plan) entries
                   (filter (preserves_verified previous_plan accepted_plan attempt) ids)
                   (filter (needs_redownload previous_plan accepted_plan attempt) ids) attempt
             in refresh_attempt_counts (r\<lparr>tr_attempt := Some attempt\<rparr>))"

subsection \<open>Outcomes\<close>

fun terminal_attempt_outcome :: "task_status \<Rightarrow> attempt_outcome option" where
  "terminal_attempt_outcome TFailed = Some OFailed"
| "terminal_attempt_outcome PartiallyCompleted = Some OPartiallyCompleted"
| "terminal_attempt_outcome Cancelled = Some OCancelled"
| "terminal_attempt_outcome TCompleted = Some OVerified"
| "terminal_attempt_outcome TInterrupted = Some OInterrupted"
| "terminal_attempt_outcome _ = None"

definition finish_attempt :: "attempt_outcome \<Rightarrow> task_record \<Rightarrow> task_record" where
  "finish_attempt outcome r = (case tr_attempt r of
      None \<Rightarrow> r
    | Some snapshot \<Rightarrow> refresh_attempt_counts (r\<lparr>tr_attempt := Some (finish outcome snapshot)\<rparr>))"

definition stamp_publication_namespace ::
  "(string \<Rightarrow> string) \<Rightarrow> task_record \<Rightarrow> attempt_snapshot \<Rightarrow> attempt_snapshot" where
  "stamp_publication_namespace sha r snapshot =
     (if sn_independent_entries snapshot
      then snapshot\<lparr>sn_publication_namespace := Some
             (case Option.bind (tr_plan r) pl_publication_namespace of
                Some ns \<Rightarrow> ns | None \<Rightarrow> bilibili_publication_namespace sha r)\<rparr>
      else snapshot)"

subsection \<open>Transfers\<close>

definition transfer_or_ack_pending :: "task_record \<Rightarrow> bool" where
  \<comment> \<open>\<open>task_transfer_or_final_ack_pending\<close>\<close>
  "transfer_or_ack_pending r = (tr_transfer r \<noteq> None \<or> tr_transfer_ack r \<noteq> None)"

definition ensure_transfer_not_pending :: "task_record \<Rightarrow> string + unit" where
  \<comment> \<open>\<open>ensure_task_transfer_not_pending\<close>\<close>
  "ensure_transfer_not_pending r = (case tr_transfer r of
      Some transfer \<Rightarrow> Inl (''task '' @ tr_id r @ '' is reserved by media migration ''
        @ tt_migration_id transfer @ ''; finish or stop that migration first'')
    | None \<Rightarrow> (case tr_transfer_ack r of
        Some transfer \<Rightarrow> Inl (''task '' @ tr_id r
          @ '' is awaiting durable handoff finalization for media migration '' @ tt_migration_id transfer)
      | None \<Rightarrow> Inr ()))"

definition restore_after_task_transfer :: "task_transfer \<Rightarrow> task_record \<Rightarrow> task_record" where
  "restore_after_task_transfer transfer r =
     (let r = (if tt_pause_generation transfer \<noteq> None
                  \<and> tt_previous_status transfer \<in> {Preparing, Running, Verifying}
               then r\<lparr>tr_status := Queued, tr_error := tt_previous_error transfer,
                      tr_cancel_requested := False\<rparr>
               else r\<lparr>tr_status := tt_previous_status transfer, tr_error := tt_previous_error transfer,
                      tr_cancel_requested := tt_previous_cancel_requested transfer\<rparr>)
      in r\<lparr>tr_transfer := None, tr_transfer_phase := None\<rparr>)"

subsection \<open>Identifiers, bindings and stored hashes\<close>

definition is_ascii_alphanumeric :: "char \<Rightarrow> bool" where
  "is_ascii_alphanumeric c = (is_ascii_digit c \<or> (65 \<le> byte c \<and> byte c \<le> 90) \<or> (97 \<le> byte c \<and> byte c \<le> 122))"

definition validate_task_id :: "string \<Rightarrow> string + unit" where
  "validate_task_id task_id =
     (if task_id = [] \<or> length task_id > 64
         \<or> \<not> list_all (\<lambda>b. is_ascii_alphanumeric b \<or> b = CHR ''-'') task_id
      then Inl ''invalid persistent task ID'' else Inr ())"

definition validate_library_root_binding_token :: "string \<Rightarrow> string + unit" where
  "validate_library_root_binding_token binding =
     (if length binding \<noteq> 67 \<or> \<not> starts_with binding ''v1:''
         \<or> \<not> list_all (\<lambda>b. is_ascii_digit b \<or> (97 \<le> byte b \<and> byte b \<le> 102)) (drop 3 binding)
      then Inl ''root_binding must be an opaque root identity token'' else Inr ())"

definition MAX_PERSISTED_MEDIA_HASHES :: nat where "MAX_PERSISTED_MEDIA_HASHES = 128"
definition MAX_PERSISTED_MEDIA_HASH_BYTES :: nat where "MAX_PERSISTED_MEDIA_HASH_BYTES = 256 * 1024"

definition manifest_preimage :: "hash_map \<Rightarrow> string" where
  "manifest_preimage hashes =
     ''telegram-video-downloader-primary-media-manifest-v1'' @ [CHR 0x00]
     @ concat (map (\<lambda>(path, digest). be_bytes 8 (length path) @ path @ be_bytes 8 (length digest) @ digest)
                hashes)"

definition persist_media_hashes ::
  "(string \<Rightarrow> string) \<Rightarrow> (hash_map \<Rightarrow> nat) \<Rightarrow> hash_map \<Rightarrow> hash_map \<times> hash_manifest option" where
  \<comment> \<open>the second argument is the length of the JSON encoding\<close>
  "persist_media_hashes sha encoded_len hashes =
     (if length hashes \<le> MAX_PERSISTED_MEDIA_HASHES
         \<and> encoded_len hashes \<le> MAX_PERSISTED_MEDIA_HASH_BYTES
      then (hashes, None)
      else ([], Some \<lparr>hm_file_count = length hashes, hm_sha256 = sha (manifest_preimage hashes)\<rparr>))"

subsection \<open>Counters agree with the attempt\<close>

lemma count_where_disjoint:
  assumes "\<And>x. P x \<Longrightarrow> \<not> Q x"
  shows "count_where P xs + count_where Q xs \<le> length xs"
  using assms by (induction xs) (auto simp: count_where_def)

definition counts_ok :: "task_record \<Rightarrow> bool" where
  "counts_ok r = (0 < tr_entries_total r \<and> tr_entries_completed r \<le> tr_entries_total r
     \<and> tr_entries_failed r \<le> tr_entries_total r)"

lemma refresh_attempt_counts_ok: "tr_attempt r \<noteq> None \<or> counts_ok r \<Longrightarrow> counts_ok (refresh_attempt_counts r)"
  by (auto simp: refresh_attempt_counts_def counts_ok_def attempt_total_def Let_def split: option.splits)

lemma refresh_attempt_counts_simps [simp]:
  "tr_status (refresh_attempt_counts r) = tr_status r"
  "tr_generation (refresh_attempt_counts r) = tr_generation r"
  "tr_id (refresh_attempt_counts r) = tr_id r"
  "tr_chat_id (refresh_attempt_counts r) = tr_chat_id r"
  "tr_plan (refresh_attempt_counts r) = tr_plan r"
  "tr_proposed_plan (refresh_attempt_counts r) = tr_proposed_plan r"
  "tr_transfer (refresh_attempt_counts r) = tr_transfer r"
  "tr_transfer_phase (refresh_attempt_counts r) = tr_transfer_phase r"
  "tr_transfer_ack (refresh_attempt_counts r) = tr_transfer_ack r"
  "tr_cancel_requested (refresh_attempt_counts r) = tr_cancel_requested r"
  "tr_revision (refresh_attempt_counts r) = tr_revision r"
  "tr_created_at (refresh_attempt_counts r) = tr_created_at r"
  "tr_user_actions (refresh_attempt_counts r) = tr_user_actions r"
  "tr_error (refresh_attempt_counts r) = tr_error r"
  "tr_saved_location (refresh_attempt_counts r) = tr_saved_location r"
  "tr_media_hashes (refresh_attempt_counts r) = tr_media_hashes r"
  "tr_hash_manifest (refresh_attempt_counts r) = tr_hash_manifest r"
  "tr_attempt (refresh_attempt_counts r) = map_option refresh_independent_skipped_entries (tr_attempt r)"
  by (auto simp: refresh_attempt_counts_def Let_def split: option.splits)

lemma finish_attempt_simps [simp]:
  "tr_status (finish_attempt oc r) = tr_status r"
  "tr_generation (finish_attempt oc r) = tr_generation r"
  "tr_id (finish_attempt oc r) = tr_id r"
  "tr_chat_id (finish_attempt oc r) = tr_chat_id r"
  "tr_plan (finish_attempt oc r) = tr_plan r"
  "tr_proposed_plan (finish_attempt oc r) = tr_proposed_plan r"
  "tr_transfer (finish_attempt oc r) = tr_transfer r"
  "tr_transfer_phase (finish_attempt oc r) = tr_transfer_phase r"
  "tr_transfer_ack (finish_attempt oc r) = tr_transfer_ack r"
  "tr_cancel_requested (finish_attempt oc r) = tr_cancel_requested r"
  "tr_revision (finish_attempt oc r) = tr_revision r"
  "tr_created_at (finish_attempt oc r) = tr_created_at r"
  "tr_user_actions (finish_attempt oc r) = tr_user_actions r"
  "tr_saved_location (finish_attempt oc r) = tr_saved_location r"
  "tr_media_hashes (finish_attempt oc r) = tr_media_hashes r"
  "tr_attempt (finish_attempt oc r)
     = map_option (\<lambda>s. refresh_independent_skipped_entries (finish oc s)) (tr_attempt r)"
  by (auto simp: finish_attempt_def split: option.splits)

lemma finish_attempt_counts_ok: "counts_ok r \<Longrightarrow> counts_ok (finish_attempt oc r)"
  by (auto simp: finish_attempt_def intro: refresh_attempt_counts_ok split: option.splits)

text \<open>
  C36: The counters shown for a task with an attempt are consistent: the total is positive, completed and
  failed entries never exceed it, not even together (while no counter saturates), a grouped task counts
  exactly its verified entries as completed, and it is complete in full only when every entry is verified.
\<close>

theorem refresh_counts_consistent:
  assumes "tr_attempt r = Some s"
    and "length (sn_entries s) + sn_skipped_entries s \<le> usize_max"
  shows "let r' = refresh_attempt_counts r in
      0 < tr_entries_total r'
    \<and> tr_entries_completed r' + tr_entries_failed r' \<le> tr_entries_total r'
    \<and> (sn_independent_entries s \<longrightarrow>
         tr_entries_completed r' = verified_entries s
       \<and> tr_entries_failed r' = failed_entries s
       \<and> (sn_entries s \<noteq> [] \<longrightarrow>
            (tr_entries_completed r' = tr_entries_total r')
              = list_all (\<lambda>e. ae_state e = Verified) (sn_entries s)))"
proof -
  define v where "v = count_where (\<lambda>e. ae_state e = Verified) (sn_entries s)"
  define f where "f = count_where (\<lambda>e. ae_state e = Failed) (sn_entries s)"
  define n where "n = length (sn_entries s)"
  have vf: "v + f \<le> n" unfolding v_def f_def n_def by (rule count_where_disjoint) simp
  have all: "v = n \<longleftrightarrow> list_all (\<lambda>e. ae_state e = Verified) (sn_entries s)"
    unfolding v_def n_def by (simp add: count_where_all_iff list_all_iff)
  have sk: "usat_add n (sn_skipped_entries s) = n + sn_skipped_entries s"
    "usat_add (sn_skipped_entries s) v = sn_skipped_entries s + v"
    using assms(2) vf by (simp_all add: usat_add_exact n_def)
  show ?thesis
    using vf all sk assms(1)
    by (simp add: refresh_attempt_counts_def Let_def attempt_total_def total_entries_def failed_entries_def
        verified_entries_def count_state_def v_def[symmetric] f_def[symmetric] n_def[symmetric])
      (auto simp: refresh_independent_skipped_entries_def min_def max_def n_def le_Suc_eq)
qed

subsection \<open>The publication namespace identifies the task\<close>

lemma length_be_bytes [simp]: "length (be_bytes n v) = n"
  by (simp add: be_bytes_def)

lemma be_bytes_Suc: "be_bytes (Suc n) v = be_bytes n (v div 256) @ [char_of v]"
proof -
  have "v div 256 ^ (n - k) = v div 256 div 256 ^ (n - Suc k)" if "k < n" for k
  proof -
    have "n - k = Suc (n - Suc k)" using that by simp
    then show ?thesis by (simp add: div_mult2_eq)
  qed
  then show ?thesis by (simp add: be_bytes_def)
qed

lemma be_bytes_inj: "be_bytes n v = be_bytes n w \<Longrightarrow> v < 256 ^ n \<Longrightarrow> w < 256 ^ n \<Longrightarrow> v = w"
proof (induction n arbitrary: v w)
  case (Suc n)
  have "be_bytes n (v div 256) = be_bytes n (w div 256)" "char_of v = (char_of w :: char)"
    using Suc.prems(1) by (simp_all add: be_bytes_Suc)
  moreover have "v div 256 < 256 ^ n" "w div 256 < 256 ^ n"
    using Suc.prems(2,3) by (simp_all add: less_mult_imp_div_less mult.commute)
  ultimately have "v div 256 = w div 256" "v mod 256 = w mod 256"
    using Suc.IH char_of_eq_iff[of v "char_of w"] by (simp_all add: of_char_of)
  then show ?case by (metis div_mult_mod_eq)
qed simp

lemma i64_bits_inj:
  "- (2 ^ 63) \<le> i \<Longrightarrow> i < 2 ^ 63 \<Longrightarrow> - (2 ^ 63) \<le> j \<Longrightarrow> j < 2 ^ 63 \<Longrightarrow> i64_bits i = i64_bits j \<Longrightarrow> i = j"
  unfolding i64_bits_def by (simp add: nat_eq_iff2 split: if_splits) (smt (verit) mod_pos_pos_trivial mod_add_self2)

text \<open>
  The bytes that are hashed into a task's publication namespace determine its id, chat and creation
  time: two tasks that differ in one of them never hash the same bytes, so their namespaces coincide only
  by a collision of the hash function.
\<close>

lemma namespace_preimage_injective:
  assumes "length a < 2 ^ 64" "length a' < 2 ^ 64"
    and "- (2 ^ 63) \<le> c" "c < 2 ^ 63" "- (2 ^ 63) \<le> c'" "c' < 2 ^ 63"
    and "namespace_preimage a c t = namespace_preimage a' c' t'"
  shows "a = a' \<and> c = c' \<and> t = t'"
proof -
  have eq: "be_bytes 8 (length a) @ a @ be_bytes 8 (i64_bits c) @ be_bytes 8 (unat t)
      = be_bytes 8 (length a') @ a' @ be_bytes 8 (i64_bits c') @ be_bytes 8 (unat t')"
    using assms(7) by (simp add: namespace_preimage_def)
  then have "be_bytes 8 (length a) = be_bytes 8 (length a')"
    and rest: "a @ be_bytes 8 (i64_bits c) @ be_bytes 8 (unat t)
      = a' @ be_bytes 8 (i64_bits c') @ be_bytes 8 (unat t')" by (simp_all add: append_eq_append_conv)
  then have "length a = length a'" using assms(1,2) by (intro be_bytes_inj[of 8]) simp_all
  with rest have a: "a = a'" and b: "be_bytes 8 (i64_bits c) = be_bytes 8 (i64_bits c')"
    "be_bytes 8 (unat t) = be_bytes 8 (unat t')" by simp_all
  have "i64_bits x < 256 ^ 8" for x unfolding i64_bits_def by (simp add: nat_less_iff)
  then have "i64_bits c = i64_bits c'" using b(1) by (intro be_bytes_inj[of 8])
  then have "c = c'" using assms(3-6) by (intro i64_bits_inj)
  moreover have "unat x < 256 ^ 8" for x :: u64 using unsigned_less[of x] by simp
  then have "unat t = unat t'" using b(2) by (intro be_bytes_inj[of 8])
  ultimately show ?thesis using a by (simp add: word_unat_eq_iff)
qed


lemma namespace_preimage_injective_witness:
  "namespace_preimage ''a1'' (- 5) 7 \<noteq> namespace_preimage ''a1'' (- 6) 7"
  using namespace_preimage_injective[of "''a1''" "''a1''" "- 5" "- 6" 7 7] by auto

theorem refresh_counts_consistent_witness:
  "\<exists>r. tr_attempt r \<noteq> None \<and> tr_entries_completed (refresh_attempt_counts r) = 1
     \<and> tr_entries_completed (refresh_attempt_counts r) + tr_entries_failed (refresh_attempt_counts r) \<le> 2"
proof -
  define s where "s = apply_update UFailed 2 (apply_update (UVerified [''a''] []) 1
             (new_independent ''S'' [(1, ''A'', None), (2, ''B'', None)] 0))"
  define r where "r = (new_task_record 0 ''t'' 0 0 0 None 0 (PdfJob ''u''))\<lparr>tr_attempt := Some s\<rparr>"
  have s: "length (sn_entries s) = 2" "sn_skipped_entries s = 0" "verified_entries s = 1"
    "sn_independent_entries s" "tr_entries_total (refresh_attempt_counts r) = 2"
    unfolding r_def s_def by code_simp+
  have "tr_attempt r = Some s" "length (sn_entries s) + sn_skipped_entries s \<le> usize_max"
    using s by (simp_all add: r_def usize_max_def)
  from refresh_counts_consistent[OF this] s this(1) show ?thesis
    unfolding Let_def by (metis option.distinct(1))
qed

subsection \<open>Plans and receipts\<close>

lemma media_requirements_match_forD:
  assumes "media_requirements_match_for old new i"
  shows "i \<in> set (pl_resolved_stream_ids old) \<Longrightarrow> i \<in> set (pl_resolved_stream_ids new)"
    and "pl_media_profile old = pl_media_profile new"
    and "i \<in> set (pl_resolved_stream_ids old) \<Longrightarrow>
      filter (\<lambda>v. has_media_id_prefix v i) (pl_selected_format_ids old)
        = filter (\<lambda>v. has_media_id_prefix v i) (pl_selected_format_ids new)"
  using assms by (auto simp: media_requirements_match_for_def Let_def list_ex_iff)

lemma bt_set_eq_iff: "bt_set xs = bt_set ys \<longleftrightarrow> set xs = set ys"
  by (metis bt_set_spec sorted_distinct_set_unique strict_sorted_iff)

lemma reconcile_entries_pending:
  "e \<in> set (reconcile_entries pids rids q inventory) \<Longrightarrow> ae_state e \<noteq> Verified
    \<Longrightarrow> ae_state e = Pending \<and> ae_media_paths e = [] \<and> ae_media_hashes e = []"
proof (induction pids rids q inventory rule: reconcile_entries.induct)
  case (2 pids rids q index title media_id rest)
  have "ae_state x = Pending \<and> ae_media_paths x = [] \<and> ae_media_hashes x = []"
    if "x = reconciled_entry pids rids (index, title, media_id) previous" "ae_state x \<noteq> Verified" for x previous
    using that by (cases previous) (auto simp: reconciled_entry_def pending_entry_def Let_def split: if_splits)
  with 2 show ?case by (cases "q media_id") (auto simp: fun_upd_def)
qed simp

text \<open>
  C14: When a new plan is accepted for a grouped attempt, an episode stays verified only when the previous
  plan knew its media id, was made for the attempt's media profile and asks for the same streams under the
  same profile as the new plan, and only by taking over the outputs of an entry that was verified under that
  id and needed no new download; every other episode of the new plan is pending without outputs, and the
  attempt has no outcome. The entries are those of the accepted plan, in order.
\<close>

theorem accepted_plan_keeps_only_matching_receipts:
  assumes "tr_attempt r = Some s" "sn_independent_entries s" "pl_group_entries new \<noteq> []"
  shows "let s' = the (tr_attempt (reconcile_accepted_attempt sha old new r)) in
      tr_attempt (reconcile_accepted_attempt sha old new r) = Some s'
    \<and> map (\<lambda>e. (ae_index e, ae_title e, ae_stable_media_id e)) (sn_entries s')
        = map (\<lambda>e. (ge_index e, ge_title e, ge_stable_media_id e)) (pl_group_entries new)
    \<and> sn_outcome s' = None
    \<and> (\<forall>e\<in>set (sn_entries s').
        if ae_state e = Verified
        then \<exists>plan p. old = Some plan \<and> pl_media_profile plan = sn_media_profile s
               \<and> pl_media_profile plan = pl_media_profile new
               \<and> media_requirements_match_for plan new (ae_stable_media_id e)
               \<and> plan_contains old (ae_stable_media_id e)
               \<and> p \<in> set (sn_entries s) \<and> ae_stable_media_id p = ae_stable_media_id e
               \<and> ae_state p = Verified \<and> \<not> ae_requires_redownload p
               \<and> ae_media_paths e = ae_media_paths p \<and> ae_media_hashes e = ae_media_hashes p
        else ae_state e = Pending \<and> ae_media_paths e = [] \<and> ae_media_hashes e = [])"
proof -
  define ns where "ns = (case pl_publication_namespace new of
                      Some ns \<Rightarrow> ns | None \<Rightarrow> bilibili_publication_namespace sha r)"
  define a where "a = s\<lparr>sn_publication_namespace := Some ns\<rparr>"
  define ids where "ids = map ge_stable_media_id (pl_group_entries new)"
  define s1 where "s1 = reconcile_independent_inventory
      (case pl_title new of Some t \<Rightarrow> t | None \<Rightarrow> sn_title a) (pl_media_profile new)
      (map (\<lambda>e. (ge_index e, ge_title e, ge_stable_media_id e)) (pl_group_entries new))
      (filter (preserves_verified old new a) ids) (filter (needs_redownload old new a) ids) a"
  have rec: "tr_attempt (reconcile_accepted_attempt sha old new r)
      = Some (refresh_independent_skipped_entries s1)"
    unfolding s1_def ids_def a_def ns_def using assms
    by (simp add: reconcile_accepted_attempt_def Let_def)
  have inv: "map (\<lambda>e. (ae_index e, ae_title e, ae_stable_media_id e)) (sn_entries s1)
      = map (\<lambda>e. (ge_index e, ge_title e, ge_stable_media_id e)) (pl_group_entries new)"
    unfolding s1_def
    by (simp add: reconcile_independent_inventory_def Let_def reconcile_entries_identity)
  have oc: "sn_outcome s1 = None"
    by (simp add: s1_def reconcile_independent_inventory_def Let_def)
  have es: "sn_entries a = sn_entries s" "sn_media_profile a = sn_media_profile s" by (simp_all add: a_def)
  have V: "\<exists>plan p. old = Some plan \<and> pl_media_profile plan = sn_media_profile s
               \<and> pl_media_profile plan = pl_media_profile new
               \<and> media_requirements_match_for plan new (ae_stable_media_id e)
               \<and> plan_contains old (ae_stable_media_id e)
               \<and> p \<in> set (sn_entries s) \<and> ae_stable_media_id p = ae_stable_media_id e
               \<and> ae_state p = Verified \<and> \<not> ae_requires_redownload p
               \<and> ae_media_paths e = ae_media_paths p \<and> ae_media_hashes e = ae_media_hashes p"
    if "e \<in> set (sn_entries s1)" "ae_state e = Verified" for e
  proof -
    from that obtain p where p: "p \<in> set (previous_by_id (sn_entries a) (ae_stable_media_id e))"
      "inherits_receipt (filter (preserves_verified old new a) ids) p e"
      unfolding s1_def reconcile_independent_inventory_def Let_def
      by (auto dest!: reconcile_entries_receipts)
    then have "preserves_verified old new a (ae_stable_media_id e)"
      by (simp add: inherits_receipt_def)
    then obtain plan where "old = Some plan" "pl_media_profile plan = sn_media_profile s"
      "media_requirements_match_for plan new (ae_stable_media_id e)" "plan_contains old (ae_stable_media_id e)"
      by (auto simp: preserves_verified_def requirements_match_def es split: option.splits)
    with p show ?thesis
      by (auto simp: previous_by_id_def es inherits_receipt_def media_requirements_match_forD split: if_splits)
  qed
  have P: "ae_state e = Pending \<and> ae_media_paths e = [] \<and> ae_media_hashes e = []"
    if "e \<in> set (sn_entries s1)" "ae_state e \<noteq> Verified" for e
    using that reconcile_entries_pending
    unfolding s1_def reconcile_independent_inventory_def Let_def by auto
  show ?thesis
    using inv oc V P by (simp add: rec)
qed


theorem accepted_plan_keeps_only_matching_receipts_witness:
  "\<exists>old new r s'. tr_attempt (reconcile_accepted_attempt (\<lambda>_. ''h'') (Some old) new r) = Some s'
     \<and> map ae_state (sn_entries s') = [Verified, Pending] \<and> old \<noteq> new
     \<and> (\<exists>p :: attempt_entry. ae_media_paths (sn_entries s' ! 0) = ae_media_paths p \<and> ae_state p = Verified)"
proof -
  define old where "old = default_plan\<lparr>pl_stable_media_ids := [''m1'']\<rparr>"
  define new where "new = default_plan\<lparr>pl_stable_media_ids := [''m1'', ''m2''],
     pl_group_entries := [\<lparr>ge_index = 4, ge_title = ''A'', ge_stable_media_id = ''m1''\<rparr>,
       \<lparr>ge_index = 5, ge_title = ''B'', ge_stable_media_id = ''m2''\<rparr>]\<rparr>"
  define s where "s = apply_update (UVerified [''a''] [(''a'', ''x'')]) 1
             (new_independent ''S'' [(1, ''A'', Some ''m1'')] 0)"
  define r where "r = (new_task_record 0 ''t'' 0 0 0 None 0 (PdfJob ''u''))\<lparr>tr_attempt := Some s\<rparr>"
  have s: "sn_independent_entries s" unfolding s_def by code_simp
  have "case tr_attempt (reconcile_accepted_attempt (\<lambda>_. ''h'') (Some old) new r) of
      None \<Rightarrow> False | Some s' \<Rightarrow> map ae_state (sn_entries s') = [Verified, Pending]"
    unfolding r_def s_def old_def new_def by code_simp
  then obtain s' where s': "tr_attempt (reconcile_accepted_attempt (\<lambda>_. ''h'') (Some old) new r) = Some s'"
    "map ae_state (sn_entries s') = [Verified, Pending]" by (auto split: option.splits)
  then have e: "sn_entries s' ! 0 \<in> set (sn_entries s')" "ae_state (sn_entries s' ! 0) = Verified"
    by (auto simp: map_eq_Cons_conv)
  have pre: "tr_attempt r = Some s" "pl_group_entries new \<noteq> []" and ne: "old \<noteq> new"
    by (simp_all add: r_def new_def old_def default_plan_def)
  note T = accepted_plan_keeps_only_matching_receipts[OF pre(1) s pre(2), of "\<lambda>_. ''h''" "Some old",
    unfolded Let_def s'(1) option.sel, THEN conjunct2, THEN conjunct2, THEN conjunct2, THEN bspec, OF e(1)]
  have "\<exists>p :: attempt_entry. ae_media_paths (sn_entries s' ! 0) = ae_media_paths p \<and> ae_state p = Verified"
    using T[unfolded if_P[OF e(2)]] by blast
  with s' ne show ?thesis
    by (intro exI[of _ old] exI[of _ new] exI[of _ r] exI[of _ s'] conjI)
qed

end
