(* ===== verification/TaskStore.thy ===== *)
theory TaskStore
  imports TaskRecord "HOL-Library.AList" "HOL-Library.Multiset"
begin

section \<open>A durable queue store (\<open>queue.rs\<close>, \<open>DownloadStore\<close>)\<close>

text \<open>
  One library's queue: an index file and one file per task record. Every write replaces or renames one file
  atomically, so a store is a value of the index and of the record files. Writes can fail, and the process
  can die at any of them: \<open>st_faults\<close> says of each coming durable write whether it fails, and an operation
  stops with an error at the first one that does. The encoded sizes of records and of the index (JSON) are
  parameters. The file provider's coordination, the descriptor checks and the lock files are not modelled.
\<close>

subsection \<open>Data\<close>

datatype record_path =
    QueueFile string                \<comment> \<open>\<open>task-<id>.json\<close> in the queue directory\<close>
  | HistoryFile string              \<comment> \<open>\<open>history/task-<id>.json\<close>\<close>
  | SidecarFile string string       \<comment> \<open>a directory of the library, and the id in the sidecar's name\<close>

fun path_owner :: "record_path \<Rightarrow> string" where
  "path_owner (QueueFile i) = i"
| "path_owner (HistoryFile i) = i"
| "path_owner (SidecarFile _ i) = i"

definition in_queue_dir :: "record_path \<Rightarrow> bool" where
  \<comment> \<open>\<open>record_path.parent() == Some(queue_dir)\<close>\<close>
  "in_queue_dir p = (case p of QueueFile _ \<Rightarrow> True | _ \<Rightarrow> False)"

record index_entry =
  ie_chat_id :: i64
  ie_record_path :: record_path
  ie_move_target :: "record_path option"
  ie_revision :: u64
  ie_updated_at :: u64

record chat_activity =
  ca_revision :: u64
  ca_notified_revision :: u64

record store_index =
  ix_tasks :: "(string \<times> index_entry) list"
  ix_activity :: "(i64 \<times> chat_activity) list"

record task_store =
  st_index :: store_index
  st_files :: "(record_path \<times> task_record) list"
  st_other_files :: nat
  st_faults :: "bool list"

record store_codec =
  sc_record_len :: "task_record \<Rightarrow> nat"
  sc_index_len :: "store_index \<Rightarrow> nat"

definition MAX_RECORD_BYTES :: nat where "MAX_RECORD_BYTES = 2 * 1024 * 1024"
definition MAX_INDEX_BYTES :: nat where "MAX_INDEX_BYTES = 16 * 1024 * 1024"
definition MAX_ACTIVE_RECORDS :: nat where "MAX_ACTIVE_RECORDS = 20000"
definition MAX_HISTORY_INDEX_ENTRIES :: nat where "MAX_HISTORY_INDEX_ENTRIES = 10000"

subsection \<open>Actions: results, state and faults\<close>

type_synonym 'a act = "task_store \<Rightarrow> (string + 'a) \<times> task_store"

definition ret :: "'a \<Rightarrow> 'a act" where
  "ret x = (\<lambda>s. (Inr x, s))"

definition bail :: "string \<Rightarrow> 'a act" where
  "bail e = (\<lambda>s. (Inl e, s))"

definition bind_act :: "'a act \<Rightarrow> ('a \<Rightarrow> 'b act) \<Rightarrow> 'b act" where
  "bind_act m f = (\<lambda>s. case m s of (Inl e, s') \<Rightarrow> (Inl e, s') | (Inr x, s') \<Rightarrow> f x s')"

definition lift_result :: "string + 'a \<Rightarrow> 'a act" where
  "lift_result r = (\<lambda>s. (r, s))"

definition pop_fault :: "task_store \<Rightarrow> task_store" where
  "pop_fault s = s\<lparr>st_faults := tl (st_faults s)\<rparr>"

definition next_write_fails :: "task_store \<Rightarrow> bool" where
  "next_write_fails s = (st_faults s \<noteq> [] \<and> hd (st_faults s))"

definition durable :: "(task_store \<Rightarrow> task_store) \<Rightarrow> unit act" where
  \<comment> \<open>one atomic write, which fails when the next fault says so\<close>
  "durable f = (\<lambda>s. if next_write_fails s then (Inl ''I/O error'', pop_fault s)
                    else (Inr (), f (pop_fault s)))"

subsection \<open>The index file\<close>

definition is_history_index_entry :: "index_entry \<Rightarrow> bool" where
  "is_history_index_entry e = (ie_move_target e = None \<and> \<not> in_queue_dir (ie_record_path e))"

definition index_remove :: "string \<Rightarrow> store_index \<Rightarrow> store_index" where
  "index_remove i ix = ix\<lparr>ix_tasks := bt_remove i (ix_tasks ix)\<rparr>"

definition index_insert :: "string \<Rightarrow> index_entry \<Rightarrow> store_index \<Rightarrow> store_index" where
  "index_insert i e ix = ix\<lparr>ix_tasks := bt_insert i e (ix_tasks ix)\<rparr>"

definition index_lookup :: "store_index \<Rightarrow> string \<Rightarrow> index_entry option" where
  "index_lookup ix i = map_of (ix_tasks ix) i"

definition history_by_age :: "store_index \<Rightarrow> string list" where
  \<comment> \<open>the ids of the history entries by \<open>(updated_at, id)\<close>; the bindings are already in id order\<close>
  "history_by_age ix =
     map fst (sort_key (\<lambda>(i, e). ie_updated_at e)
                (filter (\<lambda>(i, e). is_history_index_entry e) (ix_tasks ix)))"

definition prune_history_index :: "store_index \<Rightarrow> store_index" where
  "prune_history_index ix =
     (let history = history_by_age ix;
          excess = length history - MAX_HISTORY_INDEX_ENTRIES
      in fold index_remove (take excess history) ix)"

definition remove_oldest_history_index_entry :: "store_index \<Rightarrow> store_index option" where
  "remove_oldest_history_index_entry ix =
     (case history_by_age ix of [] \<Rightarrow> None | oldest # _ \<Rightarrow> Some (index_remove oldest ix))"

fun remove_oldest_entries :: "nat \<Rightarrow> store_index \<Rightarrow> nat \<times> store_index" where
  \<comment> \<open>the inner loop: up to \<open>n\<close> removals, with the number made\<close>
  "remove_oldest_entries 0 ix = (0, ix)"
| "remove_oldest_entries (Suc n) ix =
     (case remove_oldest_history_index_entry ix of
        None \<Rightarrow> (0, ix)
      | Some ix' \<Rightarrow> (case remove_oldest_entries n ix' of (k, ix'') \<Rightarrow> (Suc k, ix'')))"

lemma history_by_age_in_index:
  "i \<in> set (history_by_age ix) \<Longrightarrow> \<exists>e. (i, e) \<in> set (ix_tasks ix) \<and> is_history_index_entry e"
  by (auto simp: history_by_age_def)

lemma length_bt_remove: "length (bt_remove i m) \<le> length m"
  by (simp add: bt_remove_def)

lemma length_bt_remove_less: "(i, e) \<in> set m \<Longrightarrow> length (bt_remove i m) < length m"
  unfolding bt_remove_def by (rule length_filter_less) auto

lemma remove_oldest_less:
  "remove_oldest_history_index_entry ix = Some ix' \<Longrightarrow> length (ix_tasks ix') < length (ix_tasks ix)"
proof -
  assume "remove_oldest_history_index_entry ix = Some ix'"
  then obtain i rest where i: "history_by_age ix = i # rest" "ix' = index_remove i ix"
    by (auto simp: remove_oldest_history_index_entry_def split: list.splits)
  then obtain e where "(i, e) \<in> set (ix_tasks ix)"
    using history_by_age_in_index[of i ix] by auto
  with i(2) show ?thesis by (simp add: index_remove_def length_bt_remove_less)
qed

lemma remove_oldest_entries_le:
  "remove_oldest_entries n ix = (k, ix') \<Longrightarrow> length (ix_tasks ix') + k \<le> length (ix_tasks ix)"
  by (induction n ix arbitrary: k ix' rule: remove_oldest_entries.induct)
    (fastforce split: option.splits prod.splits dest: remove_oldest_less)+

function shrink_index :: "store_codec \<Rightarrow> store_index \<Rightarrow> string + store_index" where
  \<comment> \<open>\<open>while bytes.len() > MAX_INDEX_BYTES\<close>\<close>
  "shrink_index cd ix =
     (let bytes = sc_index_len cd ix in
      if bytes \<le> MAX_INDEX_BYTES then Inr ix
      else let average_entry_bytes = bytes div max (length (ix_tasks ix)) 1;
               excess_bytes = bytes - MAX_INDEX_BYTES;
               remove_count = max (excess_bytes div max average_entry_bytes 1 + 1) 1
           in case remove_oldest_entries remove_count ix of
                (0, _) \<Rightarrow> Inl ''task queue index exceeds its size limit''
              | (Suc _, ix') \<Rightarrow> shrink_index cd ix')"
  by pat_completeness auto
termination
  by (relation "measure (\<lambda>(_, ix). length (ix_tasks ix))")
    (auto simp del: remove_oldest_entries.simps dest!: remove_oldest_entries_le[OF sym])

declare shrink_index.simps [simp del]

definition write_index :: "store_codec \<Rightarrow> store_index \<Rightarrow> unit act" where
  "write_index cd ix =
     bind_act (lift_result (shrink_index cd (prune_history_index ix)))
       (\<lambda>ix'. durable (\<lambda>s. s\<lparr>st_index := ix'\<rparr>))"

subsection \<open>Record files\<close>

definition read_record :: "task_store \<Rightarrow> record_path \<Rightarrow> task_record option" where
  "read_record s p = map_of (st_files s) p"

definition put_file :: "record_path \<Rightarrow> task_record \<Rightarrow> task_store \<Rightarrow> task_store" where
  "put_file p r s = s\<lparr>st_files := AList.update p r (st_files s)\<rparr>"

definition remove_file :: "record_path \<Rightarrow> task_store \<Rightarrow> task_store" where
  "remove_file p s = s\<lparr>st_files := AList.delete p (st_files s)\<rparr>"

definition write_record :: "store_codec \<Rightarrow> record_path \<Rightarrow> task_record \<Rightarrow> unit act" where
  "write_record cd p r =
     (if sc_record_len cd r > MAX_RECORD_BYTES
      then bail ''persistent task record exceeds its size limit''
      else durable (put_file p r))"

datatype sidecar_move_status = Moved | AlreadyAtTarget | MissingRecord

definition move_record_to_sidecar :: "string \<Rightarrow> record_path \<Rightarrow> record_path \<Rightarrow> sidecar_move_status act" where
  "move_record_to_sidecar task_id source target = (\<lambda>s.
     let src = read_record s source; tgt = read_record s target;
         mismatch = ''sidecar recovery found a mismatched task ID'' in
     if (case src of None \<Rightarrow> False | Some r \<Rightarrow> tr_id r \<noteq> task_id) then (Inl mismatch, s)
     else if (case tgt of None \<Rightarrow> False | Some r \<Rightarrow> tr_id r \<noteq> task_id) then (Inl mismatch, s)
     else case (src, tgt) of
         (Some r, None) \<Rightarrow>
           bind_act (durable (\<lambda>s. remove_file source (put_file target r s))) (\<lambda>_. ret Moved) s
       | (Some _, Some _) \<Rightarrow> bind_act (durable (remove_file source)) (\<lambda>_. ret AlreadyAtTarget) s
       | (None, Some _) \<Rightarrow> (Inr AlreadyAtTarget, s)
       | (None, None) \<Rightarrow> (Inr MissingRecord, s))"

subsection \<open>Lookups and reconciliation\<close>

definition activity_of :: "store_index \<Rightarrow> i64 \<Rightarrow> chat_activity" where
  \<comment> \<open>\<open>entry(chat).or_default()\<close>\<close>
  "activity_of ix chat = (case map_of (ix_activity ix) chat of
      Some a \<Rightarrow> a | None \<Rightarrow> \<lparr>ca_revision = 0, ca_notified_revision = 0\<rparr>)"

definition bump_chat_activity :: "store_index \<Rightarrow> i64 \<Rightarrow> u64 \<times> store_index" where
  "bump_chat_activity ix chat =
     (let a = activity_of ix chat; revn = saturating_add (ca_revision a) 1
      in (revn, ix\<lparr>ix_activity := bt_insert chat (a\<lparr>ca_revision := revn\<rparr>) (ix_activity ix)\<rparr>))"

definition raise_chat_activity :: "store_index \<Rightarrow> task_record \<Rightarrow> store_index" where
  "raise_chat_activity ix r =
     (let a = activity_of ix (tr_chat_id r)
      in ix\<lparr>ix_activity := bt_insert (tr_chat_id r)
              (a\<lparr>ca_revision := max (ca_revision a) (tr_activity_revision r)\<rparr>) (ix_activity ix)\<rparr>)"

definition mismatched_record :: "string \<Rightarrow> string" where
  "mismatched_record task_id = ''task index points to a mismatched record for task '' @ task_id"

fun scan_records :: "bool \<Rightarrow> (record_path \<times> task_record) list \<Rightarrow> store_index \<Rightarrow> string + store_index" where
  \<comment> \<open>the loop of \<open>scan_active_records\<close> over the files of the queue directory\<close>
  "scan_records reconcile [] ix = Inr ix"
| "scan_records reconcile ((p, r) # files) ix =
     (case p of
        QueueFile i \<Rightarrow>
          (case validate_task_id i of Inl e \<Rightarrow> Inl e | Inr _ \<Rightarrow>
           (case index_lookup ix i of
             Some entry \<Rightarrow>
               if reconcile \<and> ie_record_path entry = p \<and> ie_move_target entry = None
               then if tr_id r \<noteq> i \<or> tr_chat_id r \<noteq> ie_chat_id entry then Inl (mismatched_record i)
                    else scan_records reconcile files
                           (raise_chat_activity (index_insert i
                             (entry\<lparr>ie_revision := tr_revision r, ie_updated_at := tr_updated_at r,
                                ie_move_target := (if is_history (tr_status r)
                                                   then Some (HistoryFile (tr_id r))
                                                   else ie_move_target entry)\<rparr>) ix) r)
               else scan_records reconcile files ix
           | None \<Rightarrow>
               if tr_id r \<noteq> i then Inl ''orphan task filename and record ID disagree''
               else scan_records reconcile files
                      (raise_chat_activity (index_insert i
                        \<lparr>ie_chat_id = tr_chat_id r, ie_record_path = p, ie_move_target = None,
                         ie_revision = tr_revision r, ie_updated_at = tr_updated_at r\<rparr> ix) r)))
      | _ \<Rightarrow> scan_records reconcile files ix)"

definition scan_active_records :: "bool \<Rightarrow> store_index \<Rightarrow> task_store \<Rightarrow> string + store_index" where
  "scan_active_records reconcile ix s =
     (let queue_files = filter (\<lambda>(p, _). in_queue_dir p) (st_files s) in
      if length queue_files + st_other_files s > MAX_ACTIVE_RECORDS
      then Inl ''task queue contains more than 20000 entries''
      else scan_records reconcile queue_files ix)"

fun reconcile_moves :: "(string \<times> index_entry) list \<Rightarrow> (string \<times> index_entry) list act" where
  \<comment> \<open>the loop of \<open>reconcile_move_targets\<close>\<close>
  "reconcile_moves [] = ret []"
| "reconcile_moves ((i, entry) # es) =
     (case ie_move_target entry of
        None \<Rightarrow> bind_act (reconcile_moves es) (\<lambda>es'. ret ((i, entry) # es'))
      | Some target \<Rightarrow>
          bind_act (move_record_to_sidecar i (ie_record_path entry) target) (\<lambda>status.
            let entry' = (if status = MissingRecord then entry
                          else entry\<lparr>ie_record_path := target, ie_move_target := None\<rparr>)
            in bind_act (reconcile_moves es) (\<lambda>es'. ret ((i, entry') # es'))))"

definition reconcile_move_targets :: "store_index \<Rightarrow> store_index act" where
  "reconcile_move_targets ix =
     bind_act (reconcile_moves (ix_tasks ix)) (\<lambda>tasks. ret (ix\<lparr>ix_tasks := tasks\<rparr>))"

definition refreshed_index :: "store_codec \<Rightarrow> store_index act" where
  \<comment> \<open>the common head of \<open>get_task\<close> and \<open>list_records\<close>\<close>
  "refreshed_index cd = (\<lambda>s.
     let original = st_index s in
     bind_act (lift_result (scan_active_records False original s)) (\<lambda>ix.
       bind_act (reconcile_move_targets ix) (\<lambda>ix'.
         if ix' \<noteq> original then bind_act (write_index cd ix') (\<lambda>_. ret ix') else ret ix')) s)"

definition checked_record :: "string \<Rightarrow> index_entry \<Rightarrow> task_record \<Rightarrow> string + task_record" where
  "checked_record i entry r =
     (if tr_id r \<noteq> i \<or> tr_chat_id r \<noteq> ie_chat_id entry then Inl (mismatched_record i) else Inr r)"

definition get_task :: "store_codec \<Rightarrow> string \<Rightarrow> (task_record \<times> index_entry) option act" where
  "get_task cd i =
     bind_act (refreshed_index cd) (\<lambda>ix s.
       case index_lookup ix i of
         None \<Rightarrow> (Inr None, s)
       | Some entry \<Rightarrow>
           (case read_record s (ie_record_path entry) of
              None \<Rightarrow> (Inr None, s)
            | Some r \<Rightarrow> (case checked_record i entry r of
                Inl e \<Rightarrow> (Inl e, s) | Inr r \<Rightarrow> (Inr (Some (r, entry)), s))))"

fun collect_records :: "task_store \<Rightarrow> (string \<times> index_entry) list \<Rightarrow> string + task_record list" where
  "collect_records s [] = Inr []"
| "collect_records s ((i, entry) # es) =
     (case read_record s (ie_record_path entry) of
        None \<Rightarrow> collect_records s es
      | Some r \<Rightarrow> (case checked_record i entry r of
          Inl e \<Rightarrow> Inl e
        | Inr r \<Rightarrow> (case collect_records s es of Inl e \<Rightarrow> Inl e | Inr rs \<Rightarrow> Inr (r # rs))))"

definition list_records :: "store_codec \<Rightarrow> task_record list act" where
  "list_records cd = bind_act (refreshed_index cd) (\<lambda>ix s. (collect_records s (ix_tasks ix), s))"

definition peek_task :: "string \<Rightarrow> task_store \<Rightarrow> string + (task_record \<times> index_entry) option" where
  "peek_task i s = (case index_lookup (st_index s) i of
      None \<Rightarrow> Inr None
    | Some entry \<Rightarrow>
        let paths = ie_record_path entry # (case ie_move_target entry of None \<Rightarrow> [] | Some t \<Rightarrow> [t]) in
        (case find (\<lambda>p. read_record s p \<noteq> None) paths of
           None \<Rightarrow> Inl (''task index points to missing records for task '' @ i)
         | Some p \<Rightarrow> (case checked_record i entry (the (read_record s p)) of
             Inl e \<Rightarrow> Inl e | Inr r \<Rightarrow> Inr (Some (r, entry)))))"

definition reconcile_index :: "store_codec \<Rightarrow> unit act" where
  "reconcile_index cd = (\<lambda>s.
     let original = st_index s in
     bind_act (lift_result (scan_active_records True original s)) (\<lambda>ix.
       bind_act (if ix \<noteq> original then write_index cd ix else ret ()) (\<lambda>_.
         bind_act (reconcile_move_targets ix) (\<lambda>ix'. write_index cd ix'))) s)"

subsection \<open>Changing records\<close>

definition create_task :: "store_codec \<Rightarrow> task_record \<Rightarrow> task_record act" where
  \<comment> \<open>returns the task as the caller sees it afterwards\<close>
  "create_task cd task = (\<lambda>s.
     let ix = st_index s in
     if index_lookup ix (tr_id task) \<noteq> None then (Inr task, s)
     else case bump_chat_activity ix (tr_chat_id task) of (revn, ix) \<Rightarrow>
       let task = task\<lparr>tr_activity_revision := revn\<rparr> in
       case validate_task_id (tr_id task) of
         Inl e \<Rightarrow> (Inl e, s)
       | Inr _ \<Rightarrow>
           bind_act (write_record cd (QueueFile (tr_id task)) task) (\<lambda>_.
             bind_act (write_index cd (index_insert (tr_id task)
                 \<lparr>ie_chat_id = tr_chat_id task, ie_record_path = QueueFile (tr_id task),
                  ie_move_target = None, ie_revision = tr_revision task,
                  ie_updated_at = tr_updated_at task\<rparr> ix)) (\<lambda>_. ret task)) s)"

definition stamped :: "u64 \<Rightarrow> bool \<Rightarrow> store_index \<Rightarrow> task_record \<Rightarrow> task_record \<times> store_index" where
  \<comment> \<open>time, revision and activity of a record about to be saved\<close>
  "stamped now activity ix r =
     (let r = r\<lparr>tr_updated_at := now, tr_revision := saturating_add (tr_revision r) 1\<rparr> in
      if activity
      then case bump_chat_activity ix (tr_chat_id r) of (revn, ix) \<Rightarrow> (r\<lparr>tr_activity_revision := revn\<rparr>, ix)
      else (r, ix))"

definition save_mutated_record ::
  "store_codec \<Rightarrow> u64 \<Rightarrow> task_record \<Rightarrow> index_entry \<Rightarrow> bool \<Rightarrow> task_record act" where
  "save_mutated_record cd now r entry activity = (\<lambda>s.
     case stamped now activity (st_index s) r of (r, ix) \<Rightarrow>
     bind_act (write_record cd (ie_record_path entry) r) (\<lambda>_.
       let entry = entry\<lparr>ie_revision := tr_revision r, ie_updated_at := tr_updated_at r\<rparr> in
       if tr_status r \<in> {Cancelled, TCompleted} \<and> in_queue_dir (ie_record_path entry)
       then bind_act (lift_result (validate_task_id (tr_id r))) (\<lambda>_.
         let destination = HistoryFile (tr_id r);
             entry = entry\<lparr>ie_move_target := Some destination\<rparr>;
             ix = index_insert (tr_id r) entry ix in
         bind_act (write_index cd ix) (\<lambda>_.
           bind_act (move_record_to_sidecar (tr_id r) (ie_record_path entry) destination) (\<lambda>status.
             if status = MissingRecord then bail ''task record disappeared before sidecar migration''
             else bind_act (write_index cd (index_insert (tr_id r)
                    (entry\<lparr>ie_record_path := destination, ie_move_target := None\<rparr>) ix)) (\<lambda>_. ret r))))
       else bind_act (write_index cd (index_insert (tr_id r) entry ix)) (\<lambda>_. ret r)) s)"

definition save_pgc_backfill_record_metadata ::
  "store_codec \<Rightarrow> task_record \<Rightarrow> store_index \<Rightarrow> index_entry \<Rightarrow> task_record act" where
  "save_pgc_backfill_record_metadata cd r ix entry =
     (if index_lookup ix (tr_id r) \<noteq> Some entry \<or> ie_move_target entry \<noteq> None
      then bail ''task index changed before PGC metadata backfill save''
      else let r = r\<lparr>tr_revision := saturating_add (tr_revision r) 1\<rparr> in
        bind_act (write_record cd (ie_record_path entry) r) (\<lambda>_.
          bind_act (write_index cd (index_insert (tr_id r) (entry\<lparr>ie_revision := tr_revision r\<rparr>) ix))
            (\<lambda>_. ret r)))"

definition same_handoff :: "task_transfer \<Rightarrow> task_transfer \<Rightarrow> bool" where
  "same_handoff current transfer =
     (tt_transfer_id current = tt_transfer_id transfer \<and> tt_migration_id current = tt_migration_id transfer
      \<and> tt_source current = tt_source transfer \<and> tt_target current = tt_target transfer)"

definition remove_task_for_transfer :: "store_codec \<Rightarrow> task_transfer \<Rightarrow> unit act" where
  "remove_task_for_transfer cd transfer = (\<lambda>s.
     let ix = st_index s; i = tt_task_id transfer in
     case index_lookup ix i of
       None \<Rightarrow> (Inr (), s)
     | Some entry \<Rightarrow>
         if \<not> in_queue_dir (ie_record_path entry) \<or> ie_move_target entry \<noteq> None
         then (Inl ''task transfer source record is not in the active queue directory'', s)
         else case read_record s (ie_record_path entry) of
           None \<Rightarrow> write_index cd (index_remove i ix) s
         | Some r \<Rightarrow>
             if \<not> (case tr_transfer r of None \<Rightarrow> False | Some current \<Rightarrow> same_handoff current transfer)
                \<or> tr_transfer_phase r = None
             then (Inl ''task transfer source record does not carry the matching handoff token'', s)
             else bind_act (durable (remove_file (ie_record_path entry)))
                    (\<lambda>_. write_index cd (index_remove i ix)) s)"

definition save_index_task :: "store_codec \<Rightarrow> string \<Rightarrow> index_entry \<Rightarrow> unit act" where
  "save_index_task cd i entry = (\<lambda>s. write_index cd (index_insert i entry (st_index s)) s)"

definition mark_notified :: "store_codec \<Rightarrow> i64 \<Rightarrow> unit act" where
  "mark_notified cd chat = (\<lambda>s.
     let ix = st_index s in
     case map_of (ix_activity ix) chat of
       None \<Rightarrow> (Inr (), s)
     | Some a \<Rightarrow> write_index cd (ix\<lparr>ix_activity :=
         bt_insert chat (a\<lparr>ca_notified_revision := ca_revision a\<rparr>) (ix_activity ix)\<rparr>) s)"

subsection \<open>The records a store holds\<close>

definition stored :: "task_store \<Rightarrow> task_record set" where
  "stored s = ran (map_of (st_files s))"

lemma stored_read: "read_record s p = Some r \<Longrightarrow> r \<in> stored s"
  by (auto simp: stored_def read_record_def ran_def)

lemma stored_put: "stored (put_file p r s) \<subseteq> insert r (stored s)"
  by (auto simp: stored_def put_file_def update_conv' ran_def split: if_splits)

lemma stored_remove: "stored (remove_file p s) \<subseteq> stored s"
  by (auto simp: stored_def remove_file_def delete_conv' ran_def)

lemma stored_pop [simp]: "stored (pop_fault s) = stored s"
  by (simp add: stored_def pop_fault_def)

lemma read_pop [simp]: "read_record (pop_fault s) p = read_record s p"
  by (simp add: read_record_def pop_fault_def)

lemma stored_index [simp]: "stored (s\<lparr>st_index := ix\<rparr>) = stored s"
  by (simp add: stored_def)

definition keeps_stored :: "'a act \<Rightarrow> bool" where
  "keeps_stored m = (\<forall>s. stored (snd (m s)) \<subseteq> stored s)"

lemma keeps_stored_snd: "keeps_stored m \<Longrightarrow> stored (snd (m s)) \<subseteq> stored s"
  by (simp add: keeps_stored_def)

lemma keeps_storedD: "keeps_stored m \<Longrightarrow> m s = (r, s') \<Longrightarrow> stored s' \<subseteq> stored s"
  using keeps_stored_snd[of m s] by simp

lemma keeps_stored_bind:
  assumes "keeps_stored m" "\<And>x. keeps_stored (f x)"
  shows "keeps_stored (bind_act m f)"
  unfolding keeps_stored_def
proof
  fix s
  obtain q t where m: "m s = (q, t)" by (cases "m s")
  with assms(1) have t: "stored t \<subseteq> stored s" by (rule keeps_storedD)
  show "stored (snd (bind_act m f s)) \<subseteq> stored s"
    using m t keeps_stored_snd[OF assms(2), of _ t]
    by (cases q) (auto simp: bind_act_def)
qed

lemma keeps_stored_basic:
  "keeps_stored (ret x)" "keeps_stored (bail e)" "keeps_stored (lift_result q)"
  by (auto simp: keeps_stored_def ret_def bail_def lift_result_def)

lemma keeps_stored_durable:
  assumes "\<And>s. stored (f s) \<subseteq> stored s"
  shows "keeps_stored (durable f)"
proof -
  have "stored (f (pop_fault s)) \<subseteq> stored s" for s using assms[of "pop_fault s"] by simp
  then show ?thesis by (simp add: keeps_stored_def durable_def)
qed

lemma keeps_stored_write_index: "keeps_stored (write_index cd ix)"
  unfolding write_index_def
  by (intro keeps_stored_bind keeps_stored_basic keeps_stored_durable) simp

lemma keeps_stored_move: "keeps_stored (move_record_to_sidecar i p q)"
  unfolding keeps_stored_def
proof
  fix s
  have a: "stored (remove_file p (put_file q r (pop_fault s))) \<subseteq> stored s" if "read_record s p = Some r" for r
    using stored_remove[of p "put_file q r (pop_fault s)"] stored_put[of q r "pop_fault s"] stored_read[OF that]
    by auto
  have b: "stored (remove_file p (pop_fault s)) \<subseteq> stored s"
    using stored_remove[of p "pop_fault s"] by simp
  show "stored (snd (move_record_to_sidecar i p q s)) \<subseteq> stored s"
    using a b by (cases "read_record s p"; cases "read_record s q")
      (simp_all add: move_record_to_sidecar_def Let_def bind_act_def durable_def ret_def)
qed

lemma keeps_stored_reconcile_moves: "keeps_stored (reconcile_moves es)"
  by (induction es rule: reconcile_moves.induct)
    (auto intro!: keeps_stored_bind keeps_stored_basic keeps_stored_move simp: Let_def split: option.splits)

lemma keeps_stored_reconcile_move_targets: "keeps_stored (reconcile_move_targets ix)"
  unfolding reconcile_move_targets_def
  by (intro keeps_stored_bind keeps_stored_basic keeps_stored_reconcile_moves)

lemma keeps_stored_if: "keeps_stored a \<Longrightarrow> keeps_stored b \<Longrightarrow> keeps_stored (if c then a else b)"
  by simp

lemma keeps_stored_at: "(\<And>s. keeps_stored (m s)) \<Longrightarrow> keeps_stored (\<lambda>s. m s s)"
  by (auto simp: keeps_stored_def)

lemma keeps_stored_refreshed_index: "keeps_stored (refreshed_index cd)"
  unfolding refreshed_index_def Let_def
  by (rule keeps_stored_at, intro keeps_stored_bind keeps_stored_basic keeps_stored_reconcile_move_targets
      keeps_stored_if keeps_stored_write_index)

lemma keeps_stored_reconcile_index: "keeps_stored (reconcile_index cd)"
  unfolding reconcile_index_def Let_def
  by (rule keeps_stored_at, intro keeps_stored_bind keeps_stored_basic keeps_stored_reconcile_move_targets
      keeps_stored_if keeps_stored_write_index)

lemma keeps_stored_mark_notified: "keeps_stored (mark_notified cd chat)"
  unfolding mark_notified_def Let_def keeps_stored_def
  by (simp add: keeps_stored_snd[OF keeps_stored_write_index] split: option.splits)

lemma keeps_stored_remove_task: "keeps_stored (remove_task_for_transfer cd transfer)"
proof -
  have "keeps_stored (bind_act (durable (remove_file p)) (\<lambda>_. write_index cd ix))" for p ix
    by (intro keeps_stored_bind keeps_stored_write_index keeps_stored_durable stored_remove)
  from keeps_stored_snd[OF this] keeps_stored_snd[OF keeps_stored_write_index] show ?thesis
    unfolding remove_task_for_transfer_def Let_def keeps_stored_def
    by (simp split: option.splits)
qed

lemma get_task_stored:
  assumes "get_task cd i s = (res, s')"
  shows "stored s' \<subseteq> stored s"
    and "res = Inr (Some (r, entry)) \<Longrightarrow> r \<in> stored s \<and> tr_id r = i \<and> tr_chat_id r = ie_chat_id entry
           \<and> read_record s' (ie_record_path entry) = Some r"
proof -
  obtain q t where q: "refreshed_index cd s = (q, t)" by (cases "refreshed_index cd s")
  have t: "stored t \<subseteq> stored s" by (rule keeps_storedD[OF keeps_stored_refreshed_index q])
  have st: "s' = t"
    using assms q by (auto simp: get_task_def bind_act_def split: sum.splits option.splits)
  with t show "stored s' \<subseteq> stored s" by simp
  assume r: "res = Inr (Some (r, entry))"
  with assms q have "read_record t (ie_record_path entry) = Some r" "tr_id r = i"
    "tr_chat_id r = ie_chat_id entry"
    by (auto simp: get_task_def bind_act_def checked_record_def split: sum.splits option.splits if_splits)
  with t st show "r \<in> stored s \<and> tr_id r = i \<and> tr_chat_id r = ie_chat_id entry
      \<and> read_record s' (ie_record_path entry) = Some r"
    by (auto dest: stored_read)
qed

lemma save_mutated_record_stored:
  assumes "save_mutated_record cd now r entry activity s = (res, s')"
  shows "stored s' \<subseteq> insert (fst (stamped now activity (st_index s) r)) (stored s)"
proof -
  obtain r' ix where st: "stamped now activity (st_index s) r = (r', ix)"
    by (cases "stamped now activity (st_index s) r")
  define rest where "rest = (\<lambda>_ :: unit. let entry = entry\<lparr>ie_revision := tr_revision r', ie_updated_at := tr_updated_at r'\<rparr> in
       if tr_status r' \<in> {Cancelled, TCompleted} \<and> in_queue_dir (ie_record_path entry)
       then bind_act (lift_result (validate_task_id (tr_id r'))) (\<lambda>_.
         let destination = HistoryFile (tr_id r');
             entry = entry\<lparr>ie_move_target := Some destination\<rparr>;
             ix = index_insert (tr_id r') entry ix in
         bind_act (write_index cd ix) (\<lambda>_.
           bind_act (move_record_to_sidecar (tr_id r') (ie_record_path entry) destination) (\<lambda>status.
             if status = MissingRecord then bail ''task record disappeared before sidecar migration''
             else bind_act (write_index cd (index_insert (tr_id r')
                    (entry\<lparr>ie_record_path := destination, ie_move_target := None\<rparr>) ix)) (\<lambda>_. ret r'))))
       else bind_act (write_index cd (index_insert (tr_id r') entry ix)) (\<lambda>_. ret r'))"
  have sv: "save_mutated_record cd now r entry activity s
      = bind_act (write_record cd (ie_record_path entry) r') rest s"
    by (simp add: save_mutated_record_def st rest_def)
  have rest: "keeps_stored (rest u)" for u
    unfolding rest_def Let_def
    by (intro keeps_stored_if keeps_stored_bind keeps_stored_basic keeps_stored_write_index keeps_stored_move)
  obtain q t where w: "write_record cd (ie_record_path entry) r' s = (q, t)"
    by (cases "write_record cd (ie_record_path entry) r' s")
  have t: "stored t \<subseteq> insert r' (stored s)"
    using w stored_put[of "ie_record_path entry" r' "pop_fault s"]
    by (auto simp: write_record_def bail_def durable_def split: if_splits)
  show ?thesis
  proof (cases q)
    case (Inl e)
    with assms w sv t st show ?thesis by (simp add: bind_act_def)
  next
    case (Inr x)
    with assms w sv have "rest () t = (res, s')" by (simp add: bind_act_def)
    with keeps_storedD[OF rest this] t st show ?thesis by auto
  qed
qed

subsection \<open>What pruning the index may drop\<close>

definition index_ok :: "store_index \<Rightarrow> bool" where
  "index_ok ix = bt_wf (ix_tasks ix)"

definition prunes_history :: "store_index \<Rightarrow> store_index \<Rightarrow> bool" where
  \<comment> \<open>the second index is the first without some of its history entries\<close>
  "prunes_history ix ix' = (index_ok ix' \<and> ix_activity ix' = ix_activity ix \<and>
     (\<forall>i. index_lookup ix' i = index_lookup ix i
        \<or> (index_lookup ix' i = None
            \<and> (\<exists>e. index_lookup ix i = Some e \<and> is_history_index_entry e))))"

lemma prunes_history_refl: "index_ok ix \<Longrightarrow> prunes_history ix ix"
  by (simp add: prunes_history_def)

lemma prunes_history_trans: "prunes_history a b \<Longrightarrow> prunes_history b c \<Longrightarrow> prunes_history a c"
  unfolding prunes_history_def by metis

lemma prunes_history_lookup:
  "prunes_history ix ix' \<Longrightarrow> index_lookup ix' i = index_lookup ix i
     \<or> (index_lookup ix' i = None \<and> (\<exists>e. index_lookup ix i = Some e \<and> is_history_index_entry e))"
  by (simp add: prunes_history_def)

lemma prunes_history_remove:
  assumes "index_ok ix" "i \<in> set (history_by_age ix)"
  shows "prunes_history ix (index_remove i ix)"
proof -
  obtain e where e: "(i, e) \<in> set (ix_tasks ix)" "is_history_index_entry e"
    using history_by_age_in_index[OF assms(2)] by blast
  with assms(1) have "index_lookup ix i = Some e"
    by (simp add: index_ok_def index_lookup_def bt_wf_distinct)
  with e(2) assms(1) show ?thesis
    by (auto simp: prunes_history_def index_remove_def index_ok_def index_lookup_def bt_wf_remove)
qed

lemma prunes_history_oldest:
  "index_ok ix \<Longrightarrow> remove_oldest_history_index_entry ix = Some ix' \<Longrightarrow> prunes_history ix ix'"
  by (auto simp: remove_oldest_history_index_entry_def prunes_history_remove split: list.splits)

lemma prunes_history_entries:
  "index_ok ix \<Longrightarrow> remove_oldest_entries n ix = (k, ix') \<Longrightarrow> prunes_history ix ix'"
proof (induction n ix arbitrary: k ix' rule: remove_oldest_entries.induct)
  case (2 n ix)
  show ?case
  proof (cases "remove_oldest_history_index_entry ix")
    case None
    with 2 show ?thesis by (simp add: prunes_history_refl)
  next
    case (Some ix1)
    obtain k1 ix2 where r: "remove_oldest_entries n ix1 = (k1, ix2)"
      by (cases "remove_oldest_entries n ix1")
    have p: "prunes_history ix ix1" by (rule prunes_history_oldest[OF "2.prems"(1) Some])
    then have "index_ok ix1" by (simp add: prunes_history_def)
    from "2.IH"[OF Some this r] p "2.prems"(2) Some r show ?thesis
      by (auto intro: prunes_history_trans)
  qed
qed (simp add: prunes_history_refl)

lemma prunes_history_shrink:
  "index_ok ix \<Longrightarrow> shrink_index cd ix = Inr ix' \<Longrightarrow> prunes_history ix ix' \<and> sc_index_len cd ix' \<le> MAX_INDEX_BYTES"
proof (induction cd ix rule: shrink_index.induct)
  case (1 cd ix)
  show ?case
  proof (cases "sc_index_len cd ix \<le> MAX_INDEX_BYTES")
    case True
    then have "shrink_index cd ix = Inr ix" by (subst shrink_index.simps) (simp add: Let_def)
    with True "1.prems" show ?thesis by (simp add: prunes_history_refl)
  next
    case False
    define rc where "rc = max ((sc_index_len cd ix - MAX_INDEX_BYTES)
      div max (sc_index_len cd ix div max (length (ix_tasks ix)) 1) 1 + 1) 1"
    obtain k ix1 where r: "remove_oldest_entries rc ix = (k, ix1)" by (cases "remove_oldest_entries rc ix")
    have eq: "shrink_index cd ix = (case k of 0 \<Rightarrow> Inl ''task queue index exceeds its size limit''
        | Suc _ \<Rightarrow> shrink_index cd ix1)"
      using False r by (subst shrink_index.simps) (simp add: Let_def rc_def split: nat.splits)
    with "1.prems"(2) obtain k' where k: "k = Suc k'" and s: "shrink_index cd ix1 = Inr ix'"
      by (cases k) auto
    have p: "prunes_history ix ix1" by (rule prunes_history_entries[OF "1.prems"(1) r])
    then have ok: "index_ok ix1" by (simp add: prunes_history_def)
    have "prunes_history ix1 ix' \<and> sc_index_len cd ix' \<le> MAX_INDEX_BYTES"
      by (rule "1.IH"[OF refl False refl refl refl]) (use r k ok s in \<open>simp_all add: rc_def\<close>)
    with p show ?thesis by (blast intro: prunes_history_trans)
  qed
qed

lemma fold_index_remove_tasks:
  "ix_tasks (fold index_remove is ix) = filter (\<lambda>(i, _). i \<notin> set is) (ix_tasks ix)"
proof (induction "is" arbitrary: ix)
  case (Cons i "is")
  then show ?case
    by (simp add: index_remove_def bt_remove_def filter_filter)
      (rule filter_cong, auto)
qed (simp add: filter_True split_beta)

lemma fold_index_remove_activity: "ix_activity (fold index_remove is ix) = ix_activity ix"
  by (induction "is" arbitrary: ix) (simp_all add: index_remove_def)

lemma map_of_filter_key: "map_of (filter (\<lambda>(k, _). P k) m) k = (if P k then map_of m k else None)"
  by (induction m) auto

lemma prune_history_index_tasks:
  "ix_tasks (prune_history_index ix) = filter (\<lambda>(i, _). i \<notin>
     set (take (length (history_by_age ix) - MAX_HISTORY_INDEX_ENTRIES) (history_by_age ix))) (ix_tasks ix)"
  by (simp add: prune_history_index_def Let_def fold_index_remove_tasks)

lemma index_lookup_mem: "index_lookup ix i = Some e \<Longrightarrow> (i, e) \<in> set (ix_tasks ix)"
  by (simp add: index_lookup_def map_of_SomeD)

lemma index_lookup_unique: "index_ok ix \<Longrightarrow> (i, e) \<in> set (ix_tasks ix) \<Longrightarrow> index_lookup ix i = Some e"
  by (simp add: index_lookup_def index_ok_def bt_wf_distinct)

lemma prunes_history_prune:
  assumes ok: "index_ok ix"
  shows "prunes_history ix (prune_history_index ix)"
proof -
  define gone where "gone = set (take (length (history_by_age ix) - MAX_HISTORY_INDEX_ENTRIES) (history_by_age ix))"
  have t: "ix_tasks (prune_history_index ix) = filter (\<lambda>(i, _). i \<notin> gone) (ix_tasks ix)"
    by (simp add: prune_history_index_tasks gone_def)
  have l: "index_lookup (prune_history_index ix) i = (if i \<notin> gone then index_lookup ix i else None)" for i
    by (simp add: index_lookup_def t map_of_filter_key)
  have h: "is_history_index_entry e" if "i \<in> gone" "index_lookup ix i = Some e" for i e
  proof -
    have "i \<in> set (history_by_age ix)" using that(1) by (auto simp: gone_def dest: in_set_takeD)
    then obtain e' where "(i, e') \<in> set (ix_tasks ix)" "is_history_index_entry e'"
      using history_by_age_in_index by blast
    with index_lookup_unique[OF ok] that(2) show ?thesis by fastforce
  qed
  have "index_ok (prune_history_index ix)"
    using ok by (simp add: index_ok_def t bt_wf_filter)
  moreover have "ix_activity (prune_history_index ix) = ix_activity ix"
    by (simp add: prune_history_index_def Let_def fold_index_remove_activity)
  ultimately show ?thesis
    unfolding prunes_history_def using l h by (metis not_None_eq)
qed

definition history_count :: "store_index \<Rightarrow> nat" where
  "history_count ix = length (history_by_age ix)"

lemma history_count_filter:
  "history_count ix = count_where (\<lambda>(i, e). is_history_index_entry e) (ix_tasks ix)"
  by (simp add: history_count_def history_by_age_def count_where_def)

lemma history_count_prune: "index_ok ix \<Longrightarrow> history_count (prune_history_index ix) \<le> MAX_HISTORY_INDEX_ENTRIES"
proof -
  assume ok: "index_ok ix"
  define h where "h = filter (\<lambda>(i, e). is_history_index_entry e) (ix_tasks ix)"
  define hs where "hs = history_by_age ix"
  have hs: "mset hs = mset (map fst h)" by (simp add: hs_def h_def history_by_age_def)
  have d: "distinct (map fst h)"
    using ok unfolding h_def index_ok_def by (intro bt_wf_distinct bt_wf_filter)
  then have dh: "distinct hs" using hs by (metis mset_eq_imp_distinct_iff)
  define gone where "gone = take (length hs - MAX_HISTORY_INDEX_ENTRIES) hs"
  have "filter (\<lambda>(i, e). is_history_index_entry e) (ix_tasks (prune_history_index ix))
      = filter (\<lambda>(i, _). i \<notin> set gone) h"
    unfolding prune_history_index_tasks h_def gone_def hs_def filter_filter
    by (rule filter_cong) auto
  then have "history_count (prune_history_index ix) = length (filter (\<lambda>i. i \<notin> set gone) (map fst h))"
    by (simp add: history_count_filter count_where_def filter_map o_def case_prod_unfold)
  also have "\<dots> = length (filter (\<lambda>i. i \<notin> set gone) hs)"
    using hs by (metis mset_filter size_mset)
  also have "\<dots> \<le> length hs - length gone"
  proof -
    have "hs = gone @ drop (length hs - MAX_HISTORY_INDEX_ENTRIES) hs" by (simp add: gone_def)
    then have "filter (\<lambda>i. i \<in> set gone) hs
        = gone @ filter (\<lambda>i. i \<in> set gone) (drop (length hs - MAX_HISTORY_INDEX_ENTRIES) hs)"
      by (metis (mono_tags, lifting) filter_True filter_append)
    then have "length gone \<le> length (filter (\<lambda>i. i \<in> set gone) hs)" by simp
    moreover have "length (filter (\<lambda>i. i \<in> set gone) hs) + length (filter (\<lambda>i. i \<notin> set gone) hs) = length hs"
      by (rule sum_length_filter_compl)
    ultimately show ?thesis by simp
  qed
  also have "\<dots> \<le> MAX_HISTORY_INDEX_ENTRIES" by (simp add: gone_def)
  finally show ?thesis .
qed

lemma history_count_mono: "prunes_history ix ix' \<Longrightarrow> index_ok ix \<Longrightarrow> history_count ix' \<le> history_count ix"
proof -
  assume p: "prunes_history ix ix'" and ok: "index_ok ix"
  have sub: "set (ix_tasks ix') \<subseteq> set (ix_tasks ix)"
  proof
    fix x assume "x \<in> set (ix_tasks ix')"
    then have "index_lookup ix' (fst x) = Some (snd x)"
      using p by (auto simp: prunes_history_def intro: index_lookup_unique)
    with p have "index_lookup ix (fst x) = Some (snd x)"
      unfolding prunes_history_def by (metis option.distinct(1))
    then show "x \<in> set (ix_tasks ix)" using index_lookup_mem by fastforce
  qed
  have d: "distinct (ix_tasks ix')" "distinct (ix_tasks ix)"
    using p ok by (auto simp: prunes_history_def index_ok_def distinct_map dest!: bt_wf_distinct)
  have "card (set (filter (\<lambda>(i, e). is_history_index_entry e) (ix_tasks ix')))
      \<le> card (set (filter (\<lambda>(i, e). is_history_index_entry e) (ix_tasks ix)))"
    using sub by (intro card_mono) auto
  then show ?thesis
    using distinct_card[OF distinct_filter[OF d(1)]] distinct_card[OF distinct_filter[OF d(2)]]
    by (simp only: history_count_filter count_where_def)
qed

lemma write_index_cases:
  assumes "index_ok ix" "write_index cd ix s = (res, s')"
  shows "st_files s' = st_files s \<and>
     (((\<exists>e. res = Inl e) \<and> st_index s' = st_index s)
      \<or> (res = Inr () \<and> prunes_history ix (st_index s')
          \<and> sc_index_len cd (st_index s') \<le> MAX_INDEX_BYTES
          \<and> history_count (st_index s') \<le> MAX_HISTORY_INDEX_ENTRIES))"
proof (cases "shrink_index cd (prune_history_index ix)")
  case (Inl e)
  with assms(2) show ?thesis by (auto simp: write_index_def bind_act_def lift_result_def)
next
  case (Inr ix')
  have w: "write_index cd ix s = (if next_write_fails s then (Inl ''I/O error'', pop_fault s)
      else (Inr (), (pop_fault s)\<lparr>st_index := ix'\<rparr>))"
    using Inr by (simp add: write_index_def bind_act_def lift_result_def durable_def)
  have p1: "prunes_history ix (prune_history_index ix)" by (rule prunes_history_prune[OF assms(1)])
  then have ok1: "index_ok (prune_history_index ix)" by (simp add: prunes_history_def)
  have p2: "prunes_history (prune_history_index ix) ix'" and len: "sc_index_len cd ix' \<le> MAX_INDEX_BYTES"
    using prunes_history_shrink[OF ok1 Inr] by simp_all
  have "prunes_history ix ix'" by (rule prunes_history_trans[OF p1 p2])
  moreover have "history_count ix' \<le> MAX_HISTORY_INDEX_ENTRIES"
    using history_count_mono[OF p2 ok1] history_count_prune[OF assms(1)] by simp
  ultimately show ?thesis
    using assms(2) w len by (auto simp: pop_fault_def split: if_splits)
qed

text \<open>
  C28: Writing the index makes room only at the expense of history: whatever size the encoding has, a
  successful write stores an index that fits its size limit and has at most 10000 history entries, and every
  entry of an active task or of a record whose move is pending is stored exactly as given, together with the
  activity of all chats.
\<close>

theorem write_index_keeps_active_entries:
  assumes "index_ok ix" "write_index cd ix s = (Inr (), s')"
  shows "sc_index_len cd (st_index s') \<le> MAX_INDEX_BYTES
    \<and> history_count (st_index s') \<le> 10000
    \<and> ix_activity (st_index s') = ix_activity ix
    \<and> (\<forall>i e. index_lookup ix i = Some e \<and> (in_queue_dir (ie_record_path e) \<or> ie_move_target e \<noteq> None)
          \<longrightarrow> index_lookup (st_index s') i = Some e)
    \<and> (\<forall>i e. index_lookup (st_index s') i = Some e \<longrightarrow> index_lookup ix i = Some e)
    \<and> st_files s' = st_files s"
proof -
  from write_index_cases[OF assms] have files: "st_files s' = st_files s"
    and p: "prunes_history ix (st_index s')" and len: "sc_index_len cd (st_index s') \<le> MAX_INDEX_BYTES"
    and hc: "history_count (st_index s') \<le> 10000"
    by (auto simp: MAX_HISTORY_INDEX_ENTRIES_def)
  have act: "index_lookup (st_index s') i = Some e"
    if "index_lookup ix i = Some e" "in_queue_dir (ie_record_path e) \<or> ie_move_target e \<noteq> None" for i e
    using prunes_history_lookup[OF p, of i] that by (auto simp: is_history_index_entry_def)
  have bwd: "index_lookup ix i = Some e" if "index_lookup (st_index s') i = Some e" for i e
    using prunes_history_lookup[OF p, of i] that by auto
  have "ix_activity (st_index s') = ix_activity ix" using p by (simp add: prunes_history_def)
  then show ?thesis using files len hc act bwd by blast
qed

subsection \<open>Saving a record\<close>

lemma index_ok_insert: "index_ok ix \<Longrightarrow> index_ok (index_insert i e ix)"
  by (simp add: index_ok_def index_insert_def bt_wf_insert)

lemma index_lookup_insert [simp]:
  "index_lookup (index_insert i e ix) j = (if j = i then Some e else index_lookup ix j)"
  by (simp add: index_lookup_def index_insert_def)

lemma stamped_props:
  assumes "stamped now activity ix r = (r', ix')"
  shows "tr_id r' = tr_id r" "tr_chat_id r' = tr_chat_id r" "tr_status r' = tr_status r"
    "ix_tasks ix' = ix_tasks ix" "tr_updated_at r' = now" "tr_revision r' = saturating_add (tr_revision r) 1"
    "tr_generation r' = tr_generation r" "tr_attempt r' = tr_attempt r"
  using assms by (auto simp: stamped_def Let_def bump_chat_activity_def split: if_splits)

lemma read_put [simp]: "read_record (put_file p r s) q = (if q = p then Some r else read_record s q)"
  by (auto simp: read_record_def put_file_def update_conv')

lemma read_remove [simp]: "read_record (remove_file p s) q = (if q = p then None else read_record s q)"
  by (auto simp: read_record_def remove_file_def delete_conv')

lemma index_put_remove_pop [simp]:
  "st_index (put_file p r s) = st_index s" "st_index (remove_file p s) = st_index s"
  "st_index (pop_fault s) = st_index s"
  by (simp_all add: put_file_def remove_file_def pop_fault_def)

lemma read_same_files: "st_files s' = st_files s \<Longrightarrow> read_record s' q = read_record s q"
  by (simp add: read_record_def)

lemma peek_found:
  assumes "index_lookup (st_index s) i = Some e" "read_record s (ie_record_path e) = Some r"
    "tr_id r = i" "tr_chat_id r = ie_chat_id e"
  shows "peek_task i s = Inr (Some (r, e))"
  using assms by (simp add: peek_task_def checked_record_def Let_def)

lemma peek_moved:
  assumes "index_lookup (st_index s) i = Some e" "read_record s (ie_record_path e) = None"
    "ie_move_target e = Some t" "read_record s t = Some r" "tr_id r = i" "tr_chat_id r = ie_chat_id e"
  shows "peek_task i s = Inr (Some (r, e))"
  using assms by (simp add: peek_task_def checked_record_def Let_def)

lemma peek_unindexed: "index_lookup (st_index s) i = None \<Longrightarrow> peek_task i s = Inr None"
  by (simp add: peek_task_def)

text \<open>
  \<open>recoverable\<close>: the task is found with one of two contents, or it left the (pruned) index for good and its
  new record stands in a file.
\<close>

definition recoverable :: "string \<Rightarrow> task_record \<Rightarrow> task_record \<Rightarrow> task_store \<Rightarrow> bool" where
  "recoverable i r0 r' s =
     ((\<exists>x\<in>{r0, r'}. \<exists>e. peek_task i s = Inr (Some (x, e)))
      \<or> (peek_task i s = Inr None \<and> (\<exists>q. path_owner q = i \<and> read_record s q = Some r')))"

lemma move_cases:
  assumes "read_record s p = Some r" "read_record s q = None" "tr_id r = i"
    "move_record_to_sidecar i p q s = (res, s')"
  shows "(\<exists>m. res = Inl m) \<and> s' = pop_fault s
    \<or> res = Inr Moved \<and> s' = remove_file p (put_file q r (pop_fault s))"
  using assms
  by (auto simp: move_record_to_sidecar_def Let_def bind_act_def durable_def ret_def split: if_splits)

lemma write_record_cases:
  assumes "write_record cd p r s = (res, s')"
  shows "(\<exists>m. res = Inl m) \<and> st_index s' = st_index s \<and> st_files s' = st_files s
    \<or> res = Inr () \<and> s' = put_file p r (pop_fault s)"
  using assms by (auto simp: write_record_def bail_def durable_def pop_fault_def split: if_splits)

lemma bind_cases:
  assumes "bind_act m f s = (res, s')"
  obtains (fail) e where "m s = (Inl e, s')" "res = Inl e"
    | (ok) x t where "m s = (Inr x, t)" "f x t = (res, s')"
  using assms by (auto simp: bind_act_def split: prod.splits sum.splits)

definition settled :: "task_store \<Rightarrow> string \<Rightarrow> task_record \<Rightarrow> index_entry \<Rightarrow> bool" where
  \<comment> \<open>the store shows the task through an entry without a pending move\<close>
  "settled s i r e =
     (index_ok (st_index s) \<and> index_lookup (st_index s) i = Some e \<and> ie_move_target e = None
      \<and> read_record s (ie_record_path e) = Some r \<and> tr_id r = i \<and> tr_chat_id r = ie_chat_id e
      \<and> path_owner (ie_record_path e) = i
      \<and> (in_queue_dir (ie_record_path e) \<longrightarrow> read_record s (HistoryFile i) = None))"

lemma settled_peek: "settled s i r e \<Longrightarrow> peek_task i s = Inr (Some (r, e))"
  by (simp add: settled_def peek_found)

lemma settled_old:
  assumes "settled s i r0 e" "st_index t = st_index s" "st_files t = st_files s"
  shows "recoverable i r0 r' t"
proof -
  have "read_record t q = read_record s q" for q using assms(3) by (rule read_same_files)
  with assms(1,2) have "peek_task i t = Inr (Some (r0, e))"
    by (intro peek_found) (simp_all add: settled_def)
  then show ?thesis by (auto simp: recoverable_def)
qed

lemma settled_written:
  assumes "settled s i r0 e" "tr_id r' = i" "tr_chat_id r' = ie_chat_id e"
    and "st_index t = st_index s" "st_files t = st_files (put_file (ie_record_path e) r' (pop_fault s))"
  shows "recoverable i r0 r' t"
proof -
  have "read_record t (ie_record_path e) = Some r'" using read_same_files[OF assms(5)] by simp
  with assms(1-4) have "peek_task i t = Inr (Some (r', e))"
    by (intro peek_found) (simp_all add: settled_def)
  then show ?thesis by (auto simp: recoverable_def)
qed

lemma settled_indexed:
  assumes p: "prunes_history (index_insert i e' ix) (st_index t)"
    and rd: "read_record t (ie_record_path e') = Some r'"
    and new: "tr_id r' = i" "tr_chat_id r' = ie_chat_id e'" and own: "path_owner (ie_record_path e') = i"
  shows "recoverable i r0 r' t"
    and "\<not> is_history_index_entry e' \<Longrightarrow> peek_task i t = Inr (Some (r', e'))"
proof -
  have c: "index_lookup (st_index t) i = Some e' \<or> index_lookup (st_index t) i = None \<and> is_history_index_entry e'"
    using prunes_history_lookup[OF p, of i] by auto
  have found: "peek_task i t = Inr (Some (r', e'))" if "index_lookup (st_index t) i = Some e'"
    using that rd new by (intro peek_found)
  show "recoverable i r0 r' t"
  proof (cases "index_lookup (st_index t) i = Some e'")
    case True
    from found[OF this] show ?thesis by (auto simp: recoverable_def)
  next
    case False
    with c have "peek_task i t = Inr None" by (intro peek_unindexed) simp
    with rd own show ?thesis by (auto simp: recoverable_def)
  qed
  show "\<not> is_history_index_entry e' \<Longrightarrow> peek_task i t = Inr (Some (r', e'))"
    using c found by auto
qed

text \<open>What saving leaves of the other tasks: entries only go when they are pruned, files not at all.\<close>

definition others_kept :: "string \<Rightarrow> task_store \<Rightarrow> task_store \<Rightarrow> bool" where
  "others_kept i s t =
     ((\<forall>j. j \<noteq> i \<longrightarrow> index_lookup (st_index t) j = index_lookup (st_index s) j
         \<or> (index_lookup (st_index t) j = None
             \<and> (\<exists>e. index_lookup (st_index s) j = Some e \<and> is_history_index_entry e)))
      \<and> (\<forall>q. path_owner q \<noteq> i \<longrightarrow> read_record t q = read_record s q))"


lemma others_keptI:
  assumes "prunes_history ix (st_index t)" "\<And>j. j \<noteq> i \<Longrightarrow> index_lookup ix j = index_lookup (st_index s) j"
    and "\<And>q. path_owner q \<noteq> i \<Longrightarrow> read_record t q = read_record s q"
  shows "others_kept i s t"
  unfolding others_kept_def using prunes_history_lookup[OF assms(1)] assms(2,3) by metis

lemma others_kept_index:
  assumes "st_index t = st_index s" "\<And>q. path_owner q \<noteq> i \<Longrightarrow> read_record t q = read_record s q"
  shows "others_kept i s t"
  using assms by (simp add: others_kept_def)

definition save_ok :: "string \<Rightarrow> task_record \<Rightarrow> task_record \<Rightarrow> task_store \<Rightarrow> (string + task_record) \<times> task_store \<Rightarrow> bool" where
  "save_ok i r0 r' s out = (recoverable i r0 r' (snd out) \<and> others_kept i s (snd out)
     \<and> (\<forall>x. fst out = Inr x \<longrightarrow> x = r' \<and> recoverable i r' r' (snd out)))"

lemma save_ok_unchanged:
  assumes "settled s i r0 e" "st_index t = st_index s" "st_files t = st_files s"
  shows "save_ok i r0 r' s (Inl m, t)"
proof -
  have rd: "read_record t q = read_record s q" for q by (rule read_same_files[OF assms(3)])
  show ?thesis
    unfolding save_ok_def using settled_old[OF assms] others_kept_index[OF assms(2)] by (simp add: rd)
qed

lemma save_ok_written:
  assumes "settled s i r0 e" "tr_id r' = i" "tr_chat_id r' = ie_chat_id e"
    and "st_index t = st_index s" "st_files t = st_files (put_file (ie_record_path e) r' (pop_fault s))"
  shows "save_ok i r0 r' s (Inl m, t)"
proof -
  have rd: "read_record t q = (if q = ie_record_path e then Some r' else read_record s q)" for q
    using read_same_files[OF assms(5), of q] by simp
  have "path_owner (ie_record_path e) = i" using assms(1) by (simp add: settled_def)
  with rd have "others_kept i s t" by (intro others_kept_index assms(4)) auto
  with settled_written[OF assms] show ?thesis by (simp add: save_ok_def)
qed

lemma save_ok_indexed:
  assumes "tr_id r' = i" "tr_chat_id r' = ie_chat_id e'" "path_owner (ie_record_path e') = i"
    and p: "prunes_history (index_insert i e' ix) (st_index t)"
    and ix: "\<And>j. j \<noteq> i \<Longrightarrow> index_lookup ix j = index_lookup (st_index s) j"
    and rd: "read_record t (ie_record_path e') = Some r'" "\<And>q. path_owner q \<noteq> i \<Longrightarrow> read_record t q = read_record s q"
    and out: "out = Inr r' \<or> out = Inl m"
  shows "save_ok i r0 r' s (out, t)"
proof -
  have "others_kept i s t" by (rule others_keptI[OF p]) (use ix rd(2) in simp_all)
  with settled_indexed(1)[OF p rd(1) assms(1-3)] out show ?thesis by (auto simp: save_ok_def)
qed

lemma save_terminal:
  assumes st: "settled s i r0 e" and q: "in_queue_dir (ie_record_path e)"
    and new: "tr_id r' = i" "tr_chat_id r' = ie_chat_id e"
    and ix: "index_ok ix" "\<And>j. index_lookup ix j = index_lookup (st_index s) j"
    and eA: "eA = e\<lparr>ie_revision := tr_revision r', ie_updated_at := tr_updated_at r',
               ie_move_target := Some (HistoryFile i)\<rparr>"
    and run: "bind_act (write_index cd (index_insert i eA ix)) (\<lambda>_.
        bind_act (move_record_to_sidecar i (ie_record_path eA) (HistoryFile i)) (\<lambda>status.
          if status = MissingRecord then bail ''task record disappeared before sidecar migration''
          else bind_act (write_index cd (index_insert i
                 (eA\<lparr>ie_record_path := HistoryFile i, ie_move_target := None\<rparr>) (index_insert i eA ix)))
                 (\<lambda>_. ret r'))) (put_file (ie_record_path e) r' (pop_fault s)) = (res, s')"
  shows "save_ok i r0 r' s (res, s')"
proof -
  define p where "p = ie_record_path e"
  define h where "h = HistoryFile i"
  define s1 where "s1 = put_file p r' (pop_fault s)"
  have ph: "p \<noteq> h" "read_record s h = None" "path_owner p = i" "path_owner h = i"
    using st q by (auto simp: settled_def p_def h_def in_queue_dir_def)
  have okA: "index_ok (index_insert i eA ix)" by (rule index_ok_insert[OF ix(1)])
  show ?thesis
    using run[folded p_def h_def, folded s1_def]
  proof (rule bind_cases)
    fix m assume w: "write_index cd (index_insert i eA ix) s1 = (Inl m, s')" and r: "res = Inl m"
    from write_index_cases[OF okA w] have "st_files s' = st_files s1" "st_index s' = st_index s1" by auto
    with st new show ?thesis unfolding r s1_def p_def by (intro save_ok_written) simp_all
  next
    fix u s2 assume w: "write_index cd (index_insert i eA ix) s1 = (Inr u, s2)"
      and rest: "bind_act (move_record_to_sidecar i (ie_record_path eA) h) (\<lambda>status.
          if status = MissingRecord then bail ''task record disappeared before sidecar migration''
          else bind_act (write_index cd (index_insert i
                 (eA\<lparr>ie_record_path := h, ie_move_target := None\<rparr>) (index_insert i eA ix)))
                 (\<lambda>_. ret r')) s2 = (res, s')"
    from write_index_cases[OF okA w] have f2: "st_files s2 = st_files s1"
      and p2: "prunes_history (index_insert i eA ix) (st_index s2)" by auto
    have rd2: "read_record s2 x = (if x = p then Some r' else read_record s x)" for x
      using read_same_files[OF f2, of x] by (simp add: s1_def)
    have pA: "ie_record_path eA = p" "ie_chat_id eA = ie_chat_id e" "\<not> is_history_index_entry eA"
      by (simp_all add: eA p_def is_history_index_entry_def)
    show ?thesis
      using rest[unfolded pA(1)]
    proof (rule bind_cases)
      fix m assume mv: "move_record_to_sidecar i p h s2 = (Inl m, s')" and r: "res = Inl m"
      have "s' = pop_fault s2"
        using move_cases[OF _ _ new(1) mv] rd2 ph by auto
      with p2 rd2 ph new pA ix show ?thesis unfolding r by (intro save_ok_indexed[where e' = eA and ix = ix]) auto
    next
      fix status s3
      assume mv: "move_record_to_sidecar i p h s2 = (Inr status, s3)"
        and rest3: "(if status = MissingRecord then bail ''task record disappeared before sidecar migration''
          else bind_act (write_index cd (index_insert i
                 (eA\<lparr>ie_record_path := h, ie_move_target := None\<rparr>) (index_insert i eA ix)))
                 (\<lambda>_. ret r')) s3 = (res, s')"
      have s3: "status = Moved" "s3 = remove_file p (put_file h r' (pop_fault s2))"
        using move_cases[OF _ _ new(1) mv] rd2 ph by auto
      have rd3: "read_record s3 x = (if x = p then None else if x = h then Some r' else read_record s x)" for x
        using ph(1) by (simp add: s3(2) rd2)
      define eB where "eB = eA\<lparr>ie_record_path := h, ie_move_target := None\<rparr>"
      have okB: "index_ok (index_insert i eB (index_insert i eA ix))"
        by (intro index_ok_insert ix(1))
      have run3: "bind_act (write_index cd (index_insert i eB (index_insert i eA ix))) (\<lambda>_. ret r') s3 = (res, s')"
        using rest3 s3(1) by (simp add: eB_def)
      show ?thesis
        using run3
      proof (rule bind_cases)
        fix m assume w3: "write_index cd (index_insert i eB (index_insert i eA ix)) s3 = (Inl m, s')"
          and r: "res = Inl m"
        from write_index_cases[OF okB w3] have f: "st_files s' = st_files s3"
          and ixs: "st_index s' = st_index s2" by (auto simp: s3(2))
        have rd: "read_record s' x = read_record s3 x" for x by (rule read_same_files[OF f])
        have "index_lookup (st_index s') i = Some eA"
          using prunes_history_lookup[OF p2, of i] pA(3) by (auto simp: ixs)
        then have pk: "peek_task i s' = Inr (Some (r', eA))"
          using pA new by (intro peek_moved[where t = h]) (simp_all add: rd rd3 eA h_def ph(1)[unfolded h_def, symmetric])
        have "others_kept i s s'"
          by (rule others_keptI[OF p2[folded ixs]]) (use ix ph in \<open>auto simp: rd rd3\<close>)
        with pk r show ?thesis by (auto simp: save_ok_def recoverable_def)
      next
        fix u t assume w3: "write_index cd (index_insert i eB (index_insert i eA ix)) s3 = (Inr u, t)"
          and r: "ret r' t = (res, s')"
        from write_index_cases[OF okB w3] have f: "st_files t = st_files s3"
          and p3: "prunes_history (index_insert i eB (index_insert i eA ix)) (st_index t)" by auto
        have rd: "read_record t x = read_record s3 x" for x by (rule read_same_files[OF f])
        from r have q: "res = Inr r'" "s' = t" by (simp_all add: ret_def)
        have "ie_chat_id eB = ie_chat_id e" "ie_record_path eB = h" by (simp_all add: eB_def pA)
        with new ph ix show ?thesis
          unfolding q by (intro save_ok_indexed[OF _ _ _ p3]) (auto simp: rd rd3)
      qed
    qed
  qed
qed


lemma save_active:
  assumes st: "settled s i r0 e"
    and new: "tr_id r' = i" "tr_chat_id r' = ie_chat_id e"
    and ix: "index_ok ix" "\<And>j. index_lookup ix j = index_lookup (st_index s) j"
    and eA: "eA = e\<lparr>ie_revision := tr_revision r', ie_updated_at := tr_updated_at r'\<rparr>"
    and run: "bind_act (write_index cd (index_insert i eA ix)) (\<lambda>_. ret r')
        (put_file (ie_record_path e) r' (pop_fault s)) = (res, s')"
  shows "save_ok i r0 r' s (res, s')"
proof -
  define s1 where "s1 = put_file (ie_record_path e) r' (pop_fault s)"
  have okA: "index_ok (index_insert i eA ix)" by (rule index_ok_insert[OF ix(1)])
  show ?thesis
    using run[folded s1_def]
  proof (rule bind_cases)
    fix m assume w: "write_index cd (index_insert i eA ix) s1 = (Inl m, s')" and r: "res = Inl m"
    from write_index_cases[OF okA w] have "st_files s' = st_files s1" "st_index s' = st_index s1" by auto
    with st new show ?thesis unfolding r s1_def by (intro save_ok_written) simp_all
  next
    fix u t assume w: "write_index cd (index_insert i eA ix) s1 = (Inr u, t)" and r: "ret r' t = (res, s')"
    from write_index_cases[OF okA w] have f: "st_files t = st_files s1"
      and p: "prunes_history (index_insert i eA ix) (st_index t)" by auto
    have rd: "read_record t x = (if x = ie_record_path e then Some r' else read_record s x)" for x
      using read_same_files[OF f, of x] by (simp add: s1_def)
    from r have q: "res = Inr r'" "s' = t" by (simp_all add: ret_def)
    have "path_owner (ie_record_path e) = i" using st by (simp add: settled_def)
    with new ix show ?thesis
      unfolding q by (intro save_ok_indexed[OF _ _ _ p]) (auto simp: rd eA)
  qed
qed

lemma save_mutated_record_ok:
  assumes st: "settled s i r0 e" and r: "tr_id r = i" "tr_chat_id r = tr_chat_id r0"
  shows "save_ok i r0 (fst (stamped now activity (st_index s) r)) s (save_mutated_record cd now r e activity s)"
proof -
  obtain r' ix where sp: "stamped now activity (st_index s) r = (r', ix)"
    by (cases "stamped now activity (st_index s) r")
  note props = stamped_props[OF sp]
  have new: "tr_id r' = i" "tr_chat_id r' = ie_chat_id e"
    using st r props by (simp_all add: settled_def)
  have ix: "index_ok ix" "index_lookup ix j = index_lookup (st_index s) j" for j
    using st props(4) by (simp_all add: settled_def index_ok_def index_lookup_def)
  obtain res s' where run: "save_mutated_record cd now r e activity s = (res, s')"
    by (cases "save_mutated_record cd now r e activity s")
  define tail where "tail = (\<lambda>_ :: unit.
      if tr_status r' \<in> {Cancelled, TCompleted} \<and> in_queue_dir (ie_record_path e)
      then bind_act (lift_result (validate_task_id i)) (\<lambda>_.
        let eA = e\<lparr>ie_revision := tr_revision r', ie_updated_at := tr_updated_at r',
               ie_move_target := Some (HistoryFile i)\<rparr> in
        bind_act (write_index cd (index_insert i eA ix)) (\<lambda>_.
          bind_act (move_record_to_sidecar i (ie_record_path eA) (HistoryFile i)) (\<lambda>status.
            if status = MissingRecord then bail ''task record disappeared before sidecar migration''
            else bind_act (write_index cd (index_insert i
                   (eA\<lparr>ie_record_path := HistoryFile i, ie_move_target := None\<rparr>) (index_insert i eA ix)))
                   (\<lambda>_. ret r'))))
      else bind_act (write_index cd (index_insert i
             (e\<lparr>ie_revision := tr_revision r', ie_updated_at := tr_updated_at r'\<rparr>) ix)) (\<lambda>_. ret r'))"
  have eq: "save_mutated_record cd now r e activity s
      = bind_act (write_record cd (ie_record_path e) r') tail s"
    by (simp add: save_mutated_record_def sp tail_def Let_def new cong: if_cong)
  have "bind_act (write_record cd (ie_record_path e) r') tail s = (res, s')" using run eq by simp
  then have "save_ok i r0 r' s (res, s')"
  proof (rule bind_cases)
    fix m assume w: "write_record cd (ie_record_path e) r' s = (Inl m, s')" and q: "res = Inl m"
    from write_record_cases[OF w] show ?thesis unfolding q by (intro save_ok_unchanged[OF st]) auto
  next
    fix u t assume w: "write_record cd (ie_record_path e) r' s = (Inr u, t)" and rest: "tail u t = (res, s')"
    have t: "t = put_file (ie_record_path e) r' (pop_fault s)" using write_record_cases[OF w] by auto
    show ?thesis
    proof (cases "tr_status r' \<in> {Cancelled, TCompleted} \<and> in_queue_dir (ie_record_path e)")
      case False
      then show ?thesis
        using rest unfolding t tail_def if_not_P[OF False] by (intro save_active[OF st new ix refl])
    next
      case True
      show ?thesis
      proof (cases "validate_task_id i")
        case (Inl m)
        with rest True have "res = Inl m" "s' = t"
          by (auto simp: tail_def bind_act_def lift_result_def)
        then show ?thesis using st new by (simp add: t save_ok_written)
      next
        case (Inr u)
        have bind: "bind_act (lift_result (Inr u)) f a = f u a" for u f a
          by (simp add: bind_act_def lift_result_def)
        show ?thesis
          using rest unfolding t tail_def if_P[OF True] Let_def Inr bind
          by (rule save_terminal[OF st conjunct2[OF True] new ix refl])
      qed
    qed
  qed
  then show ?thesis by (simp add: run sp)
qed

text \<open>
  C1: Saving a changed record is atomic at every crash point. Whatever durable write of it fails (the
  record, the index with the move announced, the move into the history, the final index), afterwards the
  task is still found with either its old or its new record, or, once the index has dropped it as old
  history, its new record stands in its file; a save that reports success has stored the new record; and no
  other task loses its record or, unless pruned as history, its index entry.
\<close>

theorem save_mutated_record_atomic:
  assumes "settled s i r0 e" "tr_id r = i" "tr_chat_id r = tr_chat_id r0"
    and "save_mutated_record cd now r e activity s = (res, s')"
    and "stamped now activity (st_index s) r = (r', ix)"
  shows "recoverable i r0 r' s' \<and> others_kept i s s'
    \<and> (\<forall>x. res = Inr x \<longrightarrow> x = r' \<and> recoverable i r' r' s')
    \<and> tr_revision r' = saturating_add (tr_revision r) 1"
  using save_mutated_record_ok[OF assms(1-3), of now activity cd] assms(4,5) stamped_props(6)[OF assms(5)]
  by (auto simp: save_ok_def)

subsection \<open>A store with one task\<close>

definition example_codec :: store_codec where
  "example_codec = \<lparr>sc_record_len = \<lambda>_. 100, sc_index_len = \<lambda>ix. 10 * length (ix_tasks ix)\<rparr>"

definition example_record :: "task_status \<Rightarrow> task_record" where
  "example_record st = (new_task_record 5 ''7'' 1 2 3 None 0 (PdfJob ''u''))\<lparr>tr_status := st\<rparr>"

definition example_entry :: index_entry where
  "example_entry = \<lparr>ie_chat_id = 3, ie_record_path = QueueFile ''7'', ie_move_target = None,
     ie_revision = 1, ie_updated_at = 5\<rparr>"

definition example_store :: "task_status \<Rightarrow> bool list \<Rightarrow> task_store" where
  "example_store st faults = \<lparr>st_index = \<lparr>ix_tasks = [(''7'', example_entry)], ix_activity = []\<rparr>,
     st_files = [(QueueFile ''7'', example_record st)], st_other_files = 0, st_faults = faults\<rparr>"

lemma example_index_ok: "index_ok (st_index (example_store st fs))"
  by (simp add: index_ok_def example_store_def bt_wf_def)

lemma example_settled: "settled (example_store st fs) ''7'' (example_record st) example_entry"
  by (simp add: settled_def example_index_ok)
    (simp add: example_store_def index_lookup_def example_entry_def read_record_def example_record_def
      new_task_record_def)

lemma example_history_empty:
  "(\<forall>(i, e)\<in>set (ix_tasks ix). \<not> is_history_index_entry e) \<Longrightarrow> history_by_age ix = []"
  by (simp add: history_by_age_def split_beta filter_empty_conv)

lemma example_write_index:
  assumes "\<forall>(i, e)\<in>set (ix_tasks ix). \<not> is_history_index_entry e" "length (ix_tasks ix) \<le> 2"
  shows "write_index example_codec ix s = durable (\<lambda>s. s\<lparr>st_index := ix\<rparr>) s"
proof -
  have p: "prune_history_index ix = ix"
    using example_history_empty[OF assms(1)] by (simp add: prune_history_index_def)
  have sh: "shrink_index example_codec ix = Inr ix"
    using assms(2) by (subst shrink_index.simps) (simp add: example_codec_def MAX_INDEX_BYTES_def)
  show ?thesis by (simp add: write_index_def p sh bind_act_def lift_result_def)
qed

lemma write_index_interrupted: "next_write_fails s \<Longrightarrow> \<exists>m. fst (write_index cd ix s) = Inl m"
  by (auto simp: write_index_def bind_act_def lift_result_def durable_def split: sum.split)

lemma bind_interrupted: "\<exists>m. fst (a s) = Inl m \<Longrightarrow> \<exists>m. fst (bind_act a f s) = Inl m"
  by (auto simp: bind_act_def split: prod.split sum.split)

lemma bind_lift:
  "bind_act (lift_result q) f s = (case q of Inl m \<Rightarrow> (Inl m, s) | Inr x \<Rightarrow> f x s)"
  by (simp add: bind_act_def lift_result_def)

lemma save_interrupted:
  assumes "st_faults s = False # True # fs"
  shows "\<exists>m. fst (save_mutated_record cd now r e activity s) = Inl m"
proof -
  obtain r' ix where sp: "stamped now activity (st_index s) r = (r', ix)"
    by (cases "stamped now activity (st_index s) r")
  obtain q t where w: "write_record cd (ie_record_path e) r' s = (q, t)"
    by (cases "write_record cd (ie_record_path e) r' s")
  show ?thesis
  proof (cases q)
    case (Inl m)
    with sp w show ?thesis by (simp add: save_mutated_record_def bind_act_def)
  next
    case (Inr u)
    with write_record_cases[OF w] assms have "next_write_fails t"
      by (auto simp: next_write_fails_def put_file_def pop_fault_def)
    then have wi: "\<exists>m. fst (bind_act (write_index cd ix) f t) = Inl m" for ix f
      by (intro bind_interrupted write_index_interrupted)
    show ?thesis
      using Inr by (simp add: save_mutated_record_def sp Let_def bind_act_def[of "write_record _ _ _"] w
          bind_lift wi split: sum.split)
  qed
qed

theorem write_index_keeps_active_entries_witness:
  "\<exists>s'. write_index example_codec (st_index (example_store Queued [])) (example_store Queued []) = (Inr (), s')
     \<and> index_lookup (st_index s') ''7'' = Some example_entry"
proof -
  define ix where "ix = st_index (example_store Queued [])"
  define s' where "s' = snd (write_index example_codec ix (example_store Queued []))"
  have "\<forall>(i, e)\<in>set (ix_tasks ix). \<not> is_history_index_entry e" "length (ix_tasks ix) \<le> 2"
    by (simp_all add: ix_def example_store_def example_entry_def is_history_index_entry_def in_queue_dir_def)
  then have w: "write_index example_codec ix (example_store Queued []) = (Inr (), s')"
    by (simp add: s'_def example_write_index)
      (simp add: durable_def example_store_def next_write_fails_def)
  have "index_lookup ix ''7'' = Some example_entry \<and> in_queue_dir (ie_record_path example_entry)"
    by (simp add: ix_def example_store_def index_lookup_def example_entry_def in_queue_dir_def)
  with write_index_keeps_active_entries[OF _ w] example_index_ok[of Queued "[]"]
  have "index_lookup (st_index s') ''7'' = Some example_entry" unfolding ix_def by blast
  with w show ?thesis unfolding ix_def by blast
qed

theorem save_mutated_record_atomic_witness:
  "\<exists>s' r' m. save_mutated_record example_codec 9 (example_record TCompleted) example_entry True
       (example_store Queued [False, True]) = (Inl m, s')
     \<and> recoverable ''7'' (example_record Queued) r' s' \<and> tr_status r' = TCompleted"
proof -
  define s where "s = example_store Queued [False, True]"
  obtain r' ix where st: "stamped 9 True (st_index s) (example_record TCompleted) = (r', ix)"
    by (cases "stamped 9 True (st_index s) (example_record TCompleted)")
  define s' where "s' = snd (save_mutated_record example_codec 9 (example_record TCompleted) example_entry True s)"
  have "\<exists>m. fst (save_mutated_record example_codec 9 (example_record TCompleted) example_entry True s) = Inl m"
    by (rule save_interrupted) (simp add: s_def example_store_def)
  then obtain m where w: "save_mutated_record example_codec 9 (example_record TCompleted) example_entry True s
      = (Inl m, s')"
    unfolding s'_def by (metis prod.collapse)
  have r: "tr_id (example_record TCompleted) = ''7''"
    "tr_chat_id (example_record TCompleted) = tr_chat_id (example_record Queued)"
    by (simp_all add: example_record_def new_task_record_def)
  have "recoverable ''7'' (example_record Queued) r' s'"
    using save_mutated_record_atomic[OF example_settled[of Queued "[False, True]", folded s_def] r w st]
    by blast
  moreover have "tr_status r' = TCompleted"
    using stamped_props(3)[OF st] by (simp add: example_record_def)
  ultimately show ?thesis using w unfolding s_def by blast
qed

end
