(* ===== verification/TaskOps.thy ===== *)
theory TaskOps
  imports TaskRecord
begin

section \<open>What the operations of the queue decide about a task (\<open>queue.rs\<close>, \<open>QueueManager\<close>)\<close>

text \<open>
  Every operation on a task looks its record up, decides from the record alone whether and how to change it,
  and saves the changed record. This theory holds the decisions, one per operation: refusing it
  (\<open>Ok(None)\<close>), failing, returning the record as it is, or saving a new one, with or without counting the
  change as activity of the chat. The lookup and the saving are in \<open>QueueManager\<close>.
\<close>

subsection \<open>Decisions\<close>

datatype decision =
    Refuse
  | Abort string
  | Keep task_record
  | Save task_record bool

definition terminal :: "task_status \<Rightarrow> bool" where
  "terminal st = (st = Cancelled \<or> st = TCompleted)"

definition if_free :: "(task_record \<Rightarrow> decision) \<Rightarrow> task_record \<Rightarrow> decision" where
  \<comment> \<open>\<open>if task_transfer_or_final_ack_pending(&record) { return Ok(None) }\<close>\<close>
  "if_free d r = (if transfer_or_ack_pending r then Refuse else d r)"

definition if_unreserved :: "(task_record \<Rightarrow> decision) \<Rightarrow> task_record \<Rightarrow> decision" where
  \<comment> \<open>\<open>ensure_task_transfer_not_pending(&record)?\<close>\<close>
  "if_unreserved d r = (case ensure_transfer_not_pending r of Inl e \<Rightarrow> Abort e | Inr _ \<Rightarrow> d r)"

definition save_result :: "bool \<Rightarrow> string + task_record \<Rightarrow> decision" where
  "save_result activity q = (case q of Inl e \<Rightarrow> Abort e | Inr r \<Rightarrow> Save r activity)"

definition matches :: "'a option \<Rightarrow> 'a \<Rightarrow> bool" where
  \<comment> \<open>\<open>!expected.is_some_and(|value| value != actual)\<close>\<close>
  "matches expected actual = (case expected of None \<Rightarrow> True | Some v \<Rightarrow> actual = v)"

definition already_terminal :: "task_record \<Rightarrow> string" where
  "already_terminal r = ''task '' @ tr_id r @ '' is already terminal''"

subsection \<open>The generic updates\<close>

type_synonym mutation = "task_record \<Rightarrow> string + task_record"

definition update_op :: "bool \<Rightarrow> mutation \<Rightarrow> task_record \<Rightarrow> decision" where
  "update_op activity mutate = if_unreserved (\<lambda>r. save_result activity (mutate r))"

definition update_if_current :: "task_status list \<Rightarrow> mutation \<Rightarrow> task_record \<Rightarrow> decision" where
  "update_if_current expected_statuses mutate =
     if_free (\<lambda>r. if tr_status r \<notin> set expected_statuses then Refuse else save_result True (mutate r))"

definition update_if_generation :: "u64 \<Rightarrow> bool \<Rightarrow> mutation \<Rightarrow> task_record \<Rightarrow> decision" where
  "update_if_generation expected_generation activity mutate =
     if_free (\<lambda>r. if tr_generation r \<noteq> expected_generation then Refuse
                  else save_result activity (mutate r))"

definition update_if_generation_and_status ::
  "u64 \<Rightarrow> task_status list \<Rightarrow> bool \<Rightarrow> mutation \<Rightarrow> task_record \<Rightarrow> decision" where
  "update_if_generation_and_status expected_generation expected_statuses activity mutate =
     if_free (\<lambda>r. if tr_generation r \<noteq> expected_generation \<or> tr_status r \<notin> set expected_statuses then Refuse
                  else save_result activity (mutate r))"

subsection \<open>Claiming a task for another run\<close>

definition resumable_failed_group :: "bool \<Rightarrow> task_record \<Rightarrow> bool" where
  "resumable_failed_group retry_failed r =
     (\<not> retry_failed \<and> tr_status r = TFailed
      \<and> (case tr_attempt r of None \<Rightarrow> False
         | Some snapshot \<Rightarrow> sn_independent_entries snapshot \<and> verified_entries snapshot = 0
             \<and> list_ex (\<lambda>e. ae_state e \<in> {Pending, Downloading, Downloaded, Interrupted}) (sn_entries snapshot)))"

definition claim_allowed :: "bool \<Rightarrow> task_record \<Rightarrow> bool" where
  "claim_allowed retry_failed r =
     (if retry_failed then tr_status r \<in> {TFailed, PartiallyCompleted}
      else tr_status r \<in> {Received, AwaitingSelection, AwaitingConfirmation, AwaitingDuplicateChoice,
             PartiallyCompleted, TInterrupted} \<or> resumable_failed_group retry_failed r)"

definition generation_overflow :: "task_record \<Rightarrow> string" where
  "generation_overflow r = ''task '' @ tr_id r @ '' generation overflow''"

definition claimed :: "u64 \<Rightarrow> task_record \<Rightarrow> task_record" where
  \<comment> \<open>the fields both claims reset\<close>
  "claimed next_generation r =
     r\<lparr>tr_generation := next_generation, tr_status := Preparing, tr_cancel_requested := False,
       tr_error := None, tr_status_message_id := None\<rparr>"

definition count_action :: "task_record \<Rightarrow> task_record" where
  "count_action r = r\<lparr>tr_user_actions := saturating_add (tr_user_actions r) 1\<rparr>"

definition reopen_attempt :: "bool \<Rightarrow> task_record \<Rightarrow> task_record" where
  "reopen_attempt retry_failed r = (case tr_attempt r of
      None \<Rightarrow> r
    | Some snapshot \<Rightarrow>
        if sn_independent_entries snapshot
        then refresh_attempt_counts (r\<lparr>tr_attempt := Some (sanitize_errors (prepare_resume retry_failed snapshot))\<rparr>)
        else r\<lparr>tr_attempt := None, tr_entries_completed := 0, tr_entries_failed := 0\<rparr>)"

definition claim_resume_in_store ::
  "bool \<Rightarrow> u64 option \<Rightarrow> i64 option \<Rightarrow> task_record \<Rightarrow> decision" where
  "claim_resume_in_store retry_failed expected_generation expected_chat_id r =
     (if \<not> matches expected_generation (tr_generation r) \<or> \<not> matches expected_chat_id (tr_chat_id r)
      then Refuse
      else if \<not> claim_allowed retry_failed r then Refuse
      else if retry_failed \<and> (case tr_attempt r of None \<Rightarrow> False
                | Some snapshot \<Rightarrow> sn_independent_entries snapshot \<and> failed_entries snapshot = 0)
      then Refuse
      else case checked_add (tr_generation r) 1 of
          None \<Rightarrow> Abort (generation_overflow r)
        | Some g \<Rightarrow> Save (count_action (reopen_attempt retry_failed (claimed g r))) True)"

definition claim_resume_with_constraints ::
  "u64 option \<Rightarrow> i64 option \<Rightarrow> bool \<Rightarrow> task_record \<Rightarrow> decision" where
  "claim_resume_with_constraints expected_generation expected_chat_id retry_failed =
     if_unreserved (claim_resume_in_store retry_failed expected_generation expected_chat_id)"

definition claim_resume :: "bool \<Rightarrow> task_record \<Rightarrow> decision" where
  "claim_resume retry_failed = claim_resume_with_constraints None None retry_failed"

definition claim_resume_for_chat_if_generation :: "u64 \<Rightarrow> i64 \<Rightarrow> bool \<Rightarrow> task_record \<Rightarrow> decision" where
  "claim_resume_for_chat_if_generation expected_generation chat_id retry_failed =
     claim_resume_with_constraints (Some expected_generation) (Some chat_id) retry_failed"

definition claim_episode_retry_in_store :: "u64 \<Rightarrow> i64 \<Rightarrow> u32 \<Rightarrow> task_record \<Rightarrow> decision" where
  "claim_episode_retry_in_store expected_generation chat_id index r =
     (if tr_generation r \<noteq> expected_generation \<or> tr_chat_id r \<noteq> chat_id
         \<or> tr_status r \<notin> {TFailed, PartiallyCompleted, TInterrupted}
      then Refuse
      else case tr_attempt r of
          None \<Rightarrow> Refuse
        | Some snapshot \<Rightarrow>
            (case prepare_episode_retry index snapshot of
               (False, _) \<Rightarrow> Refuse
             | (True, snapshot) \<Rightarrow>
                 (case checked_add (tr_generation r) 1 of
                    None \<Rightarrow> Abort (generation_overflow r)
                  | Some g \<Rightarrow> Save (count_action (refresh_attempt_counts
                                (claimed g (r\<lparr>tr_attempt := Some snapshot\<rparr>)))) True)))"

definition claim_episode_retry_for_chat_if_generation :: "u64 \<Rightarrow> i64 \<Rightarrow> u32 \<Rightarrow> task_record \<Rightarrow> decision" where
  "claim_episode_retry_for_chat_if_generation expected_generation chat_id index =
     if_unreserved (claim_episode_retry_in_store expected_generation chat_id index)"

subsection \<open>Jobs and statuses\<close>

definition replace_job :: "job_request \<times> bool \<Rightarrow> task_status \<Rightarrow> mutation" where
  \<comment> \<open>the first argument is what \<open>sanitize_job_for_storage\<close> returned\<close>
  "replace_job sanitized status r = (case sanitized of (job, url_was_sanitized) \<Rightarrow>
     if terminal (tr_status r) then Inl (already_terminal r)
     else Inr (r\<lparr>tr_original_url := job_url job,
                 tr_url_was_sanitized := (tr_url_was_sanitized r \<or> url_was_sanitized),
                 tr_display_metadata := (if tr_job r \<noteq> job then None else tr_display_metadata r),
                 tr_job := job, tr_status := status, tr_cancel_requested := False, tr_error := None\<rparr>))"

definition update_job_if_current ::
  "task_status list \<Rightarrow> job_request \<times> bool \<Rightarrow> task_status \<Rightarrow> task_record \<Rightarrow> decision" where
  "update_job_if_current expected_statuses sanitized status =
     update_if_current expected_statuses (replace_job sanitized status)"

definition update_job_if_generation ::
  "u64 \<Rightarrow> task_status list \<Rightarrow> job_request \<times> bool \<Rightarrow> task_status \<Rightarrow> task_record \<Rightarrow> decision" where
  "update_job_if_generation expected_generation expected_statuses sanitized status =
     update_if_generation_and_status expected_generation expected_statuses True (replace_job sanitized status)"

definition change_status :: "task_status \<Rightarrow> string option \<Rightarrow> mutation" where
  "change_status status error r =
     (if tr_status r = Cancelled \<and> status \<noteq> Cancelled
      then Inl (''task '' @ tr_id r @ '' was canceled'')
      else if tr_status r = TCompleted \<and> status \<noteq> TCompleted
      then Inl (''task '' @ tr_id r @ '' is already complete'')
      else Inr (r\<lparr>tr_status := status,
                  tr_cancel_requested := (if status \<notin> {Running, AwaitingConfirmation} then False
                                          else tr_cancel_requested r),
                  tr_error := error\<rparr>))"

definition set_status :: "task_status \<Rightarrow> string option \<Rightarrow> task_record \<Rightarrow> decision" where
  "set_status status error = update_op True (change_status status error)"

definition set_status_if_current :: "task_status list \<Rightarrow> task_status \<Rightarrow> task_record \<Rightarrow> decision" where
  "set_status_if_current expected_statuses status =
     update_if_current expected_statuses (change_status status None)"

definition set_status_if_generation :: "u64 \<Rightarrow> task_status list \<Rightarrow> task_status \<Rightarrow> task_record \<Rightarrow> decision" where
  "set_status_if_generation expected_generation expected_statuses status =
     update_if_generation_and_status expected_generation expected_statuses True (change_status status None)"

definition begin_run_when :: "(task_record \<Rightarrow> bool) \<Rightarrow> task_record \<Rightarrow> decision" where
  "begin_run_when current = if_free (\<lambda>r.
     if \<not> current r \<or> tr_status r \<noteq> Queued then Refuse
     else Save (r\<lparr>tr_status := Running, tr_cancel_requested := False, tr_error := None\<rparr>) True)"

definition begin_run :: "task_record \<Rightarrow> decision" where
  "begin_run = begin_run_when (\<lambda>_. True)"

definition begin_run_if_generation :: "u64 \<Rightarrow> task_record \<Rightarrow> decision" where
  "begin_run_if_generation expected_generation = begin_run_when (\<lambda>r. tr_generation r = expected_generation)"

definition begin_verification_when :: "(task_record \<Rightarrow> bool) \<Rightarrow> task_record \<Rightarrow> decision" where
  "begin_verification_when current = if_free (\<lambda>r.
     if \<not> current r \<or> tr_status r \<noteq> Running then Refuse
     else Save (r\<lparr>tr_status := Verifying, tr_cancel_requested := False\<rparr>) True)"

definition begin_verification :: "task_record \<Rightarrow> decision" where
  "begin_verification = begin_verification_when (\<lambda>_. True)"

definition begin_verification_if_generation :: "u64 \<Rightarrow> task_record \<Rightarrow> decision" where
  "begin_verification_if_generation expected_generation =
     begin_verification_when (\<lambda>r. tr_generation r = expected_generation)"

subsection \<open>Plans\<close>

definition set_display_metadata_if_generation :: "u64 \<Rightarrow> plan_snapshot \<Rightarrow> task_record \<Rightarrow> decision" where
  "set_display_metadata_if_generation expected_generation metadata =
     update_if_generation_and_status expected_generation [Preparing, Running] False
       (\<lambda>r. Inr (r\<lparr>tr_display_metadata := Some metadata\<rparr>))"

definition stamp_plan :: "(string \<Rightarrow> string) \<Rightarrow> task_record \<Rightarrow> plan_snapshot \<Rightarrow> plan_snapshot" where
  "stamp_plan sha r plan =
     (if pl_group_entries plan \<noteq> []
      then plan\<lparr>pl_publication_namespace := Some (bilibili_publication_namespace sha r)\<rparr> else plan)"

definition plan_differences :: "plan_snapshot option \<Rightarrow> plan_snapshot \<Rightarrow> string list" where
  "plan_differences previous current = (case previous of
      None \<Rightarrow> [] | Some previous \<Rightarrow> blocking_differences previous current)"

definition set_plan_if_generation_inner ::
  "(string \<Rightarrow> string) \<Rightarrow> u64 option \<Rightarrow> plan_snapshot \<Rightarrow> task_record \<Rightarrow> decision" where
  \<comment> \<open>the differences the caller also gets are those of \<open>plan_differences\<close>\<close>
  "set_plan_if_generation_inner sha expected_generation current r =
     (if transfer_or_ack_pending r
      then (if expected_generation \<noteq> None then Refuse
            else case ensure_transfer_not_pending r of Inl e \<Rightarrow> Abort e | Inr _ \<Rightarrow> Refuse)
      else if \<not> matches expected_generation (tr_generation r) then Refuse
      else if tr_status r \<noteq> Running
      then (if expected_generation \<noteq> None then Refuse
            else Abort (''task '' @ tr_id r @ '' changed state before plan validation completed''))
      else let current = stamp_plan sha r current;
               differences = plan_differences (tr_plan r) current
           in Save (if differences \<noteq> []
                    then r\<lparr>tr_proposed_plan := Some current, tr_status := AwaitingConfirmation\<rparr>
                    else r\<lparr>tr_plan := Some current,
                           tr_proposed_plan := (if tr_plan r = None then tr_proposed_plan r else None)\<rparr>)
                (differences \<noteq> []))"

definition set_plan_if_generation ::
  "(string \<Rightarrow> string) \<Rightarrow> u64 \<Rightarrow> plan_snapshot \<Rightarrow> task_record \<Rightarrow> decision" where
  "set_plan_if_generation sha expected_generation current =
     set_plan_if_generation_inner sha (Some expected_generation) current"

definition accept_proposed_plan_with_constraints ::
  "(string \<Rightarrow> string) \<Rightarrow> u64 option \<Rightarrow> i64 option \<Rightarrow> task_record \<Rightarrow> decision" where
  "accept_proposed_plan_with_constraints sha expected_generation expected_chat_id = if_unreserved (\<lambda>r.
     if \<not> matches expected_generation (tr_generation r) \<or> \<not> matches expected_chat_id (tr_chat_id r)
        \<or> tr_status r \<noteq> AwaitingConfirmation
     then Refuse
     else case tr_proposed_plan r of
         None \<Rightarrow> Refuse
       | Some plan \<Rightarrow>
           let plan = stamp_plan sha r plan;
               r = reconcile_accepted_attempt sha (tr_plan r) plan (r\<lparr>tr_proposed_plan := None\<rparr>)
           in Save (count_action (r\<lparr>tr_plan := Some plan, tr_status := Preparing,
                                    tr_cancel_requested := False\<rparr>)) True)"

definition accept_proposed_plan_for_chat_if_generation ::
  "(string \<Rightarrow> string) \<Rightarrow> u64 \<Rightarrow> i64 \<Rightarrow> task_record \<Rightarrow> decision" where
  "accept_proposed_plan_for_chat_if_generation sha expected_generation chat_id =
     accept_proposed_plan_with_constraints sha (Some expected_generation) (Some chat_id)"

subsection \<open>Progress and attempts\<close>

definition collection_progress :: "nat \<Rightarrow> nat \<Rightarrow> nat \<Rightarrow> task_record \<Rightarrow> task_record" where
  "collection_progress total_count completed failed r =
     (let entries = max total_count 1
      in r\<lparr>tr_entries_total := entries, tr_entries_completed := min completed entries,
           tr_entries_failed := min failed entries\<rparr>)"

definition set_collection_progress :: "nat \<Rightarrow> nat \<Rightarrow> nat \<Rightarrow> task_record \<Rightarrow> decision" where
  "set_collection_progress total_count completed failed =
     update_op True (\<lambda>r. Inr (collection_progress total_count completed failed r))"

definition set_collection_progress_if_generation ::
  "u64 \<Rightarrow> nat \<Rightarrow> nat \<Rightarrow> nat \<Rightarrow> task_record \<Rightarrow> decision" where
  "set_collection_progress_if_generation expected_generation total_count completed failed r =
     (if transfer_or_ack_pending r \<or> tr_generation r \<noteq> expected_generation then Refuse
      else if tr_attempt r \<noteq> None then Keep r
      else Save (collection_progress total_count completed failed r) True)"

definition install_attempt :: "(string \<Rightarrow> string) \<Rightarrow> attempt_snapshot \<Rightarrow> mutation" where
  "install_attempt sha snapshot r =
     (if tr_status r = TCompleted \<and> sn_independent_entries snapshot then Inr r
      else let snapshot = stamp_publication_namespace sha r (sanitize_errors snapshot);
               snapshot = (case terminal_attempt_outcome (tr_status r) of
                             None \<Rightarrow> snapshot | Some outcome \<Rightarrow> finish outcome snapshot)
           in Inr (refresh_attempt_counts (r\<lparr>tr_attempt := Some snapshot\<rparr>)))"

definition set_bilibili_attempt_if_generation ::
  "(string \<Rightarrow> string) \<Rightarrow> u64 \<Rightarrow> attempt_snapshot \<Rightarrow> task_record \<Rightarrow> decision" where
  "set_bilibili_attempt_if_generation sha expected_generation snapshot =
     update_if_generation expected_generation True (install_attempt sha snapshot)"

definition added_receipt :: "task_record \<Rightarrow> task_record \<Rightarrow> bool" where
  \<comment> \<open>whether the publication service is to be notified\<close>
  "added_receipt before after =
     list_ex (\<lambda>k. k \<notin> set (verified_receipt_keys before)) (verified_receipt_keys after)"

definition update_bilibili_attempt_batch_if_generation ::
  "u64 \<Rightarrow> (u32 \<times> attempt_update) list \<Rightarrow> task_record \<Rightarrow> decision" where
  "update_bilibili_attempt_batch_if_generation expected_generation updates r =
     (if transfer_or_ack_pending r \<or> tr_generation r \<noteq> expected_generation then Refuse
      else if updates = [] then Keep r
      else case tr_attempt r of
          None \<Rightarrow> Keep r
        | Some snapshot \<Rightarrow>
            if sn_outcome snapshot \<noteq> None then Keep r
            else Save (refresh_attempt_counts (r\<lparr>tr_attempt :=
                   Some (fold (\<lambda>(index, update). apply_update update index) updates snapshot)\<rparr>)) True)"

definition update_bilibili_attempt_if_generation ::
  "u64 \<Rightarrow> u32 \<Rightarrow> attempt_update \<Rightarrow> task_record \<Rightarrow> decision" where
  "update_bilibili_attempt_if_generation expected_generation index update =
     update_bilibili_attempt_batch_if_generation expected_generation [(index, update)]"

definition record_staging_path_if_generation :: "u64 \<Rightarrow> string \<Rightarrow> task_record \<Rightarrow> decision" where
  "record_staging_path_if_generation expected_generation path =
     update_if_generation expected_generation False
       (\<lambda>r. Inr (if path \<in> set (tr_staging_attempts r) then r
                 else r\<lparr>tr_staging_attempts := tr_staging_attempts r @ [path]\<rparr>))"

definition put_message_id :: "i64 \<Rightarrow> mutation" where
  "put_message_id message_id r = Inr (r\<lparr>tr_status_message_id := Some message_id\<rparr>)"

definition set_status_message_id :: "i64 \<Rightarrow> task_record \<Rightarrow> decision" where
  "set_status_message_id message_id = update_op False (put_message_id message_id)"

definition set_status_message_id_if_generation :: "u64 \<Rightarrow> i64 \<Rightarrow> task_record \<Rightarrow> decision" where
  "set_status_message_id_if_generation expected_generation message_id =
     update_if_generation expected_generation False (put_message_id message_id)"

definition set_status_message_id_if_generation_and_status ::
  "u64 \<Rightarrow> task_status list \<Rightarrow> i64 \<Rightarrow> task_record \<Rightarrow> decision" where
  "set_status_message_id_if_generation_and_status expected_generation expected_statuses message_id =
     update_if_generation_and_status expected_generation expected_statuses False (put_message_id message_id)"

subsection \<open>Failing, interrupting, cancelling\<close>

definition attach_attempt :: "(string \<Rightarrow> string) \<Rightarrow> attempt_snapshot option \<Rightarrow> task_record \<Rightarrow> task_record" where
  "attach_attempt sha snapshot r = (case snapshot of
      None \<Rightarrow> r
    | Some snapshot \<Rightarrow> r\<lparr>tr_attempt := Some (stamp_publication_namespace sha r (sanitize_errors snapshot))\<rparr>)"

definition end_run :: "bool \<Rightarrow> mutation \<Rightarrow> mutation" where
  \<comment> \<open>the common guards of failing and interrupting\<close>
  "end_run reject_pending_cancellation mutate r =
     (if terminal (tr_status r) then Inl (already_terminal r)
      else if reject_pending_cancellation \<and> tr_cancel_requested r
      then Inl (''task '' @ tr_id r @ '' has a pending cancellation request'')
      else mutate r)"

definition fail_record :: "(string \<Rightarrow> string) \<Rightarrow> string \<Rightarrow> attempt_snapshot option \<Rightarrow> task_record \<Rightarrow> task_record" where
  "fail_record sha message snapshot r =
     (let r = attach_attempt sha snapshot r;
          has_verified_entries = (case tr_attempt r of None \<Rightarrow> False
            | Some s \<Rightarrow> sn_independent_entries s \<and> verified_entries s > 0);
          r = r\<lparr>tr_status := (if has_verified_entries then PartiallyCompleted else TFailed),
                tr_cancel_requested := False, tr_error := Some message\<rparr>;
          has_attempt = tr_attempt r \<noteq> None;
          r = finish_attempt (if has_verified_entries then OPartiallyCompleted else OFailed) r
      in if \<not> has_attempt \<and> tr_entries_total r \<le> 1 \<and> tr_entries_completed r = 0
         then r\<lparr>tr_entries_failed := 1\<rparr> else r)"

definition fail_if_generation_inner ::
  "(string \<Rightarrow> string) \<Rightarrow> u64 \<Rightarrow> string \<Rightarrow> attempt_snapshot option \<Rightarrow> bool \<Rightarrow> task_record \<Rightarrow> decision" where
  \<comment> \<open>\<open>fail_with_bilibili_attempt_if_generation_inner\<close>\<close>
  "fail_if_generation_inner sha expected_generation message snapshot reject_pending_cancellation =
     update_if_generation expected_generation True
       (end_run reject_pending_cancellation (\<lambda>r. Inr (fail_record sha message snapshot r)))"

definition fail_if_generation :: "(string \<Rightarrow> string) \<Rightarrow> u64 \<Rightarrow> string \<Rightarrow> task_record \<Rightarrow> decision" where
  "fail_if_generation sha expected_generation message =
     fail_if_generation_inner sha expected_generation message None False"

definition fail_with_attempt_unless_cancelled ::
  "(string \<Rightarrow> string) \<Rightarrow> u64 \<Rightarrow> string \<Rightarrow> attempt_snapshot option \<Rightarrow> task_record \<Rightarrow> decision" where
  \<comment> \<open>\<open>fail_with_bilibili_attempt_if_generation_unless_cancelled\<close>\<close>
  "fail_with_attempt_unless_cancelled sha expected_generation message snapshot =
     fail_if_generation_inner sha expected_generation message snapshot True"

definition interrupt_record ::
  "(string \<Rightarrow> string) \<Rightarrow> string \<Rightarrow> attempt_snapshot option \<Rightarrow> task_record \<Rightarrow> task_record" where
  "interrupt_record sha message snapshot r =
     finish_attempt OInterrupted ((attach_attempt sha snapshot r)
       \<lparr>tr_status := TInterrupted, tr_cancel_requested := False, tr_error := Some message\<rparr>)"

definition interrupt_if_generation_inner ::
  "(string \<Rightarrow> string) \<Rightarrow> u64 \<Rightarrow> string \<Rightarrow> attempt_snapshot option \<Rightarrow> bool \<Rightarrow> task_record \<Rightarrow> decision" where
  \<comment> \<open>\<open>interrupt_with_bilibili_attempt_if_generation_inner\<close>\<close>
  "interrupt_if_generation_inner sha expected_generation message snapshot reject_pending_cancellation =
     update_if_generation expected_generation True
       (end_run reject_pending_cancellation (\<lambda>r. Inr (interrupt_record sha message snapshot r)))"

definition interrupt_if_generation ::
  "(string \<Rightarrow> string) \<Rightarrow> u64 \<Rightarrow> string \<Rightarrow> attempt_snapshot option \<Rightarrow> task_record \<Rightarrow> decision" where
  "interrupt_if_generation sha expected_generation message snapshot =
     interrupt_if_generation_inner sha expected_generation message snapshot False"

definition interrupt_unless_cancelled ::
  "(string \<Rightarrow> string) \<Rightarrow> u64 \<Rightarrow> string \<Rightarrow> attempt_snapshot option \<Rightarrow> task_record \<Rightarrow> decision" where
  "interrupt_unless_cancelled sha expected_generation message snapshot =
     interrupt_if_generation_inner sha expected_generation message snapshot True"

definition cancelled_record :: "task_record \<Rightarrow> task_record" where
  "cancelled_record r =
     finish_attempt OCancelled (r\<lparr>tr_status := Cancelled, tr_cancel_requested := False, tr_error := None\<rparr>)"

definition cancel_matching ::
  "u64 option \<Rightarrow> i64 \<Rightarrow> task_status list option \<Rightarrow> bool \<Rightarrow> bool \<Rightarrow> task_record \<Rightarrow> decision" where
  \<comment> \<open>the record part of \<open>cancel_matching_and_capture\<close>\<close>
  "cancel_matching expected_generation chat_id expected_statuses reject_verifying running_sets_request =
     if_unreserved (\<lambda>r.
       if \<not> matches expected_generation (tr_generation r) \<or> tr_chat_id r \<noteq> chat_id
          \<or> (case expected_statuses of None \<Rightarrow> False | Some statuses \<Rightarrow> tr_status r \<notin> set statuses)
          \<or> \<not> is_unfinished (tr_status r)
          \<or> (reject_verifying \<and> tr_status r = Verifying)
       then Refuse
       else if running_sets_request \<and> tr_status r = Running
       then Save (count_action (r\<lparr>tr_cancel_requested := True\<rparr>)) False
       else Save (finish_attempt OCancelled (count_action
              (r\<lparr>tr_status := Cancelled, tr_cancel_requested := False, tr_error := None\<rparr>))) True)"

definition cancel :: "i64 \<Rightarrow> task_record \<Rightarrow> decision" where
  "cancel chat_id = cancel_matching None chat_id None True True"

definition cancel_for_chat_if_generation :: "u64 \<Rightarrow> i64 \<Rightarrow> task_record \<Rightarrow> decision" where
  "cancel_for_chat_if_generation expected_generation chat_id =
     cancel_matching (Some expected_generation) chat_id None True True"

definition cancel_if_current :: "i64 \<Rightarrow> task_status list \<Rightarrow> task_record \<Rightarrow> decision" where
  "cancel_if_current chat_id expected_statuses =
     cancel_matching None chat_id (Some expected_statuses) False False"

definition cancel_if_generation_and_status ::
  "u64 \<Rightarrow> i64 \<Rightarrow> task_status list \<Rightarrow> task_record \<Rightarrow> decision" where
  "cancel_if_generation_and_status expected_generation chat_id expected_statuses =
     cancel_matching (Some expected_generation) chat_id (Some expected_statuses) False True"

definition cancellation_due :: "task_record \<Rightarrow> bool" where
  "cancellation_due r = (tr_cancel_requested r \<and> tr_status r \<in> {Running, AwaitingConfirmation})"

definition finish_cancellation :: "task_record \<Rightarrow> decision" where
  "finish_cancellation = if_free (\<lambda>r.
     if \<not> cancellation_due r then Refuse else Save (cancelled_record r) True)"

definition finish_cancellation_with_attempt ::
  "(string \<Rightarrow> string) \<Rightarrow> u64 \<Rightarrow> attempt_snapshot option \<Rightarrow> task_record \<Rightarrow> decision" where
  \<comment> \<open>\<open>finish_cancellation_with_bilibili_attempt_if_generation\<close>\<close>
  "finish_cancellation_with_attempt sha expected_generation snapshot = if_free (\<lambda>r.
     if tr_generation r \<noteq> expected_generation \<or> \<not> cancellation_due r then Refuse
     else Save (cancelled_record (case snapshot of None \<Rightarrow> r
            | Some snapshot \<Rightarrow> r\<lparr>tr_attempt := Some (stamp_publication_namespace sha r snapshot)\<rparr>)) True)"

definition finish_cancellation_if_generation :: "(string \<Rightarrow> string) \<Rightarrow> u64 \<Rightarrow> task_record \<Rightarrow> decision" where
  "finish_cancellation_if_generation sha expected_generation =
     finish_cancellation_with_attempt sha expected_generation None"

definition recover_record :: "task_record \<Rightarrow> task_record" where
  \<comment> \<open>the change made to a task found unfinished at startup\<close>
  "recover_record r =
     (let r = (if tr_cancel_requested r
               then r\<lparr>tr_status := Cancelled, tr_cancel_requested := False, tr_error := None\<rparr>
               else r\<lparr>tr_status := TInterrupted, tr_cancel_requested := False,
                      tr_error := Some ''Task was interrupted by process restart.''\<rparr>)
      in finish_attempt (if tr_status r = Cancelled then OCancelled else OInterrupted) r)"

definition needs_recovery :: "task_record \<Rightarrow> bool" where
  "needs_recovery r = (\<not> transfer_or_ack_pending r \<and> is_unfinished (tr_status r)
     \<and> tr_status r \<notin> {TInterrupted, PartiallyCompleted})"

end
