(* ===== verification/TaskContract.thy ===== *)
theory TaskContract
  imports TaskOps
begin

section \<open>The contract of the queue's operations\<close>

text \<open>
  What every operation on a task keeps, whatever it decides: the locale \<open>task_operation\<close> states it
  (\<open>input_ok\<close> is what the operation needs of its other inputs, a well-formed attempt for instance),
  \<open>generation_operation\<close> adds that a caller holding a stale generation changes nothing, and both are
  interpreted on every operation of \<open>TaskOps\<close>.
\<close>

subsection \<open>Well-formed records\<close>

definition attempt_ok :: "task_record \<Rightarrow> bool" where
  "attempt_ok r = (case tr_attempt r of None \<Rightarrow> True | Some s \<Rightarrow> attempt_wf s)"

definition cancel_ok :: "task_record \<Rightarrow> bool" where
  \<comment> \<open>a cancellation is pending only for a task that can still act on it\<close>
  "cancel_ok r = (tr_cancel_requested r \<longrightarrow> tr_status r = Running \<or> tr_status r = AwaitingConfirmation)"

definition completion_ok :: "task_record \<Rightarrow> bool" where
  \<comment> \<open>a completed task has its outputs recorded, and a closed attempt with every grouped entry verified\<close>
  "completion_ok r = (tr_status r = TCompleted \<longrightarrow> tr_saved_location r \<noteq> None
     \<and> (case tr_attempt r of None \<Rightarrow> True
        | Some s \<Rightarrow> sn_outcome s \<noteq> None
            \<and> (sn_independent_entries s \<longrightarrow> list_all (\<lambda>e. ae_state e = Verified) (sn_entries s))))"

definition transfer_ok :: "task_record \<Rightarrow> bool" where
  \<comment> \<open>a task in transfer is not finished, and neither is the state it will be restored to\<close>
  "transfer_ok r = (case tr_transfer r of None \<Rightarrow> True
     | Some t \<Rightarrow> \<not> terminal (tr_status r) \<and> \<not> terminal (tt_previous_status t)
         \<and> (tt_previous_cancel_requested t
              \<longrightarrow> tt_previous_status t = Running \<or> tt_previous_status t = AwaitingConfirmation))"

definition record_ok :: "task_record \<Rightarrow> bool" where
  "record_ok r = (counts_ok r \<and> attempt_ok r \<and> cancel_ok r \<and> completion_ok r \<and> transfer_ok r)"

definition same_task :: "task_record \<Rightarrow> task_record \<Rightarrow> bool" where
  "same_task r r' = (tr_id r' = tr_id r \<and> tr_chat_id r' = tr_chat_id r
     \<and> tr_update_id r' = tr_update_id r \<and> tr_message_id r' = tr_message_id r
     \<and> tr_submitter_user_id r' = tr_submitter_user_id r \<and> tr_ordinal r' = tr_ordinal r
     \<and> tr_created_at r' = tr_created_at r)"

definition evolves :: "task_record \<Rightarrow> task_record \<Rightarrow> bool" where
  \<comment> \<open>the second record is a later state of the task of the first\<close>
  "evolves r r' = (same_task r r' \<and> tr_generation r \<le> tr_generation r'
     \<and> (terminal (tr_status r) \<longrightarrow> tr_status r' = tr_status r))"

lemma same_task_refl [simp]: "same_task r r"
  by (simp add: same_task_def)

lemma evolves_refl [simp]: "evolves r r"
  by (simp add: evolves_def)

lemma evolves_trans: "evolves a b \<Longrightarrow> evolves b c \<Longrightarrow> evolves a c"
  by (auto simp: evolves_def same_task_def)

subsection \<open>The interface\<close>

locale task_operation =
  fixes input_ok :: bool and decide :: "task_record \<Rightarrow> decision"
  assumes blocked: "transfer_or_ack_pending r \<Longrightarrow> decide r \<noteq> Save r' a"
    and evolving: "input_ok \<Longrightarrow> record_ok r \<Longrightarrow> decide r = Save r' a \<Longrightarrow> evolves r r'"
    and sound: "input_ok \<Longrightarrow> record_ok r \<Longrightarrow> decide r = Save r' a \<Longrightarrow> record_ok r'"
    and keeping: "decide r = Keep r' \<Longrightarrow> r' = r"

locale generation_operation =
  fixes input_ok :: bool and operation :: "u64 \<Rightarrow> task_record \<Rightarrow> decision"
  assumes operation: "task_operation input_ok (operation g)"
    and stale: "tr_generation r \<noteq> g \<Longrightarrow> operation g r \<noteq> Save r' a"

sublocale generation_operation \<subseteq> at_generation: task_operation input_ok "operation g" for g
  by (rule operation)

subsection \<open>Laws of the generic updates\<close>

definition good_mutation :: "mutation \<Rightarrow> bool" where
  "good_mutation m = (\<forall>r r'. record_ok r \<longrightarrow> m r = Inr r' \<longrightarrow> evolves r r' \<and> record_ok r')"

lemma good_mutationI:
  "(\<And>r r'. record_ok r \<Longrightarrow> m r = Inr r' \<Longrightarrow> evolves r r') \<Longrightarrow>
   (\<And>r r'. record_ok r \<Longrightarrow> m r = Inr r' \<Longrightarrow> record_ok r') \<Longrightarrow> good_mutation m"
  by (simp add: good_mutation_def)

lemma save_result_Save [simp]: "save_result a q = Save r' b \<longleftrightarrow> q = Inr r' \<and> a = b"
  by (cases q) (auto simp: save_result_def)

lemma save_result_Keep [simp]: "save_result a q \<noteq> Keep r'"
  by (cases q) (auto simp: save_result_def)

lemma if_free_Save [simp]: "if_free d r = Save r' a \<longleftrightarrow> \<not> transfer_or_ack_pending r \<and> d r = Save r' a"
  by (simp add: if_free_def)

lemma if_free_Keep [simp]: "if_free d r = Keep r' \<longleftrightarrow> \<not> transfer_or_ack_pending r \<and> d r = Keep r'"
  by (simp add: if_free_def)

lemma ensure_transfer_not_pending_Inr [simp]:
  "ensure_transfer_not_pending r = Inr u \<longleftrightarrow> \<not> transfer_or_ack_pending r"
  by (auto simp: ensure_transfer_not_pending_def transfer_or_ack_pending_def split: option.splits)

lemma if_unreserved_blocked: "transfer_or_ack_pending r \<Longrightarrow> \<exists>e. if_unreserved d r = Abort e"
  by (auto simp: if_unreserved_def ensure_transfer_not_pending_def transfer_or_ack_pending_def
      split: option.splits)

lemma if_unreserved_free: "\<not> transfer_or_ack_pending r \<Longrightarrow> if_unreserved d r = d r"
  by (auto simp: if_unreserved_def ensure_transfer_not_pending_def transfer_or_ack_pending_def)

lemma if_unreserved_Save [simp]:
  "if_unreserved d r = Save r' a \<longleftrightarrow> \<not> transfer_or_ack_pending r \<and> d r = Save r' a"
  using if_unreserved_blocked[of r d] if_unreserved_free[of r d]
  by (cases "transfer_or_ack_pending r") auto

lemma if_unreserved_Keep [simp]:
  "if_unreserved d r = Keep r' \<longleftrightarrow> \<not> transfer_or_ack_pending r \<and> d r = Keep r'"
  using if_unreserved_blocked[of r d] if_unreserved_free[of r d]
  by (cases "transfer_or_ack_pending r") auto

lemma task_operationI:
  assumes "\<And>r r' a. d r = Save r' a \<Longrightarrow> \<not> transfer_or_ack_pending r"
    and "\<And>r r' a. P \<Longrightarrow> record_ok r \<Longrightarrow> d r = Save r' a \<Longrightarrow> evolves r r' \<and> record_ok r'"
    and "\<And>r r'. d r = Keep r' \<Longrightarrow> r' = r"
  shows "task_operation P d"
  using assms by unfold_locales blast+

lemma update_op_contract: "(P \<Longrightarrow> good_mutation m) \<Longrightarrow> task_operation P (update_op a m)"
  by (rule task_operationI) (auto simp: update_op_def good_mutation_def)

lemma update_if_current_contract: "(P \<Longrightarrow> good_mutation m) \<Longrightarrow> task_operation P (update_if_current ss m)"
  by (rule task_operationI) (auto simp: update_if_current_def good_mutation_def split: if_splits)

lemma update_if_generation_contract:
  "(P \<Longrightarrow> good_mutation m) \<Longrightarrow> generation_operation P (\<lambda>g. update_if_generation g a m)"
  by unfold_locales (auto simp: update_if_generation_def good_mutation_def split: if_splits)

lemma update_if_generation_and_status_contract:
  "(P \<Longrightarrow> good_mutation m) \<Longrightarrow> generation_operation P (\<lambda>g. update_if_generation_and_status g ss a m)"
  by unfold_locales (auto simp: update_if_generation_and_status_def good_mutation_def split: if_splits)

subsection \<open>What the building blocks keep\<close>

named_theorems record_parts

lemma record_ok_iff [record_parts]:
  "record_ok r \<longleftrightarrow> counts_ok r
     \<and> (\<forall>s. tr_attempt r = Some s \<longrightarrow> attempt_wf s)
     \<and> (tr_cancel_requested r \<longrightarrow> tr_status r = Running \<or> tr_status r = AwaitingConfirmation)
     \<and> (tr_status r = TCompleted \<longrightarrow> tr_saved_location r \<noteq> None)
     \<and> (\<forall>s. tr_status r = TCompleted \<longrightarrow> tr_attempt r = Some s \<longrightarrow> sn_outcome s \<noteq> None
           \<and> (sn_independent_entries s \<longrightarrow> list_all (\<lambda>e. ae_state e = Verified) (sn_entries s)))
     \<and> (\<forall>t. tr_transfer r = Some t \<longrightarrow> \<not> terminal (tr_status r) \<and> \<not> terminal (tt_previous_status t)
         \<and> (tt_previous_cancel_requested t
              \<longrightarrow> tt_previous_status t = Running \<or> tt_previous_status t = AwaitingConfirmation))"
  by (auto simp: record_ok_def attempt_ok_def cancel_ok_def completion_ok_def transfer_ok_def
      split: option.splits)

lemmas [record_parts] = evolves_def same_task_def

lemma record_ok_frame:
  assumes "counts_ok r' = counts_ok r" "tr_attempt r' = tr_attempt r" "tr_status r' = tr_status r"
    and "tr_cancel_requested r' = tr_cancel_requested r" "tr_saved_location r' = tr_saved_location r"
    and "tr_transfer r' = tr_transfer r"
  shows "record_ok r' = record_ok r"
  using assms by (simp add: record_ok_iff)

lemma refresh_attempt_counts_same [simp]:
  "tr_update_id (refresh_attempt_counts r) = tr_update_id r"
  "tr_message_id (refresh_attempt_counts r) = tr_message_id r"
  "tr_submitter_user_id (refresh_attempt_counts r) = tr_submitter_user_id r"
  "tr_ordinal (refresh_attempt_counts r) = tr_ordinal r"
  by (auto simp: refresh_attempt_counts_def Let_def split: option.splits)

lemma finish_attempt_same [simp]:
  "tr_update_id (finish_attempt oc r) = tr_update_id r"
  "tr_message_id (finish_attempt oc r) = tr_message_id r"
  "tr_submitter_user_id (finish_attempt oc r) = tr_submitter_user_id r"
  "tr_ordinal (finish_attempt oc r) = tr_ordinal r"
  by (auto simp: finish_attempt_def split: option.splits)

lemma refresh_wf [simp]: "attempt_wf (refresh_independent_skipped_entries s) = attempt_wf s"
  by (simp add: attempt_wf_def)

lemma counts_ok_frame [simp]:
  "counts_ok (r\<lparr>tr_status := st\<rparr>) = counts_ok r" "counts_ok (r\<lparr>tr_cancel_requested := c\<rparr>) = counts_ok r"
  "counts_ok (r\<lparr>tr_error := e\<rparr>) = counts_ok r" "counts_ok (r\<lparr>tr_plan := p\<rparr>) = counts_ok r"
  "counts_ok (r\<lparr>tr_proposed_plan := p\<rparr>) = counts_ok r" "counts_ok (r\<lparr>tr_user_actions := u\<rparr>) = counts_ok r"
  "counts_ok (r\<lparr>tr_generation := g\<rparr>) = counts_ok r" "counts_ok (r\<lparr>tr_status_message_id := i\<rparr>) = counts_ok r"
  "counts_ok (r\<lparr>tr_job := j\<rparr>) = counts_ok r" "counts_ok (r\<lparr>tr_display_metadata := m\<rparr>) = counts_ok r"
  "counts_ok (r\<lparr>tr_original_url := l\<rparr>) = counts_ok r" "counts_ok (r\<lparr>tr_url_was_sanitized := w\<rparr>) = counts_ok r"
  "counts_ok (r\<lparr>tr_attempt := a\<rparr>) = counts_ok r" "counts_ok (r\<lparr>tr_staging_attempts := ps\<rparr>) = counts_ok r"
  "counts_ok (r\<lparr>tr_saved_location := sl\<rparr>) = counts_ok r" "counts_ok (r\<lparr>tr_media_hashes := h\<rparr>) = counts_ok r"
  "counts_ok (r\<lparr>tr_hash_manifest := hm\<rparr>) = counts_ok r" "counts_ok (r\<lparr>tr_transfer := t\<rparr>) = counts_ok r"
  "counts_ok (r\<lparr>tr_transfer_phase := ph\<rparr>) = counts_ok r" "counts_ok (r\<lparr>tr_transfer_ack := k\<rparr>) = counts_ok r"
  by (simp_all add: counts_ok_def)

lemma counts_ok_refresh: "counts_ok r \<Longrightarrow> counts_ok (refresh_attempt_counts r)"
  by (rule refresh_attempt_counts_ok) simp

lemma sanitize_errors_simps [simp]:
  "sn_independent_entries (sanitize_errors s) = sn_independent_entries s"
  "sn_outcome (sanitize_errors s) = sn_outcome s"
  by (simp_all add: sanitize_errors_def)

lemma stamp_namespace_simps [simp]:
  "sn_independent_entries (stamp_publication_namespace sha r s) = sn_independent_entries s"
  "sn_entries (stamp_publication_namespace sha r s) = sn_entries s"
  "sn_outcome (stamp_publication_namespace sha r s) = sn_outcome s"
  "attempt_wf (stamp_publication_namespace sha r s) = attempt_wf s"
  by (simp_all add: stamp_publication_namespace_def attempt_wf_def)

lemma finish_keeps_grouping [simp]: "sn_independent_entries (finish oc s) = sn_independent_entries s"
  by (simp add: finish_def Let_def)

lemma finish_has_outcome: "sn_outcome (finish oc s) \<noteq> None"
  by (auto simp: finish_def Let_def split: option.splits)

lemma checked_add_Some: "checked_add a b = Some c \<Longrightarrow> a \<le> c"
  by (auto simp: checked_add_def word_le_nat_alt unat_word_ariths split: if_splits)

subsection \<open>Mutations\<close>

lemma record_ok_count_action [simp]: "record_ok (count_action r) = record_ok r"
  by (rule record_ok_frame) (simp_all add: count_action_def)

lemma evolves_count_action [simp]: "evolves r0 (count_action r) = evolves r0 r"
  by (simp add: count_action_def evolves_def same_task_def)

lemmas record_ok_framed = record_ok_frame[THEN iffD2]

lemma metadata_good: "good_mutation (\<lambda>r. Inr (r\<lparr>tr_display_metadata := m\<rparr>))"
  by (rule good_mutationI) (auto simp: evolves_def same_task_def elim!: record_ok_framed[rotated 6])

lemma put_message_id_good: "good_mutation (put_message_id i)"
  by (rule good_mutationI) (auto simp: put_message_id_def evolves_def same_task_def elim!: record_ok_framed[rotated 6])

lemma staging_path_good:
  "good_mutation (\<lambda>r. Inr (if p \<in> set (tr_staging_attempts r) then r
       else r\<lparr>tr_staging_attempts := tr_staging_attempts r @ [p]\<rparr>))"
  by (rule good_mutationI) (auto simp: evolves_def same_task_def elim!: record_ok_framed[rotated 6]
      split: if_splits)

text \<open>A record that leaves a state that is not terminal only has to be consistent itself.\<close>

lemma evolves_open:
  "same_task r r' \<Longrightarrow> tr_generation r \<le> tr_generation r' \<Longrightarrow> \<not> terminal (tr_status r) \<Longrightarrow> evolves r r'"
  by (simp add: evolves_def)

lemma record_ok_restatus:
  assumes "record_ok r" "counts_ok r'" "\<not> terminal (tr_status r')" "tr_transfer r' = tr_transfer r"
    and "\<And>s. tr_attempt r' = Some s \<Longrightarrow> attempt_wf s"
    and "tr_cancel_requested r' \<Longrightarrow> tr_status r' = Running \<or> tr_status r' = AwaitingConfirmation"
  shows "record_ok r'"
  using assms by (auto simp: record_ok_iff terminal_def)

lemma replace_job_good: "\<not> terminal st \<Longrightarrow> good_mutation (replace_job sj st)"
proof (rule good_mutationI)
  fix r r' assume st: "\<not> terminal st" and m: "replace_job sj st r = Inr r'"
  show "evolves r r'"
    using m by (cases sj) (auto simp: replace_job_def evolves_def same_task_def split: if_splits)
  assume "record_ok r"
  then show "record_ok r'"
    by (rule record_ok_restatus) (use st m \<open>record_ok r\<close> in
        \<open>cases sj; auto simp: replace_job_def record_ok_iff split: if_splits\<close>)+
qed


lemma change_status_good:
  assumes st: "st \<noteq> TCompleted" "st \<noteq> Cancelled"
  shows "good_mutation (change_status st e)"
proof (rule good_mutationI)
  fix r r' assume m: "change_status st e r = Inr r'"
  then show "evolves r r'"
    using st by (auto simp: change_status_def evolves_def same_task_def terminal_def split: if_splits)
  assume "record_ok r"
  then show "record_ok r'"
    by (rule record_ok_restatus) (use st m \<open>record_ok r\<close> in
        \<open>auto simp: change_status_def record_ok_iff terminal_def split: if_splits\<close>)+
qed

lemma install_attempt_good:
  assumes "attempt_wf s"
  shows "good_mutation (install_attempt sha s)"
proof (rule good_mutationI)
  fix r r' assume m: "install_attempt sha s r = Inr r'"
  then show "evolves r r'"
    by (auto simp: install_attempt_def evolves_def same_task_def Let_def split: if_splits)
  assume r: "record_ok r"
  define s1 where "s1 = (case terminal_attempt_outcome (tr_status r) of
      None \<Rightarrow> stamp_publication_namespace sha r (sanitize_errors s)
    | Some outcome \<Rightarrow> finish outcome (stamp_publication_namespace sha r (sanitize_errors s)))"
  have s1: "attempt_wf s1" "sn_independent_entries s1 = sn_independent_entries s"
    and oc: "tr_status r = TCompleted \<Longrightarrow> sn_outcome s1 \<noteq> None"
    using assms by (auto simp: s1_def sanitize_errors_wf finish_wf finish_has_outcome split: option.splits)
  show "record_ok r'"
  proof (cases "tr_status r = TCompleted \<and> sn_independent_entries s")
    case True
    with m r show ?thesis by (simp add: install_attempt_def)
  next
    case False
    then have r': "r' = refresh_attempt_counts (r\<lparr>tr_attempt := Some s1\<rparr>)"
      using m unfolding install_attempt_def if_not_P[OF False] by (simp add: s1_def Let_def)
    have "counts_ok r'" using r unfolding r' by (intro counts_ok_refresh) (simp add: record_ok_iff)
    with r s1 oc False show ?thesis by (auto simp: r' record_ok_iff)
  qed
qed

lemma attach_attempt_simps [simp]:
  "tr_status (attach_attempt sha s r) = tr_status r" "tr_generation (attach_attempt sha s r) = tr_generation r"
  "tr_transfer (attach_attempt sha s r) = tr_transfer r" "counts_ok (attach_attempt sha s r) = counts_ok r"
  "same_task r0 (attach_attempt sha s r) = same_task r0 r"
  by (simp_all add: attach_attempt_def same_task_def split: option.split)

lemma attach_attempt_wf:
  "record_ok r \<Longrightarrow> (\<And>x. s = Some x \<Longrightarrow> attempt_wf x) \<Longrightarrow> tr_attempt (attach_attempt sha s r) = Some y \<Longrightarrow> attempt_wf y"
  by (auto simp: attach_attempt_def record_ok_iff sanitize_errors_wf split: option.splits)

lemma same_task_finish [simp]: "same_task r0 (finish_attempt oc r) = same_task r0 r"
  by (simp add: same_task_def)

lemma same_task_frame [simp]:
  "same_task r0 (r\<lparr>tr_status := st\<rparr>) = same_task r0 r" "same_task r0 (r\<lparr>tr_cancel_requested := c\<rparr>) = same_task r0 r"
  "same_task r0 (r\<lparr>tr_error := e\<rparr>) = same_task r0 r" "same_task r0 (r\<lparr>tr_entries_failed := n\<rparr>) = same_task r0 r"
  "same_task r0 (r\<lparr>tr_attempt := a\<rparr>) = same_task r0 r" "same_task r0 (r\<lparr>tr_generation := g\<rparr>) = same_task r0 r"
  by (simp_all add: same_task_def)

lemma end_run_good:
  assumes "\<And>r. same_task r (f r)" "\<And>r. tr_generation (f r) = tr_generation r"
    and "\<And>r. record_ok r \<Longrightarrow> \<not> terminal (tr_status r) \<Longrightarrow> record_ok (f r)"
  shows "good_mutation (end_run reject (\<lambda>r. Inr (f r)))"
  using assms by (intro good_mutationI) (auto simp: end_run_def evolves_def split: if_splits)

lemma attach_attempt_ok:
  assumes "record_ok r" "tr_status r \<noteq> TCompleted" "\<And>x. s = Some x \<Longrightarrow> attempt_wf x"
  shows "record_ok (attach_attempt sha s r)"
  using assms by (auto simp: attach_attempt_def record_ok_iff sanitize_errors_wf split: option.splits)

lemma finish_attempt_ok: "record_ok r \<Longrightarrow> tr_status r \<noteq> TCompleted \<Longrightarrow> record_ok (finish_attempt oc r)"
  by (auto simp: record_ok_iff finish_attempt_counts_ok finish_wf)

lemma restatus_ok:
  "record_ok r \<Longrightarrow> \<not> terminal st \<Longrightarrow> record_ok (r\<lparr>tr_status := st, tr_cancel_requested := False, tr_error := e\<rparr>)"
  by (rule record_ok_restatus) (auto simp: record_ok_iff)

lemma one_failure_ok: "record_ok r \<Longrightarrow> record_ok (r\<lparr>tr_entries_failed := 1\<rparr>)"
  by (auto simp: record_ok_iff counts_ok_def)

lemma fail_record_good:
  assumes "\<And>x. s = Some x \<Longrightarrow> attempt_wf x"
  shows "good_mutation (end_run reject (\<lambda>r. Inr (fail_record sha msg s r)))"
proof (rule end_run_good)
  fix r
  show "same_task r (fail_record sha msg s r)" "tr_generation (fail_record sha msg s r) = tr_generation r"
    by (simp_all add: fail_record_def Let_def)
  assume r: "record_ok r" "\<not> terminal (tr_status r)"
  then have "record_ok (attach_attempt sha s r)"
    using assms by (intro attach_attempt_ok) (auto simp: terminal_def)
  then show "record_ok (fail_record sha msg s r)"
    unfolding fail_record_def Let_def
    by (auto simp: terminal_def intro!: one_failure_ok[simplified] finish_attempt_ok restatus_ok)
qed

lemma interrupt_record_good:
  assumes "\<And>x. s = Some x \<Longrightarrow> attempt_wf x"
  shows "good_mutation (end_run reject (\<lambda>r. Inr (interrupt_record sha msg s r)))"
proof (rule end_run_good)
  fix r
  show "same_task r (interrupt_record sha msg s r)" "tr_generation (interrupt_record sha msg s r) = tr_generation r"
    by (simp_all add: interrupt_record_def)
  assume r: "record_ok r" "\<not> terminal (tr_status r)"
  then have "record_ok (attach_attempt sha s r)"
    using assms by (intro attach_attempt_ok) (auto simp: terminal_def)
  then show "record_ok (interrupt_record sha msg s r)"
    unfolding interrupt_record_def by (auto simp: terminal_def intro!: finish_attempt_ok restatus_ok)
qed

subsection \<open>Claims, plans and cancellations\<close>

lemma same_task_more [simp]:
  "same_task r0 (refresh_attempt_counts r) = same_task r0 r" "same_task r0 (count_action r) = same_task r0 r"
  "same_task r0 (claimed g r) = same_task r0 r" "same_task r0 (reopen_attempt rf r) = same_task r0 r"
  "same_task r0 (r\<lparr>tr_plan := p\<rparr>) = same_task r0 r" "same_task r0 (r\<lparr>tr_proposed_plan := p\<rparr>) = same_task r0 r"
  "same_task r0 (collection_progress a b c r) = same_task r0 r" "same_task r0 (cancelled_record r) = same_task r0 r"
  by (simp_all add: same_task_def count_action_def claimed_def reopen_attempt_def collection_progress_def
      cancelled_record_def Let_def split: option.split)

lemma same_task_reconcile [simp]: "same_task r0 (reconcile_accepted_attempt sha old new r) = same_task r0 r"
  by (simp add: reconcile_accepted_attempt_def Let_def split: option.split) (simp add: same_task_def)

lemma generation_simps [simp]:
  "tr_generation (count_action r) = tr_generation r" "tr_generation (claimed g r) = g"
  "tr_generation (reopen_attempt rf r) = tr_generation r"
  "tr_generation (collection_progress a b c r) = tr_generation r"
  "tr_generation (cancelled_record r) = tr_generation r"
  "tr_generation (reconcile_accepted_attempt sha old new r) = tr_generation r"
  "tr_status (count_action r) = tr_status r" "tr_status (claimed g r) = Preparing"
  "tr_status (reopen_attempt rf r) = tr_status r" "tr_status (collection_progress a b c r) = tr_status r"
  "tr_status (cancelled_record r) = Cancelled"
  by (simp_all add: count_action_def claimed_def reopen_attempt_def collection_progress_def
      cancelled_record_def reconcile_accepted_attempt_def Let_def split: option.split)

lemma checked_add_le: "checked_add a b = Some c \<Longrightarrow> a \<le> c"
  by (drule checked_add_SomeD) (simp add: word_le_nat_alt)

lemma claimed_ok: "record_ok r \<Longrightarrow> record_ok (claimed g r)"
  by (rule record_ok_restatus) (auto simp: claimed_def record_ok_iff terminal_def)

lemma refreshed_ok:
  assumes "record_ok r" "tr_status r \<noteq> TCompleted" "attempt_wf s"
  shows "record_ok (refresh_attempt_counts (r\<lparr>tr_attempt := Some s\<rparr>))"
proof -
  have "counts_ok (refresh_attempt_counts (r\<lparr>tr_attempt := Some s\<rparr>))"
    using assms(1) by (intro counts_ok_refresh) (simp add: record_ok_iff)
  with assms show ?thesis by (auto simp: record_ok_iff)
qed

lemma reopen_attempt_ok:
  assumes "record_ok r" "tr_status r \<noteq> TCompleted"
  shows "record_ok (reopen_attempt rf r)"
proof (cases "tr_attempt r")
  case None
  with assms show ?thesis by (simp add: reopen_attempt_def)
next
  case (Some s)
  then have "attempt_wf s" using assms by (simp add: record_ok_iff)
  then have "attempt_wf (sanitize_errors (prepare_resume rf s))"
    by (intro sanitize_errors_wf prepare_resume_wf)
  note grouped = refreshed_ok[OF assms this]
  have "record_ok (r\<lparr>tr_attempt := None, tr_entries_completed := 0, tr_entries_failed := 0\<rparr>)"
    using assms by (auto simp: record_ok_iff counts_ok_def)
  with Some grouped show ?thesis by (simp add: reopen_attempt_def)
qed

lemma claim_resume_contract: "task_operation True (claim_resume_with_constraints g c rf)"
proof (rule task_operationI)
  fix r r' a assume d: "claim_resume_with_constraints g c rf r = Save r' a"
  then obtain g' where r': "r' = count_action (reopen_attempt rf (claimed g' r))"
    and g': "checked_add (tr_generation r) 1 = Some g'" and al: "claim_allowed rf r"
    by (auto simp: claim_resume_with_constraints_def claim_resume_in_store_def split: if_splits option.splits)
  show "\<not> transfer_or_ack_pending r" using d by (simp add: claim_resume_with_constraints_def)
  assume "record_ok r"
  moreover have "\<not> terminal (tr_status r)"
    using al by (auto simp: claim_allowed_def resumable_failed_group_def terminal_def split: if_splits)
  ultimately show "evolves r r' \<and> record_ok r'"
    using checked_add_le[OF g'] by (simp add: r' evolves_open reopen_attempt_ok claimed_ok)
qed (auto simp: claim_resume_with_constraints_def claim_resume_in_store_def split: if_splits option.splits)

lemma claim_episode_retry_contract: "task_operation True (claim_episode_retry_for_chat_if_generation g c i)"
proof (rule task_operationI)
  fix r r' a assume d: "claim_episode_retry_for_chat_if_generation g c i r = Save r' a"
  then obtain g' s s' where r': "r' = count_action (refresh_attempt_counts (claimed g' (r\<lparr>tr_attempt := Some s'\<rparr>)))"
    and g': "checked_add (tr_generation r) 1 = Some g'" and s: "tr_attempt r = Some s"
    "prepare_episode_retry i s = (True, s')" and st: "tr_status r \<in> {TFailed, PartiallyCompleted, TInterrupted}"
    by (auto simp: claim_episode_retry_for_chat_if_generation_def claim_episode_retry_in_store_def
        split: if_splits option.splits prod.splits bool.splits)
  show "\<not> transfer_or_ack_pending r" using d by (simp add: claim_episode_retry_for_chat_if_generation_def)
  assume r: "record_ok r"
  then have "attempt_wf s'" using s prepare_episode_retry_wf[of s i] by (simp add: record_ok_iff)
  then have "record_ok (refresh_attempt_counts ((claimed g' r)\<lparr>tr_attempt := Some s'\<rparr>))"
    by (intro refreshed_ok claimed_ok r) simp_all
  moreover have "claimed g' (r\<lparr>tr_attempt := Some s'\<rparr>) = (claimed g' r)\<lparr>tr_attempt := Some s'\<rparr>"
    by (simp add: claimed_def)
  moreover have "\<not> terminal (tr_status r)" using st by (auto simp: terminal_def)
  ultimately show "evolves r r' \<and> record_ok r'"
    using checked_add_le[OF g'] by (simp add: r' evolves_open)
qed (auto simp: claim_episode_retry_for_chat_if_generation_def claim_episode_retry_in_store_def
      split: if_splits option.splits prod.splits bool.splits)

lemma begin_run_contract: "task_operation True (begin_run_when P)"
  by (rule task_operationI)
    (auto simp: begin_run_when_def terminal_def split: if_splits
      intro!: evolves_open restatus_ok[where st = Running and e = None])

lemma begin_verification_contract: "task_operation True (begin_verification_when P)"
proof (rule task_operationI)
  fix r r' a assume d: "begin_verification_when P r = Save r' a" and r: "record_ok r"
  then have r': "r' = r\<lparr>tr_status := Verifying, tr_cancel_requested := False\<rparr>" "tr_status r = Running"
    by (auto simp: begin_verification_when_def split: if_splits)
  from r have "record_ok r'" by (rule record_ok_restatus) (use r in \<open>auto simp: r' record_ok_iff terminal_def\<close>)
  then show "evolves r r' \<and> record_ok r'" using r' by (simp add: evolves_open terminal_def)
qed (auto simp: begin_verification_when_def split: if_splits)

lemma set_plan_contract: "task_operation True (set_plan_if_generation_inner sha g p)"
proof (rule task_operationI)
  fix r r' a assume d: "set_plan_if_generation_inner sha g p r = Save r' a"
  then show "\<not> transfer_or_ack_pending r"
    by (auto simp: set_plan_if_generation_inner_def Let_def split: if_splits sum.splits)
  assume r: "record_ok r"
  have st: "tr_status r = Running" and sr: "same_task r r'" and g: "tr_generation r' = tr_generation r"
    and st': "tr_status r' = Running \<or> tr_status r' = AwaitingConfirmation" and at: "tr_attempt r' = tr_attempt r"
    and tf: "tr_transfer r' = tr_transfer r" and co: "counts_ok r' = counts_ok r"
    using d by (auto simp: set_plan_if_generation_inner_def Let_def split: if_splits sum.splits)
  from r have "record_ok r'"
    by (rule record_ok_restatus) (use r st' at tf co in \<open>auto simp: record_ok_iff terminal_def\<close>)
  with st sr g show "evolves r r' \<and> record_ok r'" by (simp add: evolves_open terminal_def)
qed (auto simp: set_plan_if_generation_inner_def Let_def split: if_splits sum.splits)

lemma reconcile_accepted_ok:
  assumes "record_ok r" "tr_status r \<noteq> TCompleted"
  shows "record_ok (reconcile_accepted_attempt sha old new r)"
proof (cases "tr_attempt r")
  case None
  with assms show ?thesis by (simp add: reconcile_accepted_attempt_def)
next
  case (Some s)
  have "record_ok (r\<lparr>tr_attempt := None, tr_entries_total := 1, tr_entries_completed := 0, tr_entries_failed := 0\<rparr>)"
    using assms by (auto simp: record_ok_iff counts_ok_def)
  then show ?thesis
    using Some by (auto simp: reconcile_accepted_attempt_def Let_def intro!: refreshed_ok assms reconcile_wf)
qed

lemma accept_proposed_plan_contract: "task_operation True (accept_proposed_plan_with_constraints sha g c)"
proof (rule task_operationI)
  fix r r' a assume d: "accept_proposed_plan_with_constraints sha g c r = Save r' a"
  then show "\<not> transfer_or_ack_pending r" by (simp add: accept_proposed_plan_with_constraints_def)
  assume r: "record_ok r"
  obtain p where st: "tr_status r = AwaitingConfirmation" and
    r': "r' = count_action ((reconcile_accepted_attempt sha (tr_plan r) p (r\<lparr>tr_proposed_plan := None\<rparr>))
          \<lparr>tr_plan := Some p, tr_status := Preparing, tr_cancel_requested := False\<rparr>)"
    using d by (auto simp: accept_proposed_plan_with_constraints_def Let_def split: if_splits option.splits)
  define r1 where "r1 = reconcile_accepted_attempt sha (tr_plan r) p (r\<lparr>tr_proposed_plan := None\<rparr>)"
  have "record_ok (r\<lparr>tr_proposed_plan := None\<rparr>)" using r by (rule record_ok_framed[rotated 6]) simp_all
  then have r1: "record_ok r1" unfolding r1_def by (rule reconcile_accepted_ok) (simp add: st)
  then have "record_ok (r1\<lparr>tr_plan := Some p, tr_status := Preparing, tr_cancel_requested := False\<rparr>)"
    by (rule record_ok_restatus) (use r1 in \<open>auto simp: record_ok_iff terminal_def\<close>)
  then show "evolves r r' \<and> record_ok r'"
    unfolding r' r1_def[symmetric] by (auto simp: r1_def st terminal_def intro!: evolves_open)
qed (auto simp: accept_proposed_plan_with_constraints_def Let_def split: if_splits option.splits)

lemma collection_progress_ok:
  "record_ok r \<Longrightarrow> record_ok (collection_progress a b c r)"
  by (auto simp: collection_progress_def record_ok_iff counts_ok_def Let_def)

lemma collection_progress_good: "good_mutation (\<lambda>r. Inr (collection_progress a b c r))"
  by (rule good_mutationI) (auto simp: evolves_def collection_progress_ok)

lemma set_collection_progress_contract: "generation_operation True (\<lambda>g. set_collection_progress_if_generation g a b c)"
  by unfold_locales
    (auto simp: set_collection_progress_if_generation_def evolves_def collection_progress_ok split: if_splits)

lemma fold_apply_update_wf:
  "attempt_wf s \<Longrightarrow> attempt_wf (fold (\<lambda>(index, update). apply_update update index) us s)"
  by (induction us arbitrary: s) (auto simp: apply_update_wf)

lemma update_batch_contract: "generation_operation True (\<lambda>g. update_bilibili_attempt_batch_if_generation g us)"
proof -
  have save: "\<exists>s. tr_attempt r = Some s \<and> sn_outcome s = None \<and> tr_generation r = g \<and> \<not> transfer_or_ack_pending r
      \<and> r' = refresh_attempt_counts (r\<lparr>tr_attempt :=
           Some (fold (\<lambda>(index, update). apply_update update index) us s)\<rparr>)"
    if "update_bilibili_attempt_batch_if_generation g us r = Save r' a" for g r r' a
    using that by (auto simp: update_bilibili_attempt_batch_if_generation_def split: if_splits option.splits)
  have ok: "evolves r r' \<and> record_ok r'"
    if r: "record_ok r" and d: "update_bilibili_attempt_batch_if_generation g us r = Save r' a" for g r r' a
  proof -
    from save[OF d] obtain s where s: "tr_attempt r = Some s" "sn_outcome s = None"
      "r' = refresh_attempt_counts (r\<lparr>tr_attempt :=
           Some (fold (\<lambda>(index, update). apply_update update index) us s)\<rparr>)" by blast
    have "tr_status r \<noteq> TCompleted" "attempt_wf s" using r s by (auto simp: record_ok_iff)
    then show ?thesis
      unfolding s(3) by (auto simp: evolves_def intro!: refreshed_ok r fold_apply_update_wf)
  qed
  show ?thesis
    using save ok by unfold_locales
      (auto simp: update_bilibili_attempt_batch_if_generation_def split: if_splits option.splits)
qed

lemma cancelled_record_ok:
  "record_ok r \<Longrightarrow> tr_transfer r = None \<Longrightarrow> record_ok (cancelled_record r)"
  unfolding cancelled_record_def by (rule finish_attempt_ok) (auto simp: record_ok_iff)

lemma cancel_save_eq:
  "finish_attempt OCancelled (count_action (r\<lparr>tr_status := Cancelled, tr_cancel_requested := False, tr_error := None\<rparr>))
     = (cancelled_record r)\<lparr>tr_user_actions := saturating_add (tr_user_actions r) 1\<rparr>"
  by (simp add: cancelled_record_def finish_attempt_def refresh_attempt_counts_def count_action_def Let_def
      split: option.split)

lemma user_actions_ok [simp]: "record_ok (r\<lparr>tr_user_actions := n\<rparr>) = record_ok r"
  by (rule record_ok_frame) simp_all

lemma unfinished_open: "is_unfinished st \<Longrightarrow> \<not> terminal st"
  by (auto simp: is_unfinished_def terminal_def)

lemma pending_none: "\<not> transfer_or_ack_pending r \<Longrightarrow> tr_transfer r = None"
  by (auto simp: transfer_or_ack_pending_def)

lemma cancel_matching_contract: "task_operation True (cancel_matching g c ss rv rq)"
proof (rule task_operationI)
  fix r r' a assume d: "cancel_matching g c ss rv rq r = Save r' a"
  then show free: "\<not> transfer_or_ack_pending r" by (simp add: cancel_matching_def)
  assume r: "record_ok r"
  from d have u: "\<not> terminal (tr_status r)"
    by (auto simp: cancel_matching_def unfinished_open split: if_splits)
  from d consider (request) "tr_status r = Running" "r' = count_action (r\<lparr>tr_cancel_requested := True\<rparr>)"
    | (stop) "r' = (cancelled_record r)\<lparr>tr_user_actions := saturating_add (tr_user_actions r) 1\<rparr>"
    by (auto simp: cancel_matching_def cancel_save_eq split: if_splits)
  then show "evolves r r' \<and> record_ok r'"
  proof cases
    case request
    with r have "record_ok (r\<lparr>tr_cancel_requested := True\<rparr>)" by (auto simp: record_ok_iff)
    with request u show ?thesis by (simp add: evolves_open)
  next
    case stop
    have "same_task r r'" by (simp add: stop same_task_def cancelled_record_def)
    with u show ?thesis
      by (simp add: stop evolves_open cancelled_record_ok[OF r pending_none[OF free]])
  qed
qed (auto simp: cancel_matching_def split: if_splits)

lemma finish_cancellation_contract: "task_operation True finish_cancellation"
  by (rule task_operationI)
    (auto simp: finish_cancellation_def cancellation_due_def terminal_def split: if_splits
      intro!: evolves_open cancelled_record_ok pending_none)

lemma finish_cancellation_with_attempt_contract:
  "generation_operation (pred_option attempt_wf s) (\<lambda>g. finish_cancellation_with_attempt sha g s)"
proof -
  define r1 where "r1 = (\<lambda>r. case s of None \<Rightarrow> r
            | Some x \<Rightarrow> r\<lparr>tr_attempt := Some (stamp_publication_namespace sha r x)\<rparr>)"
  have save: "\<not> transfer_or_ack_pending r \<and> tr_generation r = g \<and> cancellation_due r \<and> r' = cancelled_record (r1 r)"
    if "finish_cancellation_with_attempt sha g s r = Save r' a" for g r r' a
    using that by (auto simp: finish_cancellation_with_attempt_def r1_def split: if_splits)
  have "record_ok (r1 r)" if "record_ok r" "cancellation_due r" "pred_option attempt_wf s" for r
    using that by (auto simp: r1_def record_ok_iff cancellation_due_def split: option.split)
  moreover have "tr_transfer (r1 r) = tr_transfer r" "same_task r0 (r1 r) = same_task r0 r"
    "tr_generation (r1 r) = tr_generation r" for r r0 by (simp_all add: r1_def split: option.split)
  ultimately have ok: "evolves r r' \<and> record_ok r'"
    if "pred_option attempt_wf s" "record_ok r" "finish_cancellation_with_attempt sha g s r = Save r' a" for g r r' a
    using save[OF that(3)] that(1,2)
    by (auto simp: cancellation_due_def terminal_def pending_none intro!: evolves_open cancelled_record_ok)
  show ?thesis
  proof (rule generation_operation.intro)
    show "task_operation (pred_option attempt_wf s) (finish_cancellation_with_attempt sha g s)" for g
      by (rule task_operationI) (use ok save in blast, use ok in blast,
        auto simp: finish_cancellation_with_attempt_def split: if_splits)
  qed (use save in blast)
qed

lemma recover_record_ok:
  assumes "record_ok r" "needs_recovery r"
  shows "evolves r (recover_record r) \<and> record_ok (recover_record r)"
proof -
  have u: "\<not> terminal (tr_status r)" "tr_transfer r = None"
    using assms(2) by (auto simp: needs_recovery_def unfinished_open pending_none)
  then have "record_ok (r\<lparr>tr_status := Cancelled, tr_cancel_requested := False, tr_error := None\<rparr>)"
    using assms(1) by (auto simp: record_ok_iff)
  with assms(1) u show ?thesis
    by (auto simp: recover_record_def Let_def terminal_def evolves_def intro!: finish_attempt_ok restatus_ok)
qed

subsection \<open>The contract holds of every operation\<close>

lemma generation_operationI:
  assumes "\<And>g. task_operation P (op g)" "\<And>g r r' a. op g r = Save r' a \<Longrightarrow> tr_generation r = g"
  shows "generation_operation P op"
  by (rule generation_operation.intro) (use assms in blast)+


interpretation claim_resume: generation_operation True "\<lambda>g. claim_resume_for_chat_if_generation g c rf" for c rf
  by (rule generation_operationI)
    (simp add: claim_resume_for_chat_if_generation_def claim_resume_contract,
     auto simp: claim_resume_for_chat_if_generation_def claim_resume_with_constraints_def
      claim_resume_in_store_def matches_def split: if_splits)

interpretation claim_resume_any: task_operation True "claim_resume rf" for rf
  unfolding claim_resume_def by (rule claim_resume_contract)

interpretation claim_episode_retry:
  generation_operation True "\<lambda>g. claim_episode_retry_for_chat_if_generation g c i" for c i
  by (rule generation_operationI)
    (rule claim_episode_retry_contract,
     auto simp: claim_episode_retry_for_chat_if_generation_def claim_episode_retry_in_store_def split: if_splits)

interpretation update_job_current: task_operation "\<not> terminal st" "update_job_if_current ss sj st" for ss sj st
  unfolding update_job_if_current_def by (intro update_if_current_contract replace_job_good)

interpretation update_job: generation_operation "\<not> terminal st" "\<lambda>g. update_job_if_generation g ss sj st" for ss sj st
  unfolding update_job_if_generation_def
  by (intro update_if_generation_and_status_contract replace_job_good)

interpretation set_status: task_operation "st \<noteq> TCompleted \<and> st \<noteq> Cancelled" "set_status st e" for st e
  unfolding set_status_def by (intro update_op_contract change_status_good) auto

interpretation set_status_current: task_operation "st \<noteq> TCompleted \<and> st \<noteq> Cancelled" "set_status_if_current ss st" for ss st
  unfolding set_status_if_current_def by (intro update_if_current_contract change_status_good) auto

interpretation set_status_generation: generation_operation "st \<noteq> TCompleted \<and> st \<noteq> Cancelled" "\<lambda>g. set_status_if_generation g ss st" for ss st
  unfolding set_status_if_generation_def
  by (intro update_if_generation_and_status_contract change_status_good) auto

interpretation begin_run: generation_operation True begin_run_if_generation
  by (rule generation_operationI)
    (simp add: begin_run_if_generation_def begin_run_contract,
     auto simp: begin_run_if_generation_def begin_run_when_def split: if_splits)

interpretation begin_run_any: task_operation True begin_run
  unfolding begin_run_def by (rule begin_run_contract)

interpretation begin_verification: generation_operation True begin_verification_if_generation
  by (rule generation_operationI)
    (simp add: begin_verification_if_generation_def begin_verification_contract,
     auto simp: begin_verification_if_generation_def begin_verification_when_def split: if_splits)

interpretation begin_verification_any: task_operation True begin_verification
  unfolding begin_verification_def by (rule begin_verification_contract)

interpretation set_display_metadata: generation_operation True "\<lambda>g. set_display_metadata_if_generation g m" for m
  unfolding set_display_metadata_if_generation_def
  by (intro update_if_generation_and_status_contract metadata_good)

interpretation set_plan: generation_operation True "\<lambda>g. set_plan_if_generation sha g p" for sha p
  by (rule generation_operationI)
    (simp add: set_plan_if_generation_def set_plan_contract,
     auto simp: set_plan_if_generation_def set_plan_if_generation_inner_def matches_def split: if_splits)

interpretation accept_proposed_plan:
  generation_operation True "\<lambda>g. accept_proposed_plan_for_chat_if_generation sha g c" for sha c
  by (rule generation_operationI)
    (simp add: accept_proposed_plan_for_chat_if_generation_def accept_proposed_plan_contract,
     auto simp: accept_proposed_plan_for_chat_if_generation_def accept_proposed_plan_with_constraints_def
      matches_def split: if_splits)

interpretation set_collection_progress_any: task_operation True "set_collection_progress a b c" for a b c
  unfolding set_collection_progress_def by (intro update_op_contract collection_progress_good)

interpretation set_collection_progress:
  generation_operation True "\<lambda>g. set_collection_progress_if_generation g a b c" for a b c
  by (rule set_collection_progress_contract)

interpretation set_attempt: generation_operation "attempt_wf s" "\<lambda>g. set_bilibili_attempt_if_generation sha g s" for sha s
  unfolding set_bilibili_attempt_if_generation_def
  by (intro update_if_generation_contract install_attempt_good)

interpretation update_attempt_batch: generation_operation True "\<lambda>g. update_bilibili_attempt_batch_if_generation g us" for us
  by (rule update_batch_contract)

interpretation update_attempt: generation_operation True "\<lambda>g. update_bilibili_attempt_if_generation g i u" for i u
  unfolding update_bilibili_attempt_if_generation_def by (rule update_batch_contract)

interpretation record_staging_path: generation_operation True "\<lambda>g. record_staging_path_if_generation g p" for p
  unfolding record_staging_path_if_generation_def
  by (intro update_if_generation_contract staging_path_good)

interpretation set_message_any: task_operation True "set_status_message_id m" for m
  unfolding set_status_message_id_def by (intro update_op_contract put_message_id_good)

interpretation set_message: generation_operation True "\<lambda>g. set_status_message_id_if_generation g m" for m
  unfolding set_status_message_id_if_generation_def
  by (intro update_if_generation_contract put_message_id_good)

interpretation set_message_status:
  generation_operation True "\<lambda>g. set_status_message_id_if_generation_and_status g ss m" for ss m
  unfolding set_status_message_id_if_generation_and_status_def
  by (intro update_if_generation_and_status_contract put_message_id_good)

interpretation fail_run: generation_operation "pred_option attempt_wf s" "\<lambda>g. fail_if_generation_inner sha g msg s rc" for sha msg s rc
  unfolding fail_if_generation_inner_def
  by (intro update_if_generation_contract fail_record_good) auto

interpretation interrupt_run: generation_operation "pred_option attempt_wf s" "\<lambda>g. interrupt_if_generation_inner sha g msg s rc" for sha msg s rc
  unfolding interrupt_if_generation_inner_def
  by (intro update_if_generation_contract interrupt_record_good) auto

interpretation cancel_any: task_operation True "cancel_matching g c ss rv rq" for g c ss rv rq
  by (rule cancel_matching_contract)

interpretation cancel_run: generation_operation True "\<lambda>g. cancel_matching (Some g) c ss rv rq" for c ss rv rq
  by (rule generation_operationI)
    (rule cancel_matching_contract, auto simp: cancel_matching_def matches_def split: if_splits)

interpretation finish_cancellation_any: task_operation True finish_cancellation
  by (rule finish_cancellation_contract)

interpretation finish_cancellation: generation_operation "pred_option attempt_wf s" "\<lambda>g. finish_cancellation_with_attempt sha g s" for sha s
  by (rule finish_cancellation_with_attempt_contract)

end
