(* ===== verification/QueueManager.thy ===== *)
theory QueueManager
  imports TaskStore TaskContract
begin

section \<open>The queue over all libraries (\<open>queue.rs\<close>, \<open>QueueManager\<close>)\<close>

text \<open>
  The manager searches the stores of all available video libraries and then the PDF store for a task, lets
  the operation decide (\<open>TaskOps\<close>), and saves its record where it was found. Operations are serialised by
  the manager's lock, so each is one step on the state. The registration of running downloads for
  cancellation is kept in memory; a notification token is a number. Lock files and their failures, and the
  notifications themselves, are not modelled.
\<close>

subsection \<open>State\<close>

record video_library =
  vl_id :: string
  vl_root :: string
  vl_available :: bool
  vl_root_valid :: bool         \<comment> \<open>what \<open>validate_configured_root\<close> finds\<close>
  vl_store :: task_store

record registration =
  rg_generation :: "u64 option"
  rg_token :: nat

record task_queue =
  tq_libraries :: "video_library list"
  tq_pdf_root :: string
  tq_pdf :: task_store
  tq_cancellations :: "(string \<times> registration) list"
  tq_next_token :: nat

datatype slot = VideoSlot nat | PdfSlot

type_synonym 'a queue_act = "task_queue \<Rightarrow> (string + 'a) \<times> task_queue"

definition pdf_shared :: "task_queue \<Rightarrow> bool" where
  \<comment> \<open>the PDF store is the store of an available video library\<close>
  "pdf_shared q = list_ex (\<lambda>l. vl_available l \<and> vl_root l = tq_pdf_root q) (tq_libraries q)"

definition on_slot :: "slot \<Rightarrow> 'a act \<Rightarrow> 'a queue_act" where
  "on_slot sl m q = (case sl of
      PdfSlot \<Rightarrow> (case m (tq_pdf q) of (res, s) \<Rightarrow> (res, q\<lparr>tq_pdf := s\<rparr>))
    | VideoSlot k \<Rightarrow>
        (case m (vl_store (tq_libraries q ! k)) of (res, s) \<Rightarrow>
           (res, q\<lparr>tq_libraries := (tq_libraries q)[k := (tq_libraries q ! k)\<lparr>vl_store := s\<rparr>]\<rparr>)))"

subsection \<open>Finding a task\<close>

definition note_video_store_read_error :: "video_library \<Rightarrow> video_library" where
  \<comment> \<open>a store whose root no longer validates leaves the live set\<close>
  "note_video_store_read_error l = (if vl_root_valid l then l else l\<lparr>vl_available := False\<rparr>)"

type_synonym found = "nat \<times> task_record \<times> index_entry"

fun search_libraries ::
  "store_codec \<Rightarrow> string \<Rightarrow> nat \<Rightarrow> video_library list \<Rightarrow> (found option \<times> string option) \<times> video_library list" where
  \<comment> \<open>the loop of \<open>find_record_entry_unlocked\<close>: the task, or the first read error\<close>
  "search_libraries cd i k [] = ((None, None), [])"
| "search_libraries cd i k (l # ls) =
     (if \<not> vl_available l
      then (case search_libraries cd i (Suc k) ls of (res, ls') \<Rightarrow> (res, l # ls'))
      else case get_task cd i (vl_store l) of
          (Inr (Some (r, e)), s) \<Rightarrow> ((Some (k, r, e), None), l\<lparr>vl_store := s\<rparr> # ls)
        | (Inr None, s) \<Rightarrow>
            (case search_libraries cd i (Suc k) ls of (res, ls') \<Rightarrow> (res, l\<lparr>vl_store := s\<rparr> # ls'))
        | (Inl m, s) \<Rightarrow>
            (case search_libraries cd i (Suc k) ls of ((found, _), ls') \<Rightarrow>
               ((found, Some m), note_video_store_read_error (l\<lparr>vl_store := s\<rparr>) # ls')))"

definition find_record_entry :: "store_codec \<Rightarrow> string \<Rightarrow> (slot \<times> task_record \<times> index_entry) option queue_act" where
  "find_record_entry cd i q =
     (case search_libraries cd i 0 (tq_libraries q) of ((found, first_error), ls) \<Rightarrow>
        let q' = q\<lparr>tq_libraries := ls\<rparr>;
            not_found = (case first_error of
                Some m \<Rightarrow> Inl (''failed to search available media library queues: '' @ m)
              | None \<Rightarrow> Inr None)
        in case found of
             Some (k, r, e) \<Rightarrow> (Inr (Some (VideoSlot k, r, e)), q')
           | None \<Rightarrow>
               if pdf_shared q then (not_found, q')
               else (case get_task cd i (tq_pdf q) of
                   (Inl m, s) \<Rightarrow> (Inl m, q'\<lparr>tq_pdf := s\<rparr>)
                 | (Inr (Some (r, e)), s) \<Rightarrow> (Inr (Some (PdfSlot, r, e)), q'\<lparr>tq_pdf := s\<rparr>)
                 | (Inr None, s) \<Rightarrow> (not_found, q'\<lparr>tq_pdf := s\<rparr>)))"

subsection \<open>Running an operation\<close>

definition commit :: "store_codec \<Rightarrow> u64 \<Rightarrow> index_entry \<Rightarrow> decision \<Rightarrow> task_record option act" where
  "commit cd now entry d = (case d of
      Refuse \<Rightarrow> ret None
    | Abort e \<Rightarrow> bail e
    | Keep r \<Rightarrow> ret (Some r)
    | Save r activity \<Rightarrow> bind_act (save_mutated_record cd now r entry activity) (\<lambda>r. ret (Some r)))"

definition run_op_at ::
  "store_codec \<Rightarrow> u64 \<Rightarrow> string \<Rightarrow> (task_queue \<Rightarrow> slot \<Rightarrow> task_record \<Rightarrow> decision) \<Rightarrow> task_record option queue_act" where
  \<comment> \<open>the decision may also depend on the queue and on where the task was found\<close>
  "run_op_at cd now i decide q =
     (case find_record_entry cd i q of
        (Inl m, q') \<Rightarrow> (Inl m, q')
      | (Inr None, q') \<Rightarrow> (Inr None, q')
      | (Inr (Some (sl, r, e)), q') \<Rightarrow> on_slot sl (commit cd now e (decide q' sl r)) q')"

definition run_op ::
  "store_codec \<Rightarrow> u64 \<Rightarrow> string \<Rightarrow> (task_record \<Rightarrow> decision) \<Rightarrow> task_record option queue_act" where
  "run_op cd now i decide = run_op_at cd now i (\<lambda>_ _. decide)"

subsection \<open>The records of a queue\<close>

definition queue_stores :: "task_queue \<Rightarrow> task_store set" where
  "queue_stores q = insert (tq_pdf q) (vl_store ` set (tq_libraries q))"

definition queue_records :: "task_queue \<Rightarrow> task_record set" where
  "queue_records q = (\<Union>s\<in>queue_stores q. stored s)"

definition library_records :: "video_library list \<Rightarrow> task_record set" where
  "library_records ls = (\<Union>l\<in>set ls. stored (vl_store l))"

lemma library_records_simps [simp]:
  "library_records [] = {}" "library_records (l # ls) = stored (vl_store l) \<union> library_records ls"
  by (simp_all add: library_records_def)

lemma queue_records_split: "queue_records q = stored (tq_pdf q) \<union> library_records (tq_libraries q)"
  by (auto simp: queue_records_def queue_stores_def library_records_def)

definition search_sound ::
  "string \<Rightarrow> nat \<Rightarrow> video_library list \<Rightarrow> found option \<Rightarrow> video_library list \<Rightarrow> bool" where
  "search_sound i k ls found ls' = (length ls' = length ls \<and> library_records ls' \<subseteq> library_records ls
     \<and> (case found of None \<Rightarrow> True | Some (n, r, e) \<Rightarrow>
          k \<le> n \<and> n < k + length ls \<and> tr_id r = i \<and> r \<in> library_records ls))"

lemma search_sound_Cons:
  assumes "search_sound i (Suc k) ls found ls'" "stored (vl_store l') \<subseteq> stored (vl_store l)"
  shows "search_sound i k (l # ls) found (l' # ls')"
  using assms by (auto simp: search_sound_def split: option.splits)

lemma search_sound_here:
  assumes "r \<in> stored (vl_store l)" "tr_id r = i" "stored (vl_store l') \<subseteq> stored (vl_store l)"
  shows "search_sound i k (l # ls) (Some (k, r, e)) (l' # ls)"
  using assms by (auto simp: search_sound_def)

lemma search_libraries_sound:
  "search_libraries cd i k ls = ((found, err), ls') \<Longrightarrow> search_sound i k ls found ls'"
proof (induction ls arbitrary: k found err ls')
  case Nil
  then show ?case by (simp add: search_sound_def)
next
  case (Cons l ls)
  obtain found2 err2 ls2 where more: "search_libraries cd i (Suc k) ls = ((found2, err2), ls2)"
    by (metis prod.exhaust)
  obtain q s where g: "get_task cd i (vl_store l) = (q, s)" by (cases "get_task cd i (vl_store l)")
  have s: "stored s \<subseteq> stored (vl_store l)" by (rule get_task_stored(1)[OF g])
  note ih = search_sound_Cons[OF Cons.IH[OF more]]
  show ?case
  proof (cases "vl_available l")
    case False
    with Cons.prems more show ?thesis using ih[of l] by auto
  next
    case True
    consider (err) m where "q = Inl m" | (none) "q = Inr None" | (here) r e where "q = Inr (Some (r, e))"
      by (cases q) (auto, metis not_Some_eq prod.exhaust)
    then show ?thesis
    proof cases
      case err
      with Cons.prems True g more s ih[of "l\<lparr>vl_store := s\<rparr>"]
        ih[of "l\<lparr>vl_store := s, vl_available := False\<rparr>"]
      show ?thesis by (auto simp: note_video_store_read_error_def)
    next
      case none
      with Cons.prems True g more s ih[of "l\<lparr>vl_store := s\<rparr>"] show ?thesis by auto
    next
      case (here r e)
      from get_task_stored(2)[OF g here] have "r \<in> stored (vl_store l)" "tr_id r = i" by auto
      with here Cons.prems True g s search_sound_here[of r l i "l\<lparr>vl_store := s\<rparr>" k ls e]
      show ?thesis by auto
    qed
  qed
qed

lemma find_record_entry_sound:
  assumes "find_record_entry cd i q = (res, q')"
  shows "queue_records q' \<subseteq> queue_records q"
    and "length (tq_libraries q') = length (tq_libraries q)"
    and "res = Inr (Some (sl, r, e)) \<Longrightarrow> r \<in> queue_records q \<and> tr_id r = i
           \<and> (case sl of VideoSlot k \<Rightarrow> k < length (tq_libraries q') | PdfSlot \<Rightarrow> True)"
proof -
  obtain found err ls where f: "search_libraries cd i 0 (tq_libraries q) = ((found, err), ls)"
    by (metis prod.exhaust)
  obtain p s where g: "get_task cd i (tq_pdf q) = (p, s)" by (cases "get_task cd i (tq_pdf q)")
  note ss = search_libraries_sound[OF f] and gs = get_task_stored(1)[OF g]
  have pdf: "queue_records (q\<lparr>tq_libraries := ls, tq_pdf := s\<rparr>) \<subseteq> queue_records q"
    and lib: "queue_records (q\<lparr>tq_libraries := ls\<rparr>) \<subseteq> queue_records q" and len: "length ls = length (tq_libraries q)"
    using ss gs by (auto simp: queue_records_split search_sound_def)
  have cases: "(\<exists>k r e. found = Some (k, r, e) \<and> res = Inr (Some (VideoSlot k, r, e)) \<and> q' = q\<lparr>tq_libraries := ls\<rparr>)
    \<or> (found = None \<and> (\<forall>x. res \<noteq> Inr (Some x)) \<and> q' = q\<lparr>tq_libraries := ls\<rparr>)
    \<or> (found = None \<and> (\<forall>x. res \<noteq> Inr (Some x)) \<and> q' = q\<lparr>tq_libraries := ls, tq_pdf := s\<rparr>)
    \<or> (\<exists>r e. found = None \<and> p = Inr (Some (r, e)) \<and> res = Inr (Some (PdfSlot, r, e))
         \<and> q' = q\<lparr>tq_libraries := ls, tq_pdf := s\<rparr>)"
    using assms by (auto simp: find_record_entry_def f g Let_def split: option.splits if_splits sum.splits prod.splits)
  show "queue_records q' \<subseteq> queue_records q" "length (tq_libraries q') = length (tq_libraries q)"
    using cases pdf lib len by auto
  assume r: "res = Inr (Some (sl, r, e))"
  then consider (video) k where "found = Some (k, r, e)" "sl = VideoSlot k" "q' = q\<lparr>tq_libraries := ls\<rparr>"
    | (pdf) "p = Inr (Some (r, e))" "sl = PdfSlot"
    using cases by auto
  then show "r \<in> queue_records q \<and> tr_id r = i
           \<and> (case sl of VideoSlot k \<Rightarrow> k < length (tq_libraries q') | PdfSlot \<Rightarrow> True)"
  proof cases
    case (video k)
    with ss len show ?thesis by (auto simp: search_sound_def queue_records_split)
  next
    case pdf
    then show ?thesis using get_task_stored(2)[OF g, of r e] by (auto simp: queue_records_split)
  qed
qed

lemma library_records_update:
  "k < length ls \<Longrightarrow> library_records (ls[k := l]) \<subseteq> stored (vl_store l) \<union> library_records ls"
  by (auto simp: library_records_def dest!: set_update_subset_insert[THEN subsetD])

lemma on_slot_records:
  assumes "on_slot sl m q = (res, q')" "case sl of VideoSlot k \<Rightarrow> k < length (tq_libraries q) | PdfSlot \<Rightarrow> True"
    and "\<And>s s' res. m s = (res, s') \<Longrightarrow> stored s \<subseteq> queue_records q \<Longrightarrow> stored s' \<subseteq> X \<union> queue_records q"
  shows "queue_records q' \<subseteq> X \<union> queue_records q"
proof (cases sl)
  case PdfSlot
  obtain a s where m: "m (tq_pdf q) = (a, s)" by (cases "m (tq_pdf q)")
  have "stored s \<subseteq> X \<union> queue_records q" by (rule assms(3)[OF m]) (auto simp: queue_records_split)
  with assms(1) PdfSlot m show ?thesis by (auto simp: on_slot_def queue_records_split)
next
  case (VideoSlot k)
  define l where "l = tq_libraries q ! k"
  have k: "k < length (tq_libraries q)" using assms(2) VideoSlot by simp
  then have "l \<in> set (tq_libraries q)" by (simp add: l_def)
  then have l: "stored (vl_store l) \<subseteq> queue_records q" by (auto simp: queue_records_split library_records_def)
  obtain a s where m: "m (vl_store l) = (a, s)" by (cases "m (vl_store l)")
  have s: "stored s \<subseteq> X \<union> queue_records q" by (rule assms(3)[OF m l])
  have q': "q' = q\<lparr>tq_libraries := (tq_libraries q)[k := l\<lparr>vl_store := s\<rparr>]\<rparr>"
    using assms(1) VideoSlot m by (simp add: on_slot_def l_def)
  show ?thesis
    unfolding q' using s library_records_update[OF k, of "l\<lparr>vl_store := s\<rparr>"]
    by (auto simp: queue_records_split)
qed

text \<open>The record a save leaves behind: the decided one with a new time, revision and activity.\<close>

definition restamped :: "task_record \<Rightarrow> task_record \<Rightarrow> bool" where
  "restamped r r' = (\<exists>t n. r' = r\<lparr>tr_updated_at := t, tr_revision := saturating_add (tr_revision r) 1,
                               tr_activity_revision := n\<rparr>)"

lemma restamped_stamped: "restamped r (fst (stamped now activity ix r))"
proof (cases activity)
  case True
  then show ?thesis
    by (auto simp: restamped_def stamped_def Let_def bump_chat_activity_def)
next
  case False
  then have "fst (stamped now activity ix r) = r\<lparr>tr_updated_at := now,
      tr_revision := saturating_add (tr_revision r) 1, tr_activity_revision := tr_activity_revision r\<rparr>"
    by (simp add: stamped_def)
  then show ?thesis unfolding restamped_def by blast
qed

lemma restamped_ok: "restamped r r' \<Longrightarrow> record_ok r' = record_ok r"
  unfolding restamped_def by (elim exE) (rule record_ok_frame, simp_all add: counts_ok_def)

lemma restamped_evolves: "restamped r r' \<Longrightarrow> evolves r0 r' = evolves r0 r"
  by (auto simp: restamped_def evolves_def same_task_def)

lemma commit_stored:
  assumes "commit cd now e d s = (res, s')"
  shows "stored s' \<subseteq> {x. \<exists>r' a. d = Save r' a \<and> restamped r' x} \<union> stored s"
proof (cases d)
  case (Save r' a)
  obtain q t where w: "save_mutated_record cd now r' e a s = (q, t)"
    by (cases "save_mutated_record cd now r' e a s")
  have "s' = t" using assms Save w by (cases q) (simp_all add: commit_def bind_act_def ret_def)
  with save_mutated_record_stored[OF w] restamped_stamped[of r' now a "st_index s"] Save show ?thesis by auto
qed (use assms in \<open>auto simp: commit_def ret_def bail_def\<close>)

lemma run_op_at_records:
  assumes "run_op_at cd now i decide q = (res, q')"
  shows "queue_records q' \<subseteq>
    {x. \<exists>r\<in>queue_records q. \<exists>r' a q1 sl. tr_id r = i \<and> decide q1 sl r = Save r' a \<and> restamped r' x} \<union> queue_records q"
proof -
  obtain f q1 where f: "find_record_entry cd i q = (f, q1)" by (cases "find_record_entry cd i q")
  note fs = find_record_entry_sound[OF f]
  consider (stop) "q' = q1" | (go) sl r e where "f = Inr (Some (sl, r, e))"
      "on_slot sl (commit cd now e (decide q1 sl r)) q1 = (res, q')"
    using assms f by (auto simp: run_op_at_def split: sum.splits option.splits prod.splits)
  then show ?thesis
  proof cases
    case stop
    with fs(1) show ?thesis by auto
  next
    case (go sl r e)
    note fr = fs(3)[OF go(1)]
    have "queue_records q' \<subseteq> {x. \<exists>r' a. decide q1 sl r = Save r' a \<and> restamped r' x} \<union> queue_records q1"
      by (rule on_slot_records[OF go(2)]) (use fr commit_stored in \<open>fastforce split: slot.splits\<close>)+
    with fs(1) fr show ?thesis by blast
  qed
qed

lemma run_op_records:
  assumes "run_op cd now i decide q = (res, q')"
  shows "queue_records q' \<subseteq>
    {x. \<exists>r\<in>queue_records q. \<exists>r' a. tr_id r = i \<and> decide r = Save r' a \<and> restamped r' x} \<union> queue_records q"
  using run_op_at_records[OF assms[unfolded run_op_def]] by simp

subsection \<open>What an operation does to the records of the queue\<close>

definition records_ok :: "task_queue \<Rightarrow> bool" where
  "records_ok q = (\<forall>r\<in>queue_records q. record_ok r)"

definition queue_evolves :: "task_queue \<Rightarrow> task_queue \<Rightarrow> bool" where
  \<comment> \<open>every record is a later state of one held before\<close>
  "queue_evolves q q' = (\<forall>x\<in>queue_records q'. \<exists>r\<in>queue_records q. evolves r x)"

lemma queue_evolves_subset: "queue_records q' \<subseteq> queue_records q \<Longrightarrow> queue_evolves q q'"
  unfolding queue_evolves_def using evolves_refl by blast

lemma queue_evolves_trans: "queue_evolves a b \<Longrightarrow> queue_evolves b c \<Longrightarrow> queue_evolves a c"
  unfolding queue_evolves_def by (meson evolves_trans)

lemma run_op_at_keeps:
  assumes "records_ok q" "run_op_at cd now i decide q = (res, q')"
    and "\<And>q1 sl r r' a. record_ok r \<Longrightarrow> decide q1 sl r = Save r' a \<Longrightarrow> evolves r r' \<and> record_ok r'"
  shows "records_ok q' \<and> queue_evolves q q'"
proof -
  have "record_ok x \<and> (\<exists>r\<in>queue_records q. evolves r x)" if x: "x \<in> queue_records q'" for x
  proof (cases "x \<in> queue_records q")
    case True
    with assms(1) show ?thesis unfolding records_ok_def using evolves_refl by blast
  next
    case False
    with run_op_at_records[OF assms(2)] x obtain r r' a q1 sl where
      r: "r \<in> queue_records q" "decide q1 sl r = Save r' a" "restamped r' x" by auto
    then have "record_ok r" using assms(1) by (simp add: records_ok_def)
    with r assms(3) show ?thesis by (metis restamped_ok restamped_evolves)
  qed
  then show ?thesis by (auto simp: records_ok_def queue_evolves_def)
qed

context task_operation
begin

lemma run_op_keeps:
  assumes "input_ok" "records_ok q" "run_op cd now i decide q = (res, q')"
  shows "records_ok q' \<and> queue_evolves q q'"
  by (rule run_op_at_keeps[OF assms(2) assms(3)[unfolded run_op_def]])
    (use evolving[OF assms(1)] sound[OF assms(1)] in blast)

lemma run_op_blocked:
  assumes "\<And>r. r \<in> queue_records q \<Longrightarrow> tr_id r = i \<Longrightarrow> transfer_or_ack_pending r"
    and "run_op cd now i decide q = (res, q')"
  shows "queue_records q' \<subseteq> queue_records q"
  using run_op_records[OF assms(2)] assms(1) blocked by blast

end

context generation_operation
begin

lemma run_op_stale:
  assumes "\<And>r. r \<in> queue_records q \<Longrightarrow> tr_id r = i \<Longrightarrow> tr_generation r \<noteq> g"
    and "run_op cd now i (operation g) q = (res, q')"
  shows "queue_records q' \<subseteq> queue_records q"
  using run_op_records[OF assms(2)] assms(1) stale by blast

end

subsection \<open>The registration of running downloads\<close>

definition put_registration :: "string \<Rightarrow> registration \<Rightarrow> task_queue \<Rightarrow> task_queue" where
  "put_registration i rg q = q\<lparr>tq_cancellations := AList.update i rg (tq_cancellations q)\<rparr>"

definition drop_registration :: "string \<Rightarrow> task_queue \<Rightarrow> task_queue" where
  "drop_registration i q = q\<lparr>tq_cancellations := AList.delete i (tq_cancellations q)\<rparr>"

definition fresh_registration :: "string \<Rightarrow> u64 option \<Rightarrow> task_queue \<Rightarrow> nat \<times> task_queue" where
  "fresh_registration i g q =
     (tq_next_token q, put_registration i \<lparr>rg_generation = g, rg_token = tq_next_token q\<rparr>
        (q\<lparr>tq_next_token := Suc (tq_next_token q)\<rparr>))"

definition register_cancellation :: "store_codec \<Rightarrow> string \<Rightarrow> nat queue_act" where
  "register_cancellation cd i q =
     (case find_record_entry cd i q of
        (Inl m, q') \<Rightarrow> (Inl m, q')
      | (Inr found, q') \<Rightarrow>
          (case (case found of None \<Rightarrow> Inr () | Some (_, r, _) \<Rightarrow> ensure_transfer_not_pending r) of
             Inl m \<Rightarrow> (Inl m, q')
           | Inr _ \<Rightarrow> (case fresh_registration i None q' of (token, q'') \<Rightarrow> (Inr token, q''))))"

definition register_cancellation_if_queued_generation ::
  "store_codec \<Rightarrow> string \<Rightarrow> u64 \<Rightarrow> (task_record \<times> nat) option queue_act" where
  "register_cancellation_if_queued_generation cd i expected_generation q =
     (case find_record_entry cd i q of
        (Inl m, q') \<Rightarrow> (Inl m, q')
      | (Inr None, q') \<Rightarrow> (Inr None, q')
      | (Inr (Some (_, r, _)), q') \<Rightarrow>
          if transfer_or_ack_pending r \<or> tr_generation r \<noteq> expected_generation \<or> tr_status r \<noteq> Queued
          then (Inr None, q')
          else (case map_of (tq_cancellations q') i of
              Some current \<Rightarrow>
                if rg_generation current = Some expected_generation
                then (Inr (Some (r, rg_token current)), q')
                else (case fresh_registration i (Some expected_generation) q' of
                        (token, q'') \<Rightarrow> (Inr (Some (r, token)), q''))
            | None \<Rightarrow> (case fresh_registration i (Some expected_generation) q' of
                        (token, q'') \<Rightarrow> (Inr (Some (r, token)), q''))))"

definition unregister_cancellation :: "string \<Rightarrow> task_queue \<Rightarrow> task_queue" where
  "unregister_cancellation i q = drop_registration i q"

definition unregister_cancellation_if_current :: "string \<Rightarrow> nat \<Rightarrow> task_queue \<Rightarrow> task_queue" where
  "unregister_cancellation_if_current i token q =
     (case map_of (tq_cancellations q) i of
        None \<Rightarrow> q
      | Some current \<Rightarrow> if rg_token current = token then drop_registration i q else q)"

definition cancellation_target :: "string \<Rightarrow> task_queue \<Rightarrow> nat option" where
  "cancellation_target i q = map_option rg_token (map_of (tq_cancellations q) i)"

definition cancel_and_capture ::
  "store_codec \<Rightarrow> u64 \<Rightarrow> string \<Rightarrow> u64 option \<Rightarrow> i64 \<Rightarrow> task_status list option \<Rightarrow> bool \<Rightarrow> bool
     \<Rightarrow> (task_record \<times> nat option) option queue_act" where
  \<comment> \<open>the token is captured together with the saved transition\<close>
  "cancel_and_capture cd now i g chat statuses reject_verifying running_sets_request q =
     (case run_op cd now i (cancel_matching g chat statuses reject_verifying running_sets_request) q of
        (Inl m, q') \<Rightarrow> (Inl m, q')
      | (Inr None, q') \<Rightarrow> (Inr None, q')
      | (Inr (Some r), q') \<Rightarrow> (Inr (Some (r, cancellation_target i q)), q'))"

definition accept_proposed_plan ::
  "(string \<Rightarrow> string) \<Rightarrow> store_codec \<Rightarrow> u64 \<Rightarrow> string \<Rightarrow> u64 option \<Rightarrow> i64 option \<Rightarrow> task_record option queue_act" where
  \<comment> \<open>the registration of the accepted generation goes with the run it belonged to\<close>
  "accept_proposed_plan sha cd now i g chat q =
     (case run_op cd now i (accept_proposed_plan_with_constraints sha g chat) q of
        (Inr (Some r), q') \<Rightarrow>
          (Inr (Some r), (case map_of (tq_cancellations q') i of
             None \<Rightarrow> q'
           | Some current \<Rightarrow> if rg_generation current = Some (tr_generation r)
                             then drop_registration i q' else q'))
      | other \<Rightarrow> other)"

subsection \<open>Reading\<close>

definition queue_get :: "store_codec \<Rightarrow> string \<Rightarrow> task_record option queue_act" where
  "queue_get cd i q = (case find_record_entry cd i q of
      (Inl m, q') \<Rightarrow> (Inl m, q')
    | (Inr found, q') \<Rightarrow> (Inr (map_option (\<lambda>(_, r, _). r) found), q'))"

definition get_if_generation :: "store_codec \<Rightarrow> string \<Rightarrow> u64 \<Rightarrow> task_record option queue_act" where
  "get_if_generation cd i expected_generation q = (case queue_get cd i q of
      (Inl m, q') \<Rightarrow> (Inl m, q')
    | (Inr found, q') \<Rightarrow>
        (Inr (case found of None \<Rightarrow> None
              | Some r \<Rightarrow> if tr_generation r = expected_generation then Some r else None), q'))"

definition generation_matches :: "store_codec \<Rightarrow> string \<Rightarrow> u64 \<Rightarrow> bool queue_act" where
  "generation_matches cd i expected_generation q = (case queue_get cd i q of
      (Inl m, q') \<Rightarrow> (Inl m, q')
    | (Inr found, q') \<Rightarrow>
        (Inr (case found of None \<Rightarrow> False | Some r \<Rightarrow> tr_generation r = expected_generation), q'))"

definition QUEUE_PAGE_SIZE :: nat where "QUEUE_PAGE_SIZE = 10"

definition in_view :: "i64 \<Rightarrow> bool \<Rightarrow> task_record \<Rightarrow> bool" where
  "in_view chat_id history r =
     (tr_chat_id r = chat_id \<and> (if history then is_history (tr_status r) else \<not> is_history (tr_status r)))"

definition newest_first :: "task_record list \<Rightarrow> task_record list" where
  \<comment> \<open>\<open>sort_by_key(Reverse(updated_at))\<close>, a stable sort\<close>
  "newest_first rs = sort_key (\<lambda>r. - int (unat (tr_updated_at r))) rs"

definition list_page :: "i64 \<Rightarrow> bool \<Rightarrow> nat \<Rightarrow> task_record list \<Rightarrow> task_record list" where
  \<comment> \<open>what \<open>list\<close> returns of the records of \<open>all_records_isolated\<close>\<close>
  "list_page chat_id history page records =
     take QUEUE_PAGE_SIZE (drop (min (page * QUEUE_PAGE_SIZE) usize_max)
       (newest_first (filter (in_view chat_id history) records)))"

definition page_count :: "i64 \<Rightarrow> bool \<Rightarrow> task_record list \<Rightarrow> nat" where
  "page_count chat_id history records =
     (let count = length (filter (in_view chat_id history) records)
      in max ((count + QUEUE_PAGE_SIZE - 1) div QUEUE_PAGE_SIZE) 1)"

fun read_all_libraries ::
  "store_codec \<Rightarrow> video_library list \<Rightarrow> (task_record list \<times> string option) \<times> video_library list" where
  \<comment> \<open>the loop of \<open>all_records_isolated\<close>: the records, and the first error of a library that stays available\<close>
  "read_all_libraries cd [] = (([], None), [])"
| "read_all_libraries cd (l # ls) =
     (if \<not> vl_available l
      then (case read_all_libraries cd ls of (res, ls') \<Rightarrow> (res, l # ls'))
      else case list_records cd (vl_store l) of
          (Inr rs, s) \<Rightarrow> (case read_all_libraries cd ls of
              ((rest, err), ls') \<Rightarrow> ((rs @ rest, err), l\<lparr>vl_store := s\<rparr> # ls'))
        | (Inl m, s) \<Rightarrow> (case read_all_libraries cd ls of
              ((rest, err), ls') \<Rightarrow>
                ((rest, if vl_root_valid l then Some m else err),
                 note_video_store_read_error (l\<lparr>vl_store := s\<rparr>) # ls')))"

definition all_records_isolated :: "store_codec \<Rightarrow> task_record list queue_act" where
  "all_records_isolated cd q =
     (case read_all_libraries cd (tq_libraries q) of ((rs, err), ls) \<Rightarrow>
        let q' = q\<lparr>tq_libraries := ls\<rparr>;
            settle = (\<lambda>rs. if rs = [] then (case err of
                Some m \<Rightarrow> Inl (''failed to read task queue from available media libraries: '' @ m)
              | None \<Rightarrow> Inr rs) else Inr rs)
        in if pdf_shared q' then (settle rs, q')
           else (case list_records cd (tq_pdf q') of
                   (Inl m, s) \<Rightarrow> (Inl m, q'\<lparr>tq_pdf := s\<rparr>)
                 | (Inr rest, s) \<Rightarrow> (settle (rs @ rest), q'\<lparr>tq_pdf := s\<rparr>)))"

subsection \<open>Recovery at startup\<close>

definition recover_op :: "task_record \<Rightarrow> decision" where
  "recover_op r = (if needs_recovery r then Save (recover_record r) True else Refuse)"

interpretation recover_task: task_operation True recover_op
  by (rule task_operationI)
    (auto simp: recover_op_def needs_recovery_def recover_record_ok split: if_splits)

fun recover_records :: "store_codec \<Rightarrow> u64 \<Rightarrow> task_record list \<Rightarrow> unit act" where
  \<comment> \<open>\<open>recover_interrupted_task_records_in_store\<close>: the current record is read again before it is changed\<close>
  "recover_records cd now [] = ret ()"
| "recover_records cd now (r # rs) =
     (if needs_recovery r
      then bind_act (get_task cd (tr_id r)) (\<lambda>found. case found of
          None \<Rightarrow> recover_records cd now rs
        | Some (current, entry) \<Rightarrow>
            bind_act (save_mutated_record cd now (recover_record current) entry True)
              (\<lambda>_. recover_records cd now rs))
      else recover_records cd now rs)"

definition recover_interrupted_tasks_in_store :: "store_codec \<Rightarrow> u64 \<Rightarrow> unit act" where
  "recover_interrupted_tasks_in_store cd now = bind_act (list_records cd) (recover_records cd now)"

definition recover_startup_store :: "store_codec \<Rightarrow> u64 \<Rightarrow> unit act" where
  \<comment> \<open>one round of the loop of \<open>recover_interrupted_tasks\<close>: an unreadable store is skipped\<close>
  "recover_startup_store cd now s = (case list_records cd s of
      (Inl _, s') \<Rightarrow> (Inr (), s')
    | (Inr rs, s') \<Rightarrow> recover_records cd now rs s')"

fun recover_libraries :: "store_codec \<Rightarrow> u64 \<Rightarrow> video_library list \<Rightarrow> (string + unit) \<times> video_library list" where
  "recover_libraries cd now [] = (Inr (), [])"
| "recover_libraries cd now (l # ls) =
     (if \<not> vl_available l
      then (case recover_libraries cd now ls of (res, ls') \<Rightarrow> (res, l # ls'))
      else case recover_startup_store cd now (vl_store l) of
          (Inl m, s) \<Rightarrow> (Inl m, l\<lparr>vl_store := s\<rparr> # ls)
        | (Inr _, s) \<Rightarrow> (case recover_libraries cd now ls of (res, ls') \<Rightarrow> (res, l\<lparr>vl_store := s\<rparr> # ls')))"

definition recover_interrupted_tasks :: "store_codec \<Rightarrow> u64 \<Rightarrow> unit queue_act" where
  "recover_interrupted_tasks cd now q =
     (case recover_libraries cd now (tq_libraries q) of
        (Inl m, ls) \<Rightarrow> (Inl m, q\<lparr>tq_libraries := ls\<rparr>)
      | (Inr _, ls) \<Rightarrow>
          if pdf_shared q then (Inr (), q\<lparr>tq_libraries := ls\<rparr>)
          else (case recover_startup_store cd now (tq_pdf q) of
                  (res, s) \<Rightarrow> (res, q\<lparr>tq_libraries := ls, tq_pdf := s\<rparr>)))"

subsection \<open>Creating a task\<close>

definition slot_for_root :: "string \<Rightarrow> task_queue \<Rightarrow> slot option" where
  \<comment> \<open>\<open>store_for_root\<close>: the first available library with this root\<close>
  "slot_for_root root q =
     map_option VideoSlot (find (\<lambda>k. vl_available (tq_libraries q ! k) \<and> vl_root (tq_libraries q ! k) = root)
       [0..<length (tq_libraries q)])"

definition store_for_task :: "task_record \<Rightarrow> task_queue \<Rightarrow> string + slot" where
  "store_for_task task q = (case tr_job task of
      PdfJob _ \<Rightarrow> Inr PdfSlot
    | _ \<Rightarrow> (case tr_destination task of
        None \<Rightarrow> Inl (''video task '' @ tr_id task @ '' has no frozen destination'')
      | Some d \<Rightarrow> (case slot_for_root (td_root d) q of
          None \<Rightarrow> Inl (''video library '' @ td_library_id d @ '' is currently unavailable'')
        | Some sl \<Rightarrow> Inr sl)))"

definition ensure_registered_video_queues_searchable ::
  "(string \<times> string) list \<Rightarrow> string \<Rightarrow> task_queue \<Rightarrow> string + unit" where
  \<comment> \<open>the registered libraries with the diagnostic text shown for each\<close>
  "ensure_registered_video_queues_searchable registered task_id q =
     (case find (\<lambda>(i, _). \<not> list_ex (\<lambda>l. vl_available l \<and> vl_id l = i) (tq_libraries q)) registered of
        None \<Rightarrow> Inr ()
      | Some (i, detail) \<Rightarrow> Inl (''cannot verify whether task '' @ task_id
          @ '' already exists because registered media library '' @ i @ '' is unavailable: '' @ detail))"

definition is_pdf_job :: "job_request \<Rightarrow> bool" where
  "is_pdf_job job = (case job of PdfJob _ \<Rightarrow> True | _ \<Rightarrow> False)"

record admission =
  ad_default :: "string + task_destination"                  \<comment> \<open>the registry's default destination\<close>
  ad_validate :: "task_destination \<Rightarrow> string + unit"          \<comment> \<open>registry and root identity checks\<close>
  ad_registered :: "(string \<times> string) list"

definition admit_task :: "admission \<Rightarrow> task_record \<Rightarrow> string + task_record" where
  "admit_task ad task =
     (let task = task\<lparr>tr_attempt := map_option sanitize_errors (tr_attempt task)\<rparr> in
      if is_pdf_job (tr_job task) then Inr task
      else case (case tr_destination task of Some d \<Rightarrow> Inr d | None \<Rightarrow> ad_default ad) of
          Inl m \<Rightarrow> Inl m
        | Inr d \<Rightarrow> (case ad_validate ad d of
            Inl m \<Rightarrow> Inl m | Inr _ \<Rightarrow> Inr (task\<lparr>tr_destination := Some d\<rparr>)))"

definition create :: "store_codec \<Rightarrow> admission \<Rightarrow> task_record \<Rightarrow> bool queue_act" where
  \<comment> \<open>\<open>create_with_root_binding\<close>\<close>
  "create cd ad task q = (case admit_task ad task of
      Inl m \<Rightarrow> (Inl m, q)
    | Inr task \<Rightarrow>
        (case store_for_task task q of
           Inl m \<Rightarrow> (Inl m, q)
         | Inr sl \<Rightarrow>
             (case find_record_entry cd (tr_id task) q of
                (Inl m, q') \<Rightarrow> (Inl m, q')
              | (Inr (Some _), q') \<Rightarrow> (Inr False, q')
              | (Inr None, q') \<Rightarrow>
                  (case (if is_pdf_job (tr_job task) then Inr ()
                         else ensure_registered_video_queues_searchable (ad_registered ad) (tr_id task) q') of
                     Inl m \<Rightarrow> (Inl m, q')
                   | Inr _ \<Rightarrow> (case on_slot sl (create_task cd task) q' of
                       (Inl m, q'') \<Rightarrow> (Inl m, q'') | (Inr _, q'') \<Rightarrow> (Inr True, q''))))))"

lemma create_task_stored:
  assumes "create_task cd task s = (res, s')"
  shows "stored s' \<subseteq> {x. \<exists>n. x = task\<lparr>tr_activity_revision := n\<rparr>} \<union> stored s"
proof (cases "index_lookup (st_index s) (tr_id task) = None")
  case False
  with assms show ?thesis by (simp add: create_task_def)
next
  case True
  obtain n ix where b: "bump_chat_activity (st_index s) (tr_chat_id task) = (n, ix)"
    by (cases "bump_chat_activity (st_index s) (tr_chat_id task)")
  define t where "t = task\<lparr>tr_activity_revision := n\<rparr>"
  define more where "more = (\<lambda>_ :: unit. bind_act (write_index cd (index_insert (tr_id t)
                 \<lparr>ie_chat_id = tr_chat_id t, ie_record_path = QueueFile (tr_id t),
                  ie_move_target = None, ie_revision = tr_revision t,
                  ie_updated_at = tr_updated_at t\<rparr> ix)) (\<lambda>_. ret t))"
  have more: "keeps_stored (more u)" for u
    unfolding more_def by (intro keeps_stored_bind keeps_stored_write_index keeps_stored_basic)
  show ?thesis
  proof (cases "validate_task_id (tr_id t)")
    case (Inl m)
    with assms True b show ?thesis by (simp add: create_task_def Let_def t_def)
  next
    case (Inr u)
    then have "bind_act (write_record cd (QueueFile (tr_id t)) t) more s = (res, s')"
      using assms True b by (simp add: create_task_def Let_def t_def more_def)
    then show ?thesis
    proof (rule bind_cases)
      fix e assume "write_record cd (QueueFile (tr_id t)) t s = (Inl e, s')"
      then have "st_files s' = st_files s" using write_record_cases by blast
      then show ?thesis by (simp add: stored_def)
    next
      fix x s1 assume w: "write_record cd (QueueFile (tr_id t)) t s = (Inr x, s1)" and m: "more x s1 = (res, s')"
      have "stored s' \<subseteq> stored s1" by (rule keeps_storedD[OF more m])
      moreover have "stored s1 \<subseteq> insert t (stored s)"
        using write_record_cases[OF w] stored_put[of "QueueFile (tr_id t)" t "pop_fault s"] by auto
      ultimately show ?thesis unfolding t_def by blast
    qed
  qed
qed

lemma slot_for_root_bound: "slot_for_root root q = Some (VideoSlot k) \<Longrightarrow> k < length (tq_libraries q)"
  by (auto simp: slot_for_root_def find_Some_iff)

lemma create_records:
  assumes "create cd ad task q = (res, q')"
  shows "queue_records q' \<subseteq> {x. \<exists>t n. admit_task ad task = Inr t \<and> x = t\<lparr>tr_activity_revision := n\<rparr>} \<union> queue_records q"
proof -
  consider (same) "q' = q" | (found) q1 f where "find_record_entry cd (tr_id task) q = (f, q1)" "q' = q1"
    | (new) t sl q1 r where "admit_task ad task = Inr t" "store_for_task t q = Inr sl"
        "find_record_entry cd (tr_id t) q = (Inr None, q1)" "on_slot sl (create_task cd t) q1 = (r, q')"
  proof (cases "admit_task ad task")
    case (Inl m)
    with assms that(1) show thesis by (simp add: create_def)
  next
    case (Inr t)
    note t = this
    then have id: "tr_id t = tr_id task"
      by (auto simp: admit_task_def Let_def split: if_splits sum.splits option.splits)
    show thesis
    proof (cases "store_for_task t q")
      case (Inl m)
      with assms t that(1) show thesis by (simp add: create_def)
    next
      case (Inr sl)
      note sl = this
      obtain f q1 where f: "find_record_entry cd (tr_id t) q = (f, q1)"
        by (cases "find_record_entry cd (tr_id t) q")
      obtain r q2 where run: "on_slot sl (create_task cd t) q1 = (r, q2)"
        by (cases "on_slot sl (create_task cd t) q1")
      have "q' = q1 \<or> f = Inr None \<and> q' = q2"
        using assms t sl f run by (simp add: create_def split: sum.splits option.splits prod.splits)
      with that(2,3) t sl f run id show thesis by auto
    qed
  qed
  then show ?thesis
  proof cases
    case (found q1 f)
    with find_record_entry_sound(1)[OF found(1)] show ?thesis by auto
  next
    case (new t sl q1 r)
    note fs = find_record_entry_sound(1,2)[OF new(3)]
    have bound: "case sl of VideoSlot k \<Rightarrow> k < length (tq_libraries q1) | PdfSlot \<Rightarrow> True"
      using new(2) fs(2) by (auto simp: store_for_task_def dest!: slot_for_root_bound
          split: job_request.splits option.splits slot.splits)
    have "queue_records q' \<subseteq> {x. \<exists>n. x = t\<lparr>tr_activity_revision := n\<rparr>} \<union> queue_records q1"
      by (rule on_slot_records[OF new(4) bound]) (use create_task_stored in blast)
    with fs(1) new(1) show ?thesis by blast
  qed simp
qed

end
