(* ===== verification/Paths.thy ===== *)
theory Paths
  imports Prelude
begin

section \<open>Paths\<close>

text \<open>
  Rust's \<open>Path\<close> on Unix, at the level the sources use it: a path is read as its components (\<open>Path::components\<close>
  drops repeated separators and inner \<open>.\<close> components and keeps \<open>..\<close>), prefixes and equality are those of the
  component lists, and a path that is built is rendered with single separators.
\<close>

type_synonym path = "string list"   \<comment> \<open>the components of an absolute path\<close>

record location =
  lc_absolute :: bool
  lc_parts :: path

definition parse_location :: "string \<Rightarrow> location" where
  "parse_location s =
     (let absolute = starts_with s ''/'';
          raw = split_on CHR ''/'' s;
          parts = filter (\<lambda>p. p \<noteq> [] \<and> p \<noteq> ''.'') raw
      in \<lparr>lc_absolute = absolute,
          lc_parts = (if \<not> absolute \<and> raw \<noteq> [] \<and> hd raw = ''.'' then ''.'' # parts else parts)\<rparr>)"

definition path_string :: "path \<Rightarrow> string" where
  "path_string p = concat (map (\<lambda>c. ''/'' @ c) p)"

fun path_starts_with :: "path \<Rightarrow> path \<Rightarrow> bool" where
  "path_starts_with p [] = True"
| "path_starts_with [] (c # cs) = False"
| "path_starts_with (x # p) (c # cs) = (x = c \<and> path_starts_with p cs)"

definition path_parent :: "path \<Rightarrow> path option" where
  "path_parent p = (if p = [] then None else Some (butlast p))"

definition plain_component :: "string \<Rightarrow> bool" where
  \<comment> \<open>\<open>Component::Normal(_)\<close>, for a component of a relative path\<close>
  "plain_component c = (c \<noteq> ''.'' \<and> c \<noteq> ''..'')"

definition strip_prefix :: "path \<Rightarrow> path \<Rightarrow> path option" where
  "strip_prefix p root = (if path_starts_with p root then Some (drop (length root) p) else None)"

definition join_relative :: "path \<Rightarrow> string" where
  "join_relative p = join ''/'' p"

definition join_path :: "string \<Rightarrow> path \<Rightarrow> string" where
  \<comment> \<open>\<open>root.join(relative)\<close>: joining the empty path leaves a trailing separator\<close>
  "join_path root relative =
     root @ (if root \<noteq> [] \<and> last root \<noteq> CHR ''/'' then ''/'' else []) @ join_relative relative"

lemma path_starts_with_iff: "path_starts_with p q \<longleftrightarrow> (\<exists>r. p = q @ r)"
  by (induction p q rule: path_starts_with.induct) auto

lemma strip_prefix_Some: "strip_prefix p root = Some r \<longleftrightarrow> p = root @ r"
  by (auto simp: strip_prefix_def path_starts_with_iff)

end
