(* ===== verification/Completion.thy ===== *)
theory Completion
  imports QueueManager Paths
begin

section \<open>Completing a task (\<open>queue.rs\<close>, \<open>complete_if_generation\<close>)\<close>

text \<open>
  A completed record names the published outputs and is moved next to them: into a sidecar file in the
  deepest directory that holds all of them. The move is announced in the index before it is made, so that a
  crash in between can be repaired. Whether a location is a directory,
  and the resolution of the platform's root aliases, are parameters read from the file system. The sidecar's
  directory is taken to differ from the queue directory.
\<close>

subsection \<open>The outputs and the sidecar's place\<close>

record media_root =
  mr_root :: path                                  \<comment> \<open>\<open>root_path\<close>, under which paths are stored\<close>
  mr_aliases :: "path list"
  mr_bound :: path                                 \<comment> \<open>\<open>root.root_path()\<close>, the root as it is bound\<close>
  mr_alias :: "path \<Rightarrow> string + path"              \<comment> \<open>\<open>normalize_trusted_macos_alias\<close>\<close>
  mr_is_dir :: "string \<Rightarrow> bool"

definition media_path_relative_to_root :: "media_root \<Rightarrow> path \<Rightarrow> path option" where
  "media_path_relative_to_root m p =
     (let roots = List.map_filter (\<lambda>a. case mr_alias m a of Inl _ \<Rightarrow> None | Inr r \<Rightarrow> Some r) (mr_aliases m)
      in map_option (\<lambda>r. drop (length r) p) (find (path_starts_with p) (roots @ [mr_bound m])))"

definition normalize_media_path :: "media_root \<Rightarrow> path \<Rightarrow> string + path" where
  "normalize_media_path m p = (case mr_alias m p of
      Inl e \<Rightarrow> Inl e
    | Inr p \<Rightarrow> (case media_path_relative_to_root m p of
        None \<Rightarrow> Inl ''published media path is outside its configured download root''
      | Some relative \<Rightarrow>
          if relative = [] \<or> list_ex (\<lambda>c. c = ''..'') relative
          then Inl ''published media path is not a file within its configured download root''
          else Inr (mr_root m @ relative)))"

fun normalize_all :: "media_root \<Rightarrow> path list \<Rightarrow> string + path list" where
  "normalize_all m [] = Inr []"
| "normalize_all m (p # ps) = (case normalize_media_path m p of
      Inl e \<Rightarrow> Inl e
    | Inr p \<Rightarrow> (case normalize_all m ps of Inl e \<Rightarrow> Inl e | Inr ps \<Rightarrow> Inr (p # ps)))"

function common_parent :: "path list \<Rightarrow> path \<Rightarrow> path" where
  \<comment> \<open>\<open>while !parents.iter().all(..) { parent.pop() }\<close>, which stops at the root at the latest\<close>
  "common_parent parents parent =
     (if list_all (\<lambda>candidate. path_starts_with candidate parent) parents then parent
      else common_parent parents (butlast parent))"
  by pat_completeness auto
termination
proof (relation "measure (\<lambda>(_, p). length p)")
  fix parents :: "path list" and parent :: path
  assume "\<not> list_all (\<lambda>candidate. path_starts_with candidate parent) parents"
  then have "parent \<noteq> []" by (auto simp: list_all_iff)
  then show "((parents, butlast parent), parents, parent) \<in> measure (\<lambda>(_, p). length p)" by simp
qed simp

declare common_parent.simps [simp del]

definition sidecar_name :: "path \<Rightarrow> string \<Rightarrow> record_path" where
  "sidecar_name parent i = SidecarFile (path_string parent) i"

definition sidecar_destination :: "media_root \<Rightarrow> task_record \<Rightarrow> path list \<Rightarrow> string + record_path option" where
  "sidecar_destination m r media_paths =
     (let outside = Inl ''published media path is outside its configured download root'';
          place = (\<lambda>parent. if path_starts_with parent (mr_root m)
                            then Inr (Some (sidecar_name parent (tr_id r))) else outside)
      in case List.map_filter path_parent media_paths of
          p # ps \<Rightarrow> place (common_parent (p # ps) p)
        | [] \<Rightarrow>
            (case tr_saved_location r of
               None \<Rightarrow> Inr None
             | Some s \<Rightarrow>
                 let l = parse_location s;
                     parent = (if mr_is_dir m s then Some (lc_parts l) else path_parent (lc_parts l))
                 in case parent of
                      None \<Rightarrow> Inr None
                    | Some p \<Rightarrow> if lc_absolute l then place p else outside))"

subsection \<open>Completing the record\<close>

definition grouped_unverified :: "task_record \<Rightarrow> bool" where
  "grouped_unverified r = (case tr_attempt r of None \<Rightarrow> False
     | Some s \<Rightarrow> sn_independent_entries s \<and> list_ex (\<lambda>e. ae_state e \<noteq> Verified) (sn_entries s))"

definition completed_record ::
  "string \<Rightarrow> hash_map \<Rightarrow> hash_manifest option \<Rightarrow> task_record \<Rightarrow> task_record" where
  "completed_record saved_location hashes manifest r =
     (let r1 = r\<lparr>tr_status := TCompleted, tr_attempt := map_option (finish OVerified) (tr_attempt r),
                 tr_error := None, tr_saved_location := Some saved_location, tr_media_hashes := hashes,
                 tr_hash_manifest := manifest\<rparr>;
          r2 = (if tr_attempt r \<noteq> None then refresh_attempt_counts r1
                else if tr_entries_total r \<le> 1 then r1\<lparr>tr_entries_total := 1, tr_entries_completed := 1\<rparr>
                else r1\<lparr>tr_entries_completed := tr_entries_total r, tr_entries_failed := 0\<rparr>)
      in r2\<lparr>tr_cancel_requested := False\<rparr>)"

definition finish_completed_record_sidecar ::
  "store_codec \<Rightarrow> u64 \<Rightarrow> (string \<Rightarrow> bool) \<Rightarrow> task_record \<Rightarrow> index_entry \<Rightarrow> record_path option \<Rightarrow> task_record act" where
  \<comment> \<open>the predicate tells an error of the file provider, after which the move stays pending\<close>
  "finish_completed_record_sidecar cd now access_error r entry destination = (case destination of
      None \<Rightarrow> if in_queue_dir (ie_record_path entry) then save_mutated_record cd now r entry True else ret r
    | Some destination \<Rightarrow>
        bind_act
          (case ie_move_target entry of
             Some pending_target \<Rightarrow>
               if pending_target \<noteq> destination
               then bail (''task '' @ tr_id r @ '' has a different pending sidecar destination'')
               else ret entry
           | None \<Rightarrow>
               if ie_record_path entry \<noteq> destination
               then let entry = entry\<lparr>ie_move_target := Some destination, ie_revision := tr_revision r,
                                      ie_updated_at := tr_updated_at r\<rparr>
                    in bind_act (save_index_task cd (tr_id r) entry) (\<lambda>_. ret entry)
               else ret entry)
          (\<lambda>entry.
             if ie_record_path entry = destination
             then if ie_move_target entry \<noteq> None
                  then save_mutated_record cd now r (entry\<lparr>ie_move_target := None\<rparr>) True
                  else ret r
             else (\<lambda>s. case move_record_to_sidecar (tr_id r) (ie_record_path entry) destination s of
                 (Inl m, s') \<Rightarrow> (if access_error m then Inr r else Inl m, s')
               | (Inr status, s') \<Rightarrow>
                   if status = MissingRecord
                   then (Inl ''task record disappeared before sidecar migration'', s')
                   else save_mutated_record cd now r
                          (entry\<lparr>ie_record_path := destination, ie_move_target := None\<rparr>) True s')))"

record completion =
  cp_saved_location :: string
  cp_media_paths :: "path list"
  cp_hashes :: hash_map

record completion_env =
  ce_sha :: "string \<Rightarrow> string"
  ce_hashes_len :: "hash_map \<Rightarrow> nat"
  ce_access_error :: "string \<Rightarrow> bool"

definition complete_record ::
  "completion_env \<Rightarrow> store_codec \<Rightarrow> u64 \<Rightarrow> media_root \<Rightarrow> u64 option \<Rightarrow> completion
     \<Rightarrow> task_record \<Rightarrow> index_entry \<Rightarrow> task_record option act" where
  \<comment> \<open>\<open>complete_if_generation_unnotified\<close>, once the record was found\<close>
  "complete_record env cd now m expected_generation c r entry =
     (if transfer_or_ack_pending r then ret None
      else if \<not> matches expected_generation (tr_generation r) then ret None
      else bind_act (lift_result (normalize_all m (cp_media_paths c))) (\<lambda>media_paths.
        case persist_media_hashes (ce_sha env) (ce_hashes_len env) (cp_hashes c) of (hashes, manifest) \<Rightarrow>
        if tr_status r = TCompleted
        then if tr_saved_location r \<noteq> Some (cp_saved_location c) \<or> tr_media_hashes r \<noteq> hashes
                \<or> tr_hash_manifest r \<noteq> manifest
             then bail (''task '' @ tr_id r @ '' was already completed with different published outputs'')
             else bind_act (lift_result (sidecar_destination m r media_paths)) (\<lambda>destination.
                    bind_act (finish_completed_record_sidecar cd now (ce_access_error env) r entry destination)
                      (\<lambda>r. ret (Some r)))
        else if tr_status r \<noteq> Verifying
        then bail (''task '' @ tr_id r @ '' changed state before output verification completed'')
        else if grouped_unverified r
        then bail (''task '' @ tr_id r @ '' has Bilibili entries that are not individually verified'')
        else let r = completed_record (cp_saved_location c) hashes manifest r in
          bind_act (lift_result (sidecar_destination m r media_paths)) (\<lambda>destination.
            case destination of
              None \<Rightarrow> bind_act (finish_completed_record_sidecar cd now (ce_access_error env) r entry None)
                         (\<lambda>r. ret (Some r))
            | Some d \<Rightarrow>
                let r = r\<lparr>tr_updated_at := now, tr_revision := saturating_add (tr_revision r) 1\<rparr>;
                    entry' = entry\<lparr>ie_move_target := Some d, ie_revision := tr_revision r,
                                   ie_updated_at := tr_updated_at r\<rparr>
                in bind_act (write_record cd (ie_record_path entry) r) (\<lambda>_.
                     bind_act (save_index_task cd (tr_id r) entry') (\<lambda>_.
                       bind_act (finish_completed_record_sidecar cd now (ce_access_error env) r entry' (Some d))
                         (\<lambda>r. ret (Some r)))))))"

definition complete_if_generation ::
  "completion_env \<Rightarrow> store_codec \<Rightarrow> u64 \<Rightarrow> (slot \<Rightarrow> media_root) \<Rightarrow> string \<Rightarrow> u64 option \<Rightarrow> completion
     \<Rightarrow> task_record option queue_act" where
  "complete_if_generation env cd now roots i expected_generation c q =
     (case find_record_entry cd i q of
        (Inl m, q') \<Rightarrow> (Inl m, q')
      | (Inr None, q') \<Rightarrow>
          (if expected_generation \<noteq> None then Inr None
           else Inl (''persistent task '' @ i @ '' was missing at completion''), q')
      | (Inr (Some (sl, r, e)), q') \<Rightarrow>
          on_slot sl (complete_record env cd now (roots sl) expected_generation c r e) q')"

definition publication_due :: "task_record option \<Rightarrow> bool" where
  \<comment> \<open>whether \<open>complete_if_generation_inner\<close> notifies the publication service\<close>
  "publication_due result = (case result of None \<Rightarrow> False
     | Some r \<Rightarrow> tr_status r = TCompleted \<and> tr_saved_location r \<noteq> None)"

end
