(* ===== verification/Rebase.thy ===== *)
theory Rebase
  imports TaskRecord Paths
begin

section \<open>Moving the paths of a task to another library (\<open>queue.rs\<close>)\<close>

text \<open>
  When a task moves to another library, every path its record holds is rewritten: first by the moves of the
  media that were moved themselves (the deepest source that contains the path wins), otherwise from the
  source root to the target root. The resolution of the platform's root aliases is a parameter.
\<close>

subsection \<open>Rewriting one path\<close>

type_synonym path_alias = "string \<Rightarrow> string + string"      \<comment> \<open>\<open>normalize_trusted_macos_alias\<close>\<close>
type_synonym moves = "(string \<times> string) list"            \<comment> \<open>in key order\<close>

definition location_strip :: "string \<Rightarrow> string \<Rightarrow> path option" where
  "location_strip p root =
     (let p = parse_location p; root = parse_location root
      in if lc_absolute p = lc_absolute root then strip_prefix (lc_parts p) (lc_parts root) else None)"

fun max_by_depth :: "(nat \<times> 'a) list \<Rightarrow> (nat \<times> 'a) option" where
  \<comment> \<open>\<open>max_by_key\<close>, which returns the last of several maximal elements\<close>
  "max_by_depth [] = None"
| "max_by_depth ((n, x) # xs) = (case max_by_depth xs of
      None \<Rightarrow> Some (n, x) | Some (m, y) \<Rightarrow> if n \<le> m then Some (m, y) else Some (n, x))"

definition rewritten_source :: "path_alias \<Rightarrow> string \<Rightarrow> moves \<Rightarrow> string option" where
  "rewritten_source alias normalized moves =
     (let candidates = List.map_filter (\<lambda>(source, target). case alias source of
            Inl _ \<Rightarrow> None
          | Inr source \<Rightarrow> map_option (\<lambda>rest. (length (lc_parts (parse_location source)), rest, target))
                            (location_strip normalized source)) moves
      in case max_by_depth candidates of
           None \<Rightarrow> None
         | Some (_, rest, target) \<Rightarrow>
             if list_all plain_component rest then Some (join_path target rest) else None)"

definition rewrite_published_path :: "path_alias \<Rightarrow> string \<Rightarrow> string \<Rightarrow> moves \<Rightarrow> string \<Rightarrow> string" where
  "rewrite_published_path alias source_root target_root moves path =
     (case alias path of
        Inl _ \<Rightarrow> path
      | Inr normalized \<Rightarrow>
          (case rewritten_source alias normalized moves of
             Some moved \<Rightarrow> moved
           | None \<Rightarrow>
               (case alias source_root of
                  Inl _ \<Rightarrow> path
                | Inr root \<Rightarrow>
                    (case location_strip normalized root of
                       None \<Rightarrow> path
                     | Some relative \<Rightarrow> if list_all plain_component relative
                                        then join_path target_root relative else path))))"

definition rebase_path_string :: "path_alias \<Rightarrow> string \<Rightarrow> string \<Rightarrow> moves \<Rightarrow> string \<Rightarrow> string" where
  "rebase_path_string alias source_root target_root moves val =
     (if \<not> lc_absolute (parse_location val) then val
      else rewrite_published_path alias source_root target_root moves val)"

subsection \<open>Rewriting a record\<close>

definition rebase_collection_snapshot ::
  "path_alias \<Rightarrow> string \<Rightarrow> string \<Rightarrow> moves \<Rightarrow> plan_snapshot option \<Rightarrow> plan_snapshot option" where
  "rebase_collection_snapshot alias source_root target_root moves =
     map_option (\<lambda>snapshot. snapshot\<lparr>pl_collection_directory :=
       (case pl_collection_directory snapshot of
          MissingDirectory p \<Rightarrow> MissingDirectory (rebase_path_string alias source_root target_root moves p)
        | ExistingDirectory p d i b \<Rightarrow>
            ExistingDirectory (rebase_path_string alias source_root target_root moves p) d i b
        | Untracked \<Rightarrow> Untracked)\<rparr>)"

definition rebase_hashes :: "path_alias \<Rightarrow> string \<Rightarrow> string \<Rightarrow> moves \<Rightarrow> hash_map \<Rightarrow> hash_map" where
  \<comment> \<open>the bindings are inserted one by one, so that of two paths that become equal the later one stays\<close>
  "rebase_hashes alias source_root target_root moves hashes =
     bt_collect (map (\<lambda>(p, digest). (rebase_path_string alias source_root target_root moves p, digest)) hashes)"

definition rebase_entry :: "path_alias \<Rightarrow> string \<Rightarrow> string \<Rightarrow> moves \<Rightarrow> attempt_entry \<Rightarrow> attempt_entry" where
  "rebase_entry alias source_root target_root moves e =
     e\<lparr>ae_media_paths := map (rewrite_published_path alias source_root target_root moves) (ae_media_paths e),
       ae_media_hashes := rebase_hashes alias source_root target_root moves (ae_media_hashes e)\<rparr>"

definition rebase_task_paths ::
  "path_alias \<Rightarrow> string \<Rightarrow> string \<Rightarrow> moves \<Rightarrow> task_record \<Rightarrow> string + task_record" where
  "rebase_task_paths alias source_root target_root moves r =
     (if tr_hash_manifest r \<noteq> None \<and> tr_media_hashes r \<noteq> []
      then Inl ''task has inconsistent compacted media hash state and cannot be transferred''
      else if tr_hash_manifest r \<noteq> None \<and> moves \<noteq> []
      then Inl ''task has compacted media hashes that cannot be safely rebased''
      else Inr (r\<lparr>
        tr_staging_attempts := map (rewrite_published_path alias source_root target_root []) (tr_staging_attempts r),
        tr_saved_location := map_option (rebase_path_string alias source_root target_root moves) (tr_saved_location r),
        tr_media_hashes := rebase_hashes alias source_root target_root moves (tr_media_hashes r),
        tr_plan := rebase_collection_snapshot alias source_root target_root moves (tr_plan r),
        tr_proposed_plan := rebase_collection_snapshot alias source_root target_root moves (tr_proposed_plan r),
        tr_display_metadata :=
          rebase_collection_snapshot alias source_root target_root moves (tr_display_metadata r),
        tr_attempt := map_option (\<lambda>attempt. attempt\<lparr>sn_entries :=
          map (rebase_entry alias source_root target_root moves) (sn_entries attempt)\<rparr>) (tr_attempt r)\<rparr>))"

subsection \<open>A path and its rendering\<close>

definition good_component :: "string \<Rightarrow> bool" where
  "good_component c = (c \<noteq> [] \<and> CHR ''/'' \<notin> set c \<and> plain_component c)"

definition inside :: "path \<Rightarrow> string \<Rightarrow> bool" where
  \<comment> \<open>a file or directory below the root, in the form Rust renders it\<close>
  "inside root s = (\<exists>rel. rel \<noteq> [] \<and> list_all good_component rel \<and> s = path_string (root @ rel))"









lemma inside_good:
  assumes "inside A p" "A \<noteq> []" "list_all good_component A"
  obtains rel where "rel \<noteq> []" "list_all good_component rel" "p = path_string (A @ rel)"
  using assms by (auto simp: inside_def)

















definition rebased :: "path_alias \<Rightarrow> string \<Rightarrow> string \<Rightarrow> moves \<Rightarrow> task_record \<Rightarrow> task_record" where
  \<comment> \<open>the record \<open>rebase_task_paths\<close> returns unless it refuses\<close>
  "rebased alias A B moves r = r\<lparr>
        tr_staging_attempts := map (rewrite_published_path alias A B []) (tr_staging_attempts r),
        tr_saved_location := map_option (rebase_path_string alias A B moves) (tr_saved_location r),
        tr_media_hashes := rebase_hashes alias A B moves (tr_media_hashes r),
        tr_plan := rebase_collection_snapshot alias A B moves (tr_plan r),
        tr_proposed_plan := rebase_collection_snapshot alias A B moves (tr_proposed_plan r),
        tr_display_metadata := rebase_collection_snapshot alias A B moves (tr_display_metadata r),
        tr_attempt := map_option (\<lambda>attempt. attempt\<lparr>sn_entries :=
          map (rebase_entry alias A B moves) (sn_entries attempt)\<rparr>) (tr_attempt r)\<rparr>"

lemma rebase_task_paths_Inr: "rebase_task_paths a A B mv r = Inr r' \<Longrightarrow> r' = rebased a A B mv r"
  by (simp add: rebase_task_paths_def rebased_def split: if_splits)



subsection \<open>There and back\<close>


lemma rebased_same [simp]:
  "tr_id (rebased a A B mv r) = tr_id r" "tr_chat_id (rebased a A B mv r) = tr_chat_id r"
  "tr_update_id (rebased a A B mv r) = tr_update_id r" "tr_message_id (rebased a A B mv r) = tr_message_id r"
  "tr_submitter_user_id (rebased a A B mv r) = tr_submitter_user_id r" "tr_ordinal (rebased a A B mv r) = tr_ordinal r"
  "tr_created_at (rebased a A B mv r) = tr_created_at r" "tr_generation (rebased a A B mv r) = tr_generation r"
  "tr_status (rebased a A B mv r) = tr_status r" "tr_cancel_requested (rebased a A B mv r) = tr_cancel_requested r"
  "tr_transfer (rebased a A B mv r) = tr_transfer r" "tr_transfer_ack (rebased a A B mv r) = tr_transfer_ack r"
  "tr_entries_total (rebased a A B mv r) = tr_entries_total r"
  "tr_entries_completed (rebased a A B mv r) = tr_entries_completed r"
  "tr_entries_failed (rebased a A B mv r) = tr_entries_failed r"
  "tr_destination (rebased a A B mv r) = tr_destination r" "tr_revision (rebased a A B mv r) = tr_revision r"
  "tr_job (rebased a A B mv r) = tr_job r"
  by (simp_all add: rebased_def)




end
