(* ===== verification/TransferPlan.thy ===== *)
theory TransferPlan
  imports Rebase
begin

unbundle bit_operations_syntax

section \<open>The plan of a task transfer (\<open>queue.rs\<close>, \<open>media_libraries.rs\<close>)\<close>

text \<open>
  A plan lists the staging files and control files that move with a task. It travels through the migration
  engine, so it is validated again before it is used: \<open>validate_task_transfer_plan_shape\<close>. Paths in a plan are
  relative and compared by their components. The effective user id is a parameter, and so is the digest of
  a plan's JSON; the scan that builds a plan and the comparison with the files on disk are not modelled.
\<close>

subsection \<open>Data\<close>

datatype transfer_entry_kind = TransferDirectory | TransferFile

datatype transfer_control_kind =
    Owner | Retention | PublicationManifest | WorkerRequest | WorkerLifecycle | WorkerLifecycleTransition
  | BbdownConfig

record transfer_file =
  tf_source_relative :: string
  tf_target_relative :: string
  tf_kind :: transfer_entry_kind
  tf_device :: u64
  tf_inode :: u64
  tf_size_bytes :: u64
  tf_owner :: u32
  tf_group :: u32
  tf_mode :: u32
  tf_link_count :: "u64 option"
  tf_sha256 :: "string option"
  tf_chunk_sha256 :: "string list"

record transfer_control =
  tc_source_relative :: string
  tc_target_relative :: string
  tc_kind :: transfer_control_kind
  tc_device :: u64
  tc_inode :: u64
  tc_size_bytes :: u64
  tc_owner :: u32
  tc_group :: u32
  tc_mode :: u32
  tc_link_count :: "u64 option"
  tc_sha256 :: string

record transfer_plan =
  tp_transfer :: task_transfer
  tp_source_root :: string
  tp_target_root :: string
  tp_queue_record_source :: string
  tp_queue_record_target :: string
  tp_files :: "transfer_file list"
  tp_controls :: "transfer_control list"
  tp_moves :: moves
  tp_total_bytes :: u64
  tp_fingerprint :: string

definition MAX_TASK_TRANSFER_ENTRIES :: nat where "MAX_TASK_TRANSFER_ENTRIES = 20000"
definition MAX_TASK_TRANSFER_BYTES :: u64 where "MAX_TASK_TRANSFER_BYTES = 2 ^ 50"
definition TASK_TRANSFER_CHUNK_BYTES :: nat where "TASK_TRANSFER_CHUNK_BYTES = 8 * 1024 * 1024"
definition QUEUE_DIRECTORY :: string where "QUEUE_DIRECTORY = ''.telegram-video-downloader-queue''"
definition VIDEO_STAGING_DIRECTORY :: string where
  "VIDEO_STAGING_DIRECTORY = ''.telegram-video-downloader-staging''"
definition VIDEO_STAGING_JOB_PREFIX :: string where "VIDEO_STAGING_JOB_PREFIX = ''job-''"

subsection \<open>Policies of single entries\<close>

definition validate_task_transfer_migration_id :: "string \<Rightarrow> string + unit" where
  "validate_task_transfer_migration_id i =
     (if i = [] \<or> length i > 128
         \<or> \<not> list_all (\<lambda>c. is_ascii_alphanumeric c \<or> c = CHR ''-'' \<or> c = CHR ''_'') i
      then Inl (''migration id must contain 1 to 128 ASCII letters, digits, '' @ [CHR 0x27] @ ''-'' @ [CHR 0x27]
              @ '' or '' @ [CHR 0x27] @ ''_'' @ [CHR 0x27])
      else Inr ())"

definition relative_ok :: "string \<Rightarrow> bool" where
  "relative_ok p = (let l = parse_location p; components = lc_parts l
     in \<not> lc_absolute l \<and> 2 \<le> length components \<and> components ! 0 = VIDEO_STAGING_DIRECTORY
        \<and> starts_with (components ! 1) VIDEO_STAGING_JOB_PREFIX \<and> list_all plain_component components)"

definition validate_transfer_relative :: "string \<Rightarrow> string + unit" where
  "validate_transfer_relative p =
     (if relative_ok p then Inr () else Inl ''task transfer path is outside its exact private staging job'')"

definition validate_staging_directory_policy :: "u32 \<Rightarrow> string \<Rightarrow> u32 \<Rightarrow> u32 \<Rightarrow> string + unit" where
  \<comment> \<open>\<open>0o6000\<close> is 3072, \<open>0o077\<close> is 63\<close>
  "validate_staging_directory_policy euid relative owner mode =
     (let is_job_root = (length (lc_parts (parse_location relative)) = 2)
      in if owner \<noteq> euid \<or> mode AND 3072 \<noteq> 0 \<or> (is_job_root \<and> mode AND 63 \<noteq> 0)
         then Inl (''video staging directory access policy is unsafe: '' @ relative) else Inr ())"

definition validate_staging_payload_file_policy :: "u32 \<Rightarrow> string \<Rightarrow> u32 \<Rightarrow> u32 \<Rightarrow> u64 \<Rightarrow> string + unit" where
  "validate_staging_payload_file_policy euid relative owner mode link_count =
     (if owner \<noteq> euid \<or> mode AND 3072 \<noteq> 0 \<or> link_count \<noteq> 1
      then Inl (''task staging payload is not owner-owned and single-linked: '' @ relative) else Inr ())"

definition file_name :: "string \<Rightarrow> string option" where
  \<comment> \<open>\<open>Path::file_name\<close>\<close>
  "file_name p = (case rev (lc_parts (parse_location p)) of
      [] \<Rightarrow> None | c # _ \<Rightarrow> if plain_component c then Some c else None)"

definition control_kind_for_path :: "string \<Rightarrow> transfer_control_kind option" where
  "control_kind_for_path p = (case file_name p of
      None \<Rightarrow> None
    | Some n \<Rightarrow> map_of
        [(''.owner.json'', Owner), (''.retained.json'', Retention), (''.publication.json'', PublicationManifest),
         (''.bilibili-worker.json'', WorkerRequest), (''.bilibili-worker-lifecycle.json'', WorkerLifecycle),
         (''.bilibili-worker-lifecycle.next.json'', WorkerLifecycleTransition),
         (''BBDown.config'', BbdownConfig)] n)"

definition parent_depth :: "string \<Rightarrow> nat option" where
  \<comment> \<open>\<open>path.parent()\<close> and the number of its components, for a relative path\<close>
  "parent_depth p = (case lc_parts (parse_location p) of [] \<Rightarrow> None | _ # cs \<Rightarrow> Some (length cs))"


subsection \<open>The shape of a plan\<close>

definition check_file :: "u32 \<Rightarrow> transfer_file \<Rightarrow> string + unit" where
  \<comment> \<open>the path and policy checks at the head of the loop over the files\<close>
  "check_file euid f = (case validate_transfer_relative (tf_source_relative f) of
      Inl e \<Rightarrow> Inl e
    | Inr _ \<Rightarrow> (case validate_transfer_relative (tf_target_relative f) of
        Inl e \<Rightarrow> Inl e
      | Inr _ \<Rightarrow> (case tf_kind f of
          TransferDirectory \<Rightarrow>
            validate_staging_directory_policy euid (tf_source_relative f) (tf_owner f) (tf_mode f)
        | TransferFile \<Rightarrow>
            validate_staging_payload_file_policy euid (tf_source_relative f) (tf_owner f) (tf_mode f)
              (case tf_link_count f of None \<Rightarrow> 0 | Some n \<Rightarrow> n))))"

definition same_path :: "string \<Rightarrow> string \<Rightarrow> bool" where
  "same_path p q = (parse_location p = parse_location q)"

definition chunk_count :: "u64 \<Rightarrow> nat" where
  \<comment> \<open>\<open>(size as usize).div_ceil(TASK_TRANSFER_CHUNK_BYTES)\<close>\<close>
  "chunk_count byte_len = (unat byte_len + TASK_TRANSFER_CHUNK_BYTES - 1) div TASK_TRANSFER_CHUNK_BYTES"

definition file_digests_complete :: "transfer_file \<Rightarrow> bool" where
  "file_digests_complete f =
     (tf_sha256 f \<noteq> None \<and> tf_sha256 f \<noteq> Some [] \<and> length (tf_chunk_sha256 f) = chunk_count (tf_size_bytes f))"

fun validate_files ::
  "u32 \<Rightarrow> transfer_file list \<Rightarrow> location list \<Rightarrow> u64 \<Rightarrow> string + (location list \<times> u64)" where
  \<comment> \<open>\<open>paths\<close> holds the paths seen, \<open>total_bytes\<close> the bytes counted\<close>
  "validate_files euid [] paths total_bytes = Inr (paths, total_bytes)"
| "validate_files euid (f # fs) paths total_bytes =
     (case check_file euid f of
        Inl e \<Rightarrow> Inl e
      | Inr _ \<Rightarrow>
          if \<not> same_path (tf_source_relative f) (tf_target_relative f)
             \<or> parse_location (tf_source_relative f) \<in> set paths
          then Inl ''task transfer plan contains a duplicate or rewritten staging path''
          else if parent_depth (tf_source_relative f) = Some 2 \<and> control_kind_for_path (tf_source_relative f) \<noteq> None
          then Inl ''task transfer plan treats a staging control as ordinary payload''
          else if tf_kind f = TransferFile
          then (case checked_add total_bytes (tf_size_bytes f) of
              None \<Rightarrow> Inl ''task transfer plan byte count overflow''
            | Some counted \<Rightarrow>
                if \<not> file_digests_complete f
                then Inl ''task transfer plan has incomplete file content proofs''
                else validate_files euid fs (parse_location (tf_source_relative f) # paths) counted)
          else if tf_size_bytes f \<noteq> 0 \<or> tf_sha256 f \<noteq> None \<or> tf_chunk_sha256 f \<noteq> []
          then Inl ''task transfer directory proof contains file content fields''
          else validate_files euid fs (parse_location (tf_source_relative f) # paths) total_bytes)"

fun validate_controls :: "transfer_control list \<Rightarrow> location list \<Rightarrow> string + location list" where
  "validate_controls [] paths = Inr paths"
| "validate_controls (c # cs) paths =
     (case validate_transfer_relative (tc_source_relative c) of
        Inl e \<Rightarrow> Inl e
      | Inr _ \<Rightarrow> (case validate_transfer_relative (tc_target_relative c) of
          Inl e \<Rightarrow> Inl e
        | Inr _ \<Rightarrow>
            if \<not> same_path (tc_source_relative c) (tc_target_relative c)
               \<or> parse_location (tc_source_relative c) \<in> set paths
            then Inl ''task transfer plan contains a duplicate or rewritten control path''
            else if parent_depth (tc_source_relative c) \<noteq> Some 2
                    \<or> control_kind_for_path (tc_source_relative c) \<noteq> Some (tc_kind c)
            then Inl ''task transfer plan has a control outside the direct job directory''
            else validate_controls cs (parse_location (tc_source_relative c) # paths)))"

definition plan_paths :: "transfer_plan \<Rightarrow> string list" where
  "plan_paths plan = map tf_source_relative (tp_files plan) @ map tc_source_relative (tp_controls plan)"

definition job_of :: "string \<Rightarrow> string" where
  "job_of p = join ''/'' (take 2 (lc_parts (parse_location p)))"

definition transfer_staging_jobs :: "transfer_plan \<Rightarrow> string + string list" where
  \<comment> \<open>the validation of each path already gives its first two components their form\<close>
  "transfer_staging_jobs plan =
     (case find (\<lambda>p. \<not> relative_ok p) (plan_paths plan) of
        Some p \<Rightarrow> Inl ''task transfer path is outside its exact private staging job''
      | None \<Rightarrow>
          let jobs = bt_set (map job_of (plan_paths plan))
          in if list_all (\<lambda>job. list_ex (\<lambda>f. tf_kind f = TransferDirectory
                                   \<and> same_path (tf_source_relative f) job) (tp_files plan)) jobs
             then Inr jobs
             else Inl ''task transfer plan is missing its staging job directory proof'')"

definition queue_record_relative :: "string \<Rightarrow> string" where
  "queue_record_relative i = QUEUE_DIRECTORY @ ''/task-'' @ i @ ''.json''"

definition move_confined :: "transfer_plan \<Rightarrow> string \<times> string \<Rightarrow> bool" where
  "move_confined plan mv = (case mv of (source, target) \<Rightarrow>
     lc_absolute (parse_location source) \<and> lc_absolute (parse_location target)
     \<and> location_strip source (tp_source_root plan) \<noteq> None \<and> location_strip target (tp_target_root plan) \<noteq> None)"

definition transfer_plan_fingerprint :: "(transfer_plan \<Rightarrow> string) \<Rightarrow> transfer_plan \<Rightarrow> string" where
  \<comment> \<open>the digest of the plan without its fingerprints\<close>
  "transfer_plan_fingerprint digest plan =
     digest (plan\<lparr>tp_fingerprint := [], tp_transfer := (tp_transfer plan)\<lparr>tt_plan_fingerprint := None\<rparr>\<rparr>)"

definition validate_task_transfer_plan_shape ::
  "u32 \<Rightarrow> (transfer_plan \<Rightarrow> string) \<Rightarrow> transfer_plan \<Rightarrow> string + unit" where
  "validate_task_transfer_plan_shape euid digest plan =
     (case validate_task_transfer_migration_id (tt_migration_id (tp_transfer plan)) of Inl e \<Rightarrow> Inl e | Inr _ \<Rightarrow>
     (case validate_task_id (tt_task_id (tp_transfer plan)) of Inl e \<Rightarrow> Inl e | Inr _ \<Rightarrow>
      if \<not> same_path (tp_source_root plan) (td_root (tt_source (tp_transfer plan)))
         \<or> \<not> same_path (tp_target_root plan) (td_root (tt_target (tp_transfer plan)))
         \<or> same_path (tp_source_root plan) (tp_target_root plan)
      then Inl ''task transfer plan roots do not match the frozen transfer token''
      else if \<not> same_path (tp_queue_record_source plan) (queue_record_relative (tt_task_id (tp_transfer plan)))
              \<or> \<not> same_path (tp_queue_record_target plan) (queue_record_relative (tt_task_id (tp_transfer plan)))
      then Inl ''task transfer plan queue record path is not the exact task record''
      else if usat_add (length (tp_files plan)) (length (tp_controls plan)) > MAX_TASK_TRANSFER_ENTRIES
              \<or> tp_total_bytes plan > MAX_TASK_TRANSFER_BYTES
      then Inl ''task transfer plan exceeds its entry or byte limit''
      else (case validate_files euid (tp_files plan) [] 0 of Inl e \<Rightarrow> Inl e | Inr (paths, total_bytes) \<Rightarrow>
           (case validate_controls (tp_controls plan) paths of Inl e \<Rightarrow> Inl e | Inr _ \<Rightarrow>
            if total_bytes \<noteq> tp_total_bytes plan
            then Inl ''task transfer plan byte total does not match its file list''
            else (case transfer_staging_jobs plan of Inl e \<Rightarrow> Inl e | Inr _ \<Rightarrow>
              if \<not> list_all (move_confined plan) (tp_moves plan)
              then Inl ''published path rewrite escapes its task transfer roots''
              else if transfer_plan_fingerprint digest plan \<noteq> tp_fingerprint plan
              then Inl ''task transfer plan fingerprint does not match its contents''
              else Inr ())))))"


subsection \<open>What an accepted plan promises\<close>



lemma validate_transfer_relative_Inr [simp]: "validate_transfer_relative p = Inr u \<longleftrightarrow> relative_ok p"
  by (simp add: validate_transfer_relative_def)

definition file_ok :: "u32 \<Rightarrow> transfer_file \<Rightarrow> bool" where
  "file_ok euid f = (relative_ok (tf_source_relative f) \<and> same_path (tf_source_relative f) (tf_target_relative f)
     \<and> tf_owner f = euid \<and> tf_mode f AND 3072 = 0
     \<and> \<not> (parent_depth (tf_source_relative f) = Some 2 \<and> control_kind_for_path (tf_source_relative f) \<noteq> None)
     \<and> (case tf_kind f of TransferFile \<Rightarrow> tf_link_count f = Some 1 \<and> file_digests_complete f
        | TransferDirectory \<Rightarrow> tf_size_bytes f = 0))"

definition payload_bytes :: "transfer_file list \<Rightarrow> nat" where
  "payload_bytes fs = sum_list (map (\<lambda>f. unat (tf_size_bytes f)) fs)"

lemma check_file_ok:
  assumes "check_file euid f = Inr u"
  shows "relative_ok (tf_source_relative f)" "tf_owner f = euid" "tf_mode f AND 3072 = 0"
    and "tf_kind f = TransferFile \<Longrightarrow> tf_link_count f = Some 1"
  using assms
  by (auto simp: check_file_def validate_staging_directory_policy_def validate_staging_payload_file_policy_def Let_def
      split: sum.splits transfer_entry_kind.splits if_splits option.splits)

lemma validate_files_ok:
  assumes "validate_files euid fs paths t = Inr (paths', t')"
  shows "list_all (file_ok euid) fs \<and> distinct (map (\<lambda>f. parse_location (tf_source_relative f)) fs)
    \<and> (\<forall>f\<in>set fs. parse_location (tf_source_relative f) \<notin> set paths)
    \<and> set paths' = (\<lambda>f. parse_location (tf_source_relative f)) ` set fs \<union> set paths
    \<and> unat t' = unat t + payload_bytes fs"
  using assms
proof (induction euid fs paths t arbitrary: paths' t' rule: validate_files.induct)
  case (1 euid paths t)
  then show ?case by (simp add: payload_bytes_def)
next
  case (2 euid f fs paths t)
  let ?p = "parse_location (tf_source_relative f)"
  obtain u where c: "check_file euid f = Inr u"
    using "2.prems" by (cases "check_file euid f") auto
  have d: "same_path (tf_source_relative f) (tf_target_relative f)" "?p \<notin> set paths"
    "\<not> (parent_depth (tf_source_relative f) = Some 2 \<and> control_kind_for_path (tf_source_relative f) \<noteq> None)"
    using "2.prems" c by (auto split: if_splits)
  note c2 = check_file_ok[OF c]
  consider (payload) counted where "tf_kind f = TransferFile" "checked_add t (tf_size_bytes f) = Some counted"
      "file_digests_complete f" "validate_files euid fs (?p # paths) counted = Inr (paths', t')"
    | (folder) "tf_kind f = TransferDirectory" "tf_size_bytes f = 0"
      "validate_files euid fs (?p # paths) t = Inr (paths', t')"
    using "2.prems" c d by (cases "tf_kind f") (auto split: if_splits option.splits)
  then show ?case
  proof cases
    case payload
    note ih = "2.IH"(1)[OF c _ _ payload(1,2) _ payload(4)]
    have "file_ok euid f" using c2 d payload by (auto simp: file_ok_def)
    moreover note ih
    ultimately show ?thesis
      using d payload(3) checked_add_SomeD[OF payload(2)] by (auto simp: payload_bytes_def)
  next
    case folder
    have "file_ok euid f" using c2 d folder by (auto simp: file_ok_def)
    moreover note "2.IH"(2)[OF c _ _ _ _ folder(3)]
    ultimately show ?thesis
      using d folder "2.prems" c by (auto simp: payload_bytes_def split: if_splits)
  qed
qed

definition control_ok :: "transfer_control \<Rightarrow> bool" where
  "control_ok c = (relative_ok (tc_source_relative c) \<and> same_path (tc_source_relative c) (tc_target_relative c)
     \<and> parent_depth (tc_source_relative c) = Some 2
     \<and> control_kind_for_path (tc_source_relative c) = Some (tc_kind c))"

lemma validate_controls_step:
  assumes "validate_controls (c # cs) paths = Inr paths'"
  shows "control_ok c" "parse_location (tc_source_relative c) \<notin> set paths"
    and "validate_controls cs (parse_location (tc_source_relative c) # paths) = Inr paths'"
  using assms by (auto simp: control_ok_def split: sum.splits if_splits)

lemma validate_controls_ok:
  assumes "validate_controls cs paths = Inr paths'"
  shows "list_all control_ok cs \<and> distinct (map (\<lambda>c. parse_location (tc_source_relative c)) cs)
    \<and> (\<forall>c\<in>set cs. parse_location (tc_source_relative c) \<notin> set paths)"
  using assms
proof (induction cs arbitrary: paths)
  case (Cons c cs)
  note s = validate_controls_step[OF Cons.prems]
  with Cons.IH[OF s(3)] show ?case by auto
qed simp


lemma shape_parts:
  assumes "validate_task_transfer_plan_shape euid digest plan = Inr ()"
  obtains paths where "validate_files euid (tp_files plan) [] 0 = Inr (paths, tp_total_bytes plan)"
    and "list_all control_ok (tp_controls plan)"
    and "distinct (map (\<lambda>c. parse_location (tc_source_relative c)) (tp_controls plan))"
    and "\<forall>c\<in>set (tp_controls plan). parse_location (tc_source_relative c) \<notin> set paths"
    and "length (tp_files plan) + length (tp_controls plan) \<le> MAX_TASK_TRANSFER_ENTRIES"
    and "tp_total_bytes plan \<le> MAX_TASK_TRANSFER_BYTES"
    and "list_all (move_confined plan) (tp_moves plan)"
    and "transfer_plan_fingerprint digest plan = tp_fingerprint plan"
proof -
  obtain paths t where f: "validate_files euid (tp_files plan) [] 0 = Inr (paths, t)"
    using assms
    by (cases "validate_files euid (tp_files plan) [] 0")
      (auto simp: validate_task_transfer_plan_shape_def split: sum.splits if_splits)
  obtain paths' where c: "validate_controls (tp_controls plan) paths = Inr paths'"
    using assms f
    by (cases "validate_controls (tp_controls plan) paths")
      (auto simp: validate_task_transfer_plan_shape_def split: sum.splits if_splits)
  have l: "usat_add (length (tp_files plan)) (length (tp_controls plan)) \<le> MAX_TASK_TRANSFER_ENTRIES"
    "tp_total_bytes plan \<le> MAX_TASK_TRANSFER_BYTES" "t = tp_total_bytes plan"
    "list_all (move_confined plan) (tp_moves plan)" "transfer_plan_fingerprint digest plan = tp_fingerprint plan"
    using assms f c by (auto simp: validate_task_transfer_plan_shape_def split: sum.splits if_splits)
  have "length (tp_files plan) + length (tp_controls plan) \<le> MAX_TASK_TRANSFER_ENTRIES"
    using l(1) by (auto simp: usat_add_def usize_max_def MAX_TASK_TRANSFER_ENTRIES_def min_def split: if_splits)
  with that[of paths] f l validate_controls_ok[OF c] show thesis by simp
qed


lemma chunk_count_exact:
  "chunk_count byte_len * TASK_TRANSFER_CHUNK_BYTES \<ge> unat byte_len
   \<and> chunk_count byte_len * TASK_TRANSFER_CHUNK_BYTES < unat byte_len + TASK_TRANSFER_CHUNK_BYTES"
proof -
  define n where "n = unat byte_len + TASK_TRANSFER_CHUNK_BYTES - 1"
  have c: "chunk_count byte_len * TASK_TRANSFER_CHUNK_BYTES = n - n mod TASK_TRANSFER_CHUNK_BYTES"
    unfolding chunk_count_def n_def[symmetric] by (metis minus_mod_eq_div_mult)
  have "n mod TASK_TRANSFER_CHUNK_BYTES < TASK_TRANSFER_CHUNK_BYTES"
    by (simp add: TASK_TRANSFER_CHUNK_BYTES_def)
  moreover have "n mod TASK_TRANSFER_CHUNK_BYTES \<le> n" by (rule mod_less_eq_dividend)
  moreover have "0 < TASK_TRANSFER_CHUNK_BYTES" by (simp add: TASK_TRANSFER_CHUNK_BYTES_def)
  ultimately show ?thesis using c n_def by linarith
qed



text \<open>
  C30: The byte total of a plan that passes validation is the exact sum of its payload sizes, counted without
  wrap-around, and at most 2^50; it has at most 20000 entries; and every payload file has one link, belongs to
  the bot's user and carries exactly one digest for each 8 MiB of its content.
\<close>

theorem transfer_plan_bounds:
  assumes "validate_task_transfer_plan_shape euid digest plan = Inr ()"
  shows "unat (tp_total_bytes plan) = payload_bytes (tp_files plan) \<and> payload_bytes (tp_files plan) \<le> 2 ^ 50
    \<and> length (plan_paths plan) \<le> 20000
    \<and> (\<forall>f\<in>set (tp_files plan). tf_kind f = TransferFile \<longrightarrow> tf_owner f = euid \<and> tf_link_count f = Some 1
         \<and> unat (tf_size_bytes f) \<le> length (tf_chunk_sha256 f) * TASK_TRANSFER_CHUNK_BYTES
         \<and> length (tf_chunk_sha256 f) * TASK_TRANSFER_CHUNK_BYTES < unat (tf_size_bytes f) + TASK_TRANSFER_CHUNK_BYTES)"
proof -
  obtain paths where p: "validate_files euid (tp_files plan) [] 0 = Inr (paths, tp_total_bytes plan)"
    "length (tp_files plan) + length (tp_controls plan) \<le> MAX_TASK_TRANSFER_ENTRIES"
    "tp_total_bytes plan \<le> MAX_TASK_TRANSFER_BYTES"
    using assms by (rule shape_parts)
  note f = validate_files_ok[OF p(1)]
  have "unat (tp_total_bytes plan) \<le> unat MAX_TASK_TRANSFER_BYTES" using p(3) by (simp add: word_le_nat_alt)
  also have "unat MAX_TASK_TRANSFER_BYTES = 2 ^ 50" by (simp add: MAX_TASK_TRANSFER_BYTES_def)
  finally have "unat (tp_total_bytes plan) \<le> 2 ^ 50" .
  moreover have "\<forall>x\<in>set (tp_files plan). tf_kind x = TransferFile \<longrightarrow> tf_owner x = euid \<and> tf_link_count x = Some 1
      \<and> length (tf_chunk_sha256 x) = chunk_count (tf_size_bytes x)"
    using f by (auto simp: list_all_iff file_ok_def file_digests_complete_def)
  ultimately show ?thesis
    using f p(2) chunk_count_exact by (simp add: plan_paths_def MAX_TASK_TRANSFER_ENTRIES_def)
qed

subsection \<open>An accepted plan\<close>

definition example_destination :: "string \<Rightarrow> task_destination" where
  "example_destination root = \<lparr>td_library_id = root, td_root = root, td_category = None\<rparr>"

definition example_transfer :: task_transfer where
  "example_transfer = \<lparr>tt_transfer_id = ''x'', tt_migration_id = ''m'', tt_task_id = ''7'', tt_started_generation = 0,
     tt_generation = 1, tt_revision = 2, tt_source = example_destination ''/a'', tt_target = example_destination ''/b'',
     tt_previous_status = Running, tt_previous_error = None, tt_previous_cancel_requested = False,
     tt_pause_generation = Some 0, tt_plan_fingerprint = Some ''f''\<rparr>"

definition example_file :: "transfer_entry_kind \<Rightarrow> string \<Rightarrow> u64 \<Rightarrow> transfer_file" where
  "example_file kind p byte_len = \<lparr>tf_source_relative = p, tf_target_relative = p, tf_kind = kind, tf_device = 1,
     tf_inode = 2, tf_size_bytes = byte_len, tf_owner = 501, tf_group = 20, tf_mode = 448,
     tf_link_count = Some 1, tf_sha256 = (if kind = TransferFile then Some ''s'' else None),
     tf_chunk_sha256 = (if kind = TransferFile then [''c''] else [])\<rparr>"

definition example_plan :: transfer_plan where
  "example_plan = \<lparr>tp_transfer = example_transfer, tp_source_root = ''/a'', tp_target_root = ''/b'',
     tp_queue_record_source = queue_record_relative ''7'', tp_queue_record_target = queue_record_relative ''7'',
     tp_files = [example_file TransferDirectory ''.telegram-video-downloader-staging/job-1'' 0,
                 example_file TransferFile ''.telegram-video-downloader-staging/job-1/v'' 9],
     tp_controls = [\<lparr>tc_source_relative = ''.telegram-video-downloader-staging/job-1/.owner.json'',
       tc_target_relative = ''.telegram-video-downloader-staging/job-1/.owner.json'', tc_kind = Owner,
       tc_device = 1, tc_inode = 3, tc_size_bytes = 4, tc_owner = 501, tc_group = 20, tc_mode = 384,
       tc_link_count = Some 1, tc_sha256 = ''s''\<rparr>],
     tp_moves = [(''/a/v'', ''/b/v'')], tp_total_bytes = 9, tp_fingerprint = ''f''\<rparr>"

lemma example_paths:
  "parse_location ''.telegram-video-downloader-staging/job-1''
     = \<lparr>lc_absolute = False, lc_parts = [''.telegram-video-downloader-staging'', ''job-1'']\<rparr>"
  "parse_location ''.telegram-video-downloader-staging/job-1/v''
     = \<lparr>lc_absolute = False, lc_parts = [''.telegram-video-downloader-staging'', ''job-1'', ''v'']\<rparr>"
  "parse_location ''.telegram-video-downloader-staging/job-1/.owner.json''
     = \<lparr>lc_absolute = False, lc_parts = [''.telegram-video-downloader-staging'', ''job-1'', ''.owner.json'']\<rparr>"
  by code_simp+

lemma example_relative:
  "relative_ok ''.telegram-video-downloader-staging/job-1''"
  "relative_ok ''.telegram-video-downloader-staging/job-1/v''"
  "relative_ok ''.telegram-video-downloader-staging/job-1/.owner.json''"
  "control_kind_for_path ''.telegram-video-downloader-staging/job-1/.owner.json'' = Some Owner"
  "control_kind_for_path ''.telegram-video-downloader-staging/job-1/v'' = None"
  by code_simp+

lemma example_files_valid:
  "validate_files 501 (tp_files example_plan) [] 0
     = Inr ([\<lparr>lc_absolute = False, lc_parts = [''.telegram-video-downloader-staging'', ''job-1'', ''v'']\<rparr>,
             \<lparr>lc_absolute = False, lc_parts = [''.telegram-video-downloader-staging'', ''job-1'']\<rparr>], 9)"
  by (simp add: example_plan_def example_file_def check_file_def validate_transfer_relative_def example_relative
      validate_staging_directory_policy_def validate_staging_payload_file_policy_def example_paths same_path_def
      parent_depth_def checked_add_def file_digests_complete_def chunk_count_def TASK_TRANSFER_CHUNK_BYTES_def Let_def)

lemma example_jobs_valid: "\<exists>jobs. transfer_staging_jobs example_plan = Inr jobs"
  by (simp add: transfer_staging_jobs_def plan_paths_def example_plan_def example_file_def example_relative job_of_def
      example_paths Let_def bt_set_def same_path_def)

lemma example_plan_valid: "validate_task_transfer_plan_shape 501 (\<lambda>_. ''f'') example_plan = Inr ()"
proof -
  obtain jobs where j: "transfer_staging_jobs example_plan = Inr jobs" using example_jobs_valid by blast
  have "validate_task_transfer_migration_id ''m'' = Inr ()" "validate_task_id ''7'' = Inr ()" by code_simp+
  moreover have "\<not> same_path ''/a'' ''/b''" by code_simp
  moreover have "move_confined example_plan (''/a/v'', ''/b/v'')"
    unfolding move_confined_def example_plan_def by code_simp
  moreover have "validate_controls (tp_controls example_plan)
      [\<lparr>lc_absolute = False, lc_parts = [''.telegram-video-downloader-staging'', ''job-1'', ''v'']\<rparr>,
       \<lparr>lc_absolute = False, lc_parts = [''.telegram-video-downloader-staging'', ''job-1'']\<rparr>]
    = Inr [\<lparr>lc_absolute = False, lc_parts = [''.telegram-video-downloader-staging'', ''job-1'', ''.owner.json'']\<rparr>,
       \<lparr>lc_absolute = False, lc_parts = [''.telegram-video-downloader-staging'', ''job-1'', ''v'']\<rparr>,
       \<lparr>lc_absolute = False, lc_parts = [''.telegram-video-downloader-staging'', ''job-1'']\<rparr>]"
    by (simp add: example_plan_def validate_transfer_relative_def example_relative example_paths same_path_def
        parent_depth_def)
  moreover have "transfer_plan_fingerprint (\<lambda>_. ''f'') example_plan = ''f''"
    by (simp add: transfer_plan_fingerprint_def)
  moreover have "tt_migration_id (tp_transfer example_plan) = ''m''" "tt_task_id (tp_transfer example_plan) = ''7''"
    "tp_source_root example_plan = ''/a''" "tp_target_root example_plan = ''/b''"
    "td_root (tt_source (tp_transfer example_plan)) = ''/a''" "td_root (tt_target (tp_transfer example_plan)) = ''/b''"
    "tp_moves example_plan = [(''/a/v'', ''/b/v'')]" "tp_total_bytes example_plan = 9" "tp_fingerprint example_plan = ''f''"
    "tp_queue_record_source example_plan = queue_record_relative ''7''"
    "tp_queue_record_target example_plan = queue_record_relative ''7''"
    "length (tp_files example_plan) = 2" "length (tp_controls example_plan) = 1"
    by (simp_all add: example_plan_def example_transfer_def example_destination_def)
  moreover have "\<not> MAX_TASK_TRANSFER_BYTES < 9" by (simp add: MAX_TASK_TRANSFER_BYTES_def)
  moreover have "same_path p p" for p by (simp add: same_path_def)
  ultimately show ?thesis
    using example_files_valid j
    by (simp add: validate_task_transfer_plan_shape_def usat_add_def usize_max_def MAX_TASK_TRANSFER_ENTRIES_def)
qed


theorem transfer_plan_bounds_witness:
  "payload_bytes (tp_files example_plan) = 9 \<and> length (plan_paths example_plan) \<le> 20000"
  using transfer_plan_bounds[OF example_plan_valid] by (simp add: example_plan_def)

end
