(* ===== verification/Transfers.thy ===== *)
theory Transfers
  imports QueueManager TransferPlan
begin

section \<open>Handing a task over to another library (\<open>queue.rs\<close>)\<close>

text \<open>
  A media migration moves an unfinished task to another library in steps: \<open>begin\<close> reserves the task and pauses
  its run, a plan of its staging files is recorded, and after the files were copied \<open>commit\<close> installs the
  rewritten record in the target's queue and removes it from the source's. \<open>abort\<close> undoes a reservation; \<open>ack\<close>
  ends a committed one and leaves a receipt, which \<open>clear\<close> removes. At startup an interrupted commit is finished.
  Whether the files match the plan (\<open>verify_task_transfer_plan\<close>, after its shape) and what a scan of the staging
  area yields are parameters.
\<close>

subsection \<open>Reserving a task\<close>

record transfer_env =
  te_registry :: "(string \<times> string) list"                   \<comment> \<open>id and root of the registered libraries\<close>
  te_validate :: "task_destination \<Rightarrow> string + unit"          \<comment> \<open>\<open>validate_task_destination\<close>\<close>
  te_clock :: u64
  te_counter :: nat                                          \<comment> \<open>\<open>TEMP_FILE_COUNTER\<close>\<close>
  te_euid :: u32
  te_digest :: "transfer_plan \<Rightarrow> string"
  te_scan :: "task_record \<Rightarrow> task_transfer \<Rightarrow> moves \<Rightarrow> string + transfer_plan"   \<comment> \<open>\<open>build_task_transfer_plan\<close>\<close>
  te_files_match :: "transfer_plan \<Rightarrow> string + unit"
  te_alias :: path_alias

definition slot_root :: "task_queue \<Rightarrow> slot \<Rightarrow> string" where
  "slot_root q sl = (case sl of VideoSlot k \<Rightarrow> vl_root (tq_libraries q ! k) | PdfSlot \<Rightarrow> tq_pdf_root q)"

definition active_registration :: "task_queue \<Rightarrow> string \<Rightarrow> u64 \<Rightarrow> registration option" where
  \<comment> \<open>the registration a run of this generation holds\<close>
  "active_registration q i g = (case map_of (tq_cancellations q) i of
      None \<Rightarrow> None
    | Some rg \<Rightarrow> if rg_generation rg = Some g \<or> rg_generation rg = None then Some rg else None)"

definition transfer_source :: "transfer_env \<Rightarrow> string \<Rightarrow> task_record \<Rightarrow> string + task_destination" where
  \<comment> \<open>the destination of the record, or the library whose root holds it\<close>
  "transfer_source env source_root r = (case tr_destination r of
      Some d \<Rightarrow> Inr d
    | None \<Rightarrow> (case find (\<lambda>(_, root). root = source_root) (te_registry env) of
        None \<Rightarrow> Inl ''task source root is no longer registered''
      | Some (i, _) \<Rightarrow> Inr \<lparr>td_library_id = i, td_root = source_root, td_category = None\<rparr>))"

definition transfer_id :: "transfer_env \<Rightarrow> string \<Rightarrow> string" where
  "transfer_id env i =
     ''xfer-'' @ dec_digits (unat (te_clock env)) @ ''-'' @ dec_digits (te_counter env) @ ''-'' @ i"

definition reserve :: "string \<Rightarrow> string \<Rightarrow> task_destination \<Rightarrow> task_destination \<Rightarrow> bool \<Rightarrow> mutation" where
  \<comment> \<open>the part of \<open>begin_task_destination_transfer\<close> that changes the record\<close>
  "reserve xfer_id migration_id source target registered r =
     (let started_generation = tr_generation r;
          pausing = (tr_status r \<in> {Preparing, Running, Verifying} \<or> registered)
      in case (if pausing then checked_add started_generation 1 else Some started_generation) of
           None \<Rightarrow> Inl (generation_overflow r)
         | Some g \<Rightarrow>
             let paused = (if pausing
                   then r\<lparr>tr_generation := g, tr_status := TInterrupted, tr_cancel_requested := False,
                          tr_error := Some ''Paused for media library transfer.''\<rparr> else r);
                 transfer = \<lparr>tt_transfer_id = xfer_id, tt_migration_id = migration_id, tt_task_id = tr_id r,
                   tt_started_generation = started_generation, tt_generation = g,
                   tt_revision = saturating_add (tr_revision r) 1, tt_source = source, tt_target = target,
                   tt_previous_status = tr_status r, tt_previous_error = tr_error r,
                   tt_previous_cancel_requested = tr_cancel_requested r,
                   tt_pause_generation = (if pausing then Some started_generation else None),
                   tt_plan_fingerprint = None\<rparr>
             in Inr (paused\<lparr>tr_transfer := Some transfer, tr_transfer_phase := Some Copying,
                            tr_transfer_ack := None\<rparr>))"

definition begin_transfer ::
  "transfer_env \<Rightarrow> string \<Rightarrow> u64 \<Rightarrow> u64 \<Rightarrow> task_destination \<Rightarrow> task_queue \<Rightarrow> slot \<Rightarrow> task_record \<Rightarrow> decision" where
  "begin_transfer env migration_id expected_generation expected_revision target q sl r =
     (case validate_task_transfer_migration_id migration_id of
        Inl e \<Rightarrow> Abort e
      | Inr _ \<Rightarrow>
      if tr_transfer_ack r \<noteq> None
      then Abort (''task '' @ tr_id r @ '' is awaiting durable media migration handoff finalization'')
      else case tr_transfer r of
        Some existing \<Rightarrow>
          if tt_target existing = target \<and> tt_migration_id existing = migration_id then Keep r
          else Abort (''task '' @ tr_id r @ '' already has a transfer owned by another migration'')
      | None \<Rightarrow>
          if tr_generation r \<noteq> expected_generation \<or> tr_revision r \<noteq> expected_revision
          then Abort (''task '' @ tr_id r @ '' changed after the migration preview'')
          else if is_pdf_job (tr_job r) \<or> terminal (tr_status r)
          then Abort (''task '' @ tr_id r @ '' is not eligible for video library migration'')
          else case te_validate env target of
            Inl e \<Rightarrow> Abort e
          | Inr _ \<Rightarrow>
              if slot_for_root (td_root target) q = None
              then Abort ''target media library is currently unavailable''
              else if slot_root q sl = td_root target
              then Abort ''task migration requires distinct source and target library roots''
              else case transfer_source env (slot_root q sl) r of
                Inl e \<Rightarrow> Abort e
              | Inr source \<Rightarrow>
                  if td_root source \<noteq> slot_root q sl
                  then Abort ''task destination does not match the queue root that owns its record''
                  else save_result False (reserve (transfer_id env (tr_id r)) migration_id source target
                         (active_registration q (tr_id r) (tr_generation r) \<noteq> None) r))"

definition begin_task_destination_transfer ::
  "transfer_env \<Rightarrow> store_codec \<Rightarrow> u64 \<Rightarrow> string \<Rightarrow> string \<Rightarrow> u64 \<Rightarrow> u64 \<Rightarrow> task_destination
     \<Rightarrow> task_transfer queue_act" where
  "begin_task_destination_transfer env cd now task_id migration_id g revn target q =
     (case run_op_at cd now task_id (begin_transfer env migration_id g revn target) q of
        (Inl m, q') \<Rightarrow> (Inl m, q')
      | (Inr None, q') \<Rightarrow> (Inl (''task '' @ task_id @ '' was not found''), q')
      | (Inr (Some r), q') \<Rightarrow>
          (case tr_transfer r of
             None \<Rightarrow> (Inl ''saved task retains its destination transfer token'', q')
           | Some transfer \<Rightarrow> (Inr transfer, q')))"

definition transfer_settled :: "store_codec \<Rightarrow> task_transfer \<Rightarrow> bool queue_act" where
  \<comment> \<open>one round of the loop of \<open>wait_for_task_destination_transfer\<close>: whether the paused run has let go\<close>
  "transfer_settled cd transfer q = (case tt_pause_generation transfer of
      None \<Rightarrow> (Inr True, q)
    | Some pause_generation \<Rightarrow>
        (case find_record_entry cd (tt_task_id transfer) q of
           (Inl m, q') \<Rightarrow> (Inl m, q')
         | (Inr None, q') \<Rightarrow> (Inl (''task '' @ tt_task_id transfer @ '' disappeared while pausing for transfer''), q')
         | (Inr (Some (_, r, _)), q') \<Rightarrow>
             if map_option tt_transfer_id (tr_transfer r) \<noteq> Some (tt_transfer_id transfer)
             then (Inl (''task '' @ tt_task_id transfer @ '' transfer token changed while waiting''), q')
             else (Inr (active_registration q' (tt_task_id transfer) pause_generation = None), q')))"


subsection \<open>Recording the plan\<close>

definition bind_queue :: "'a queue_act \<Rightarrow> ('a \<Rightarrow> 'b queue_act) \<Rightarrow> 'b queue_act" where
  "bind_queue m f = (\<lambda>q. case m q of (Inl e, q') \<Rightarrow> (Inl e, q') | (Inr x, q') \<Rightarrow> f x q')"

definition ret_queue :: "'a \<Rightarrow> 'a queue_act" where
  "ret_queue x = (\<lambda>q. (Inr x, q))"

definition bail_queue :: "string \<Rightarrow> 'a queue_act" where
  "bail_queue e = (\<lambda>q. (Inl e, q))"

definition required_store :: "string \<Rightarrow> string \<Rightarrow> slot queue_act" where
  \<comment> \<open>\<open>self.store_for_root(root)?.ok_or_else(..)\<close>\<close>
  "required_store message root = (\<lambda>q. case slot_for_root root q of
      None \<Rightarrow> (Inl message, q) | Some sl \<Rightarrow> (Inr sl, q))"

definition slot_get :: "store_codec \<Rightarrow> string \<Rightarrow> slot \<Rightarrow> (task_record \<times> index_entry) option queue_act" where
  "slot_get cd i sl = on_slot sl (get_task cd i)"

definition plan_decision ::
  "transfer_env \<Rightarrow> task_transfer \<Rightarrow> moves \<Rightarrow> task_queue \<Rightarrow> task_record \<Rightarrow> string + (transfer_plan \<times> task_record option)" where
  \<comment> \<open>the plan, and the record to save when it carries no fingerprint yet\<close>
  "plan_decision env transfer moves q r = (case tr_transfer r of
      None \<Rightarrow> Inl (''task '' @ tt_task_id transfer @ '' has no pending transfer'')
    | Some current \<Rightarrow>
        if tt_transfer_id current \<noteq> tt_transfer_id transfer \<or> tt_migration_id current \<noteq> tt_migration_id transfer
           \<or> tt_target current \<noteq> tt_target transfer
        then Inl (''task '' @ tt_task_id transfer @ '' transfer token does not match'')
        else if (case tt_pause_generation current of None \<Rightarrow> False
                 | Some g \<Rightarrow> active_registration q (tt_task_id current) g \<noteq> None)
        then Inl (''task '' @ tt_task_id transfer @ '' still has an active writer registered'')
        else case te_scan env r current moves of
          Inl e \<Rightarrow> Inl e
        | Inr plan \<Rightarrow>
            (case tt_plan_fingerprint current of
               Some expected \<Rightarrow>
                 if expected \<noteq> tp_fingerprint plan
                 then Inl (''task '' @ tt_task_id transfer @ '' staging changed after its transfer plan was recorded'')
                 else Inr (plan, None)
             | None \<Rightarrow>
                 Inr (plan, Some (r\<lparr>tr_transfer :=
                   Some (current\<lparr>tt_plan_fingerprint := Some (tp_fingerprint plan)\<rparr>)\<rparr>))))"

definition task_transfer_plan ::
  "transfer_env \<Rightarrow> store_codec \<Rightarrow> u64 \<Rightarrow> task_transfer \<Rightarrow> moves \<Rightarrow> transfer_plan queue_act" where
  \<comment> \<open>\<open>task_transfer_plan_with_published_paths\<close>\<close>
  "task_transfer_plan env cd now transfer moves =
     bind_queue (required_store ''task transfer source library is unavailable'' (td_root (tt_source transfer))) (\<lambda>sl.
     bind_queue (slot_get cd (tt_task_id transfer) sl) (\<lambda>found. case found of
        None \<Rightarrow> bail_queue (''task '' @ tt_task_id transfer @ '' is no longer in its source queue'')
      | Some (r, e) \<Rightarrow> (\<lambda>q. case plan_decision env transfer moves q r of
            Inl m \<Rightarrow> (Inl m, q)
          | Inr (plan, None) \<Rightarrow> (Inr plan, q)
          | Inr (plan, Some r') \<Rightarrow>
              bind_queue (on_slot sl (save_mutated_record cd now r' e False)) (\<lambda>saved.
                case tr_transfer saved of
                  None \<Rightarrow> bail_queue ''task transfer token disappeared while saving its plan''
                | Some t \<Rightarrow> ret_queue (plan\<lparr>tp_transfer := t\<rparr>)) q)))"

subsection \<open>Committing\<close>

definition verify_task_transfer_plan :: "transfer_env \<Rightarrow> store_codec \<Rightarrow> transfer_plan \<Rightarrow> unit queue_act" where
  "verify_task_transfer_plan env cd plan = (\<lambda>q.
     case validate_task_transfer_plan_shape (te_euid env) (te_digest env) plan of
       Inl e \<Rightarrow> (Inl e, q)
     | Inr _ \<Rightarrow>
       bind_queue (required_store ''task transfer source library is unavailable'' (tp_source_root plan)) (\<lambda>source.
       bind_queue (required_store ''task transfer target library is unavailable'' (tp_target_root plan)) (\<lambda>target.
       bind_queue (slot_get cd (tt_task_id (tp_transfer plan)) source) (\<lambda>source_record.
       bind_queue (slot_get cd (tt_task_id (tp_transfer plan)) target) (\<lambda>target_record.
         let matching = (\<lambda>found. case found of None \<Rightarrow> False
               | Some (r, e) \<Rightarrow> tr_transfer r = Some (tp_transfer plan)
                   \<and> tt_plan_fingerprint (tp_transfer plan) = Some (tp_fingerprint plan))
         in if \<not> matching source_record \<and> \<not> matching target_record
            then bail_queue ''task transfer plan no longer matches either queue record''
            else (\<lambda>q. (te_files_match env plan, q)))))) q)"

definition installed_record :: "transfer_env \<Rightarrow> u64 \<Rightarrow> transfer_plan \<Rightarrow> task_record \<Rightarrow> string + task_record" where
  \<comment> \<open>the record the target's queue receives\<close>
  "installed_record env now plan r =
     (case rebase_task_paths (te_alias env) (tp_source_root plan) (tp_target_root plan) (tp_moves plan) r of
        Inl e \<Rightarrow> Inl e
      | Inr t \<Rightarrow> Inr (t\<lparr>tr_destination := Some (tt_target (tp_transfer plan)),
            tr_transfer_phase := Some TargetInstalled, tr_updated_at := now,
            tr_revision := saturating_add (tr_revision r) 1, tr_activity_revision := 0\<rparr>))"

definition hand_over ::
  "transfer_env \<Rightarrow> store_codec \<Rightarrow> u64 \<Rightarrow> transfer_plan \<Rightarrow> slot \<Rightarrow> slot \<Rightarrow> task_record \<Rightarrow> task_record queue_act" where
  \<comment> \<open>the end of \<open>commit_task_destination_transfer\<close>: first the target's queue, then the source's\<close>
  "hand_over env cd now plan source target r = (case installed_record env now plan r of
      Inl e \<Rightarrow> bail_queue e
    | Inr t \<Rightarrow>
        bind_queue (on_slot target (create_task cd t)) (\<lambda>_.
        bind_queue (on_slot source (remove_task_for_transfer cd (tp_transfer plan))) (\<lambda>_.
        bind_queue (slot_get cd (tt_task_id (tp_transfer plan)) target) (\<lambda>found. case found of
            None \<Rightarrow> bail_queue ''target queue record disappeared after task transfer''
          | Some (installed, _) \<Rightarrow> ret_queue installed))))"

definition commit_task_destination_transfer ::
  "transfer_env \<Rightarrow> store_codec \<Rightarrow> u64 \<Rightarrow> transfer_plan \<Rightarrow> task_record queue_act" where
  "commit_task_destination_transfer env cd now plan =
     bind_queue (verify_task_transfer_plan env cd plan) (\<lambda>_.
     bind_queue (required_store ''task transfer source library is unavailable'' (tp_source_root plan)) (\<lambda>source.
     bind_queue (required_store ''task transfer target library is unavailable'' (tp_target_root plan)) (\<lambda>target.
     bind_queue (verify_task_transfer_plan env cd plan) (\<lambda>_.
     bind_queue (slot_get cd (tt_task_id (tp_transfer plan)) target) (\<lambda>in_target. case in_target of
        Some (t, _) \<Rightarrow>
          if tr_transfer t = Some (tp_transfer plan) \<and> tr_transfer_phase t = Some TargetInstalled
          then bind_queue (slot_get cd (tt_task_id (tp_transfer plan)) source) (\<lambda>in_source.
                 if in_source \<noteq> None
                 then bind_queue (on_slot source (remove_task_for_transfer cd (tp_transfer plan))) (\<lambda>_. ret_queue t)
                 else ret_queue t)
          else bail_queue ''target queue already contains a different task with this ID''
      | None \<Rightarrow>
          bind_queue (slot_get cd (tt_task_id (tp_transfer plan)) source) (\<lambda>in_source. case in_source of
             None \<Rightarrow> bail_queue (''task '' @ tt_task_id (tp_transfer plan) @ '' is missing from its source queue'')
           | Some (r, _) \<Rightarrow>
               (case tr_transfer r of
                  None \<Rightarrow> bail_queue (''task '' @ tt_task_id (tp_transfer plan) @ '' has no pending transfer'')
                | Some current \<Rightarrow>
                    if tt_transfer_id current \<noteq> tt_transfer_id (tp_transfer plan)
                       \<or> tt_migration_id current \<noteq> tt_migration_id (tp_transfer plan)
                       \<or> tt_plan_fingerprint current \<noteq> Some (tp_fingerprint plan)
                    then bail_queue (''task '' @ tt_task_id (tp_transfer plan)
                           @ '' transfer plan does not match its source record'')
                    else hand_over env cd now plan source target r)))))))"

subsection \<open>Aborting, acknowledging and clearing\<close>

definition abort_transfer :: "task_transfer \<Rightarrow> task_record \<Rightarrow> decision" where
  "abort_transfer transfer r = (case tr_transfer r of
      None \<Rightarrow> Keep r
    | Some current \<Rightarrow>
        if tt_transfer_id current \<noteq> tt_transfer_id transfer \<or> tt_migration_id current \<noteq> tt_migration_id transfer
        then Abort ''task destination transfer is owned by another migration''
        else if tr_transfer_phase r = Some TargetInstalled \<or> tr_destination r = Some (tt_target transfer)
        then Abort ''an installed task transfer cannot be aborted''
        else Save (restore_after_task_transfer current r) True)"

definition abort_task_destination_transfer ::
  "store_codec \<Rightarrow> u64 \<Rightarrow> task_transfer \<Rightarrow> task_record option queue_act" where
  "abort_task_destination_transfer cd now transfer = run_op cd now (tt_task_id transfer) (abort_transfer transfer)"

definition ack_transfer :: "task_transfer \<Rightarrow> task_record \<Rightarrow> decision" where
  "ack_transfer transfer r = (case tr_transfer r of
      None \<Rightarrow>
        if tr_destination r = Some (tt_target transfer) \<and> tr_transfer_ack r = Some transfer then Keep r
        else Abort ''task has no exact matching destination transfer acknowledgment''
    | Some current \<Rightarrow>
        if current \<noteq> transfer then Abort ''task destination transfer is owned by another migration''
        else if tr_destination r \<noteq> Some (tt_target transfer)
        then Abort ''task destination transfer was not committed to its target queue''
        else Save ((restore_after_task_transfer current r)\<lparr>tr_transfer_ack := Some current\<rparr>) True)"

definition ack_store :: "store_codec \<Rightarrow> task_transfer \<Rightarrow> slot option queue_act" where
  \<comment> \<open>the target's store when it has the task, otherwise the source's\<close>
  "ack_store cd transfer q =
     (let source = slot_for_root (td_root (tt_source transfer)) q
      in case slot_for_root (td_root (tt_target transfer)) q of
           None \<Rightarrow> (Inr source, q)
         | Some sl \<Rightarrow> (case slot_get cd (tt_task_id transfer) sl q of
             (Inr (Some _), q') \<Rightarrow> (Inr (Some sl), q')
           | (_, q') \<Rightarrow> (Inr source, q')))"

definition ack_task_destination_transfer ::
  "store_codec \<Rightarrow> u64 \<Rightarrow> task_transfer \<Rightarrow> task_record option queue_act" where
  "ack_task_destination_transfer cd now transfer =
     bind_queue (ack_store cd transfer) (\<lambda>store. case store of
        None \<Rightarrow> ret_queue None
      | Some sl \<Rightarrow> bind_queue (slot_get cd (tt_task_id transfer) sl) (\<lambda>found. case found of
            None \<Rightarrow> ret_queue None
          | Some (r, e) \<Rightarrow> on_slot sl (commit cd now e (ack_transfer transfer r))))"

definition clear_ack :: "task_transfer \<Rightarrow> task_record \<Rightarrow> decision" where
  "clear_ack transfer r = (case tr_transfer_ack r of
      None \<Rightarrow> Keep r
    | Some current \<Rightarrow> if current = transfer then Save (r\<lparr>tr_transfer_ack := None\<rparr>) False
                      else Abort ''task has a different destination transfer acknowledgment'')"

definition clear_task_destination_transfer_ack :: "store_codec \<Rightarrow> u64 \<Rightarrow> task_transfer \<Rightarrow> unit queue_act" where
  "clear_task_destination_transfer_ack cd now transfer q =
     (case run_op cd now (tt_task_id transfer) (clear_ack transfer) q of
        (Inl m, q') \<Rightarrow> (Inl m, q')
      | (Inr None, q') \<Rightarrow> (Inl ''task disappeared before its handoff acknowledgment was consumed'', q')
      | (Inr (Some _), q') \<Rightarrow> (Inr (), q'))"

subsection \<open>Finishing an interrupted handoff at startup\<close>

fun reconcile_transfer_records :: "store_codec \<Rightarrow> slot \<Rightarrow> task_record list \<Rightarrow> unit queue_act" where
  "reconcile_transfer_records cd source [] q = (Inr (), q)"
| "reconcile_transfer_records cd source (r # rs) q =
     (case tr_transfer r of
        None \<Rightarrow> reconcile_transfer_records cd source rs q
      | Some transfer \<Rightarrow>
          if td_root (tt_source transfer) \<noteq> slot_root q source then reconcile_transfer_records cd source rs q
          else (case slot_for_root (td_root (tt_target transfer)) q of
            None \<Rightarrow> reconcile_transfer_records cd source rs q
          | Some target \<Rightarrow>
              (case slot_get cd (tt_task_id transfer) target q of
                 (Inl m, q') \<Rightarrow> (Inl m, q')
               | (Inr (Some (t, _)), q') \<Rightarrow>
                   if tr_destination t = Some (tt_target transfer) \<and> tr_transfer t = Some transfer
                      \<and> tr_transfer_phase t = Some TargetInstalled
                   then (case on_slot source (remove_task_for_transfer cd transfer) q' of
                           (Inl m, q'') \<Rightarrow> (Inl m, q'')
                         | (Inr _, q'') \<Rightarrow> reconcile_transfer_records cd source rs q'')
                   else (Inl (''target queue contains a conflicting record for task '' @ tt_task_id transfer
                           @ '' during transfer reconciliation''), q')
               | (Inr None, q') \<Rightarrow>
                   if tr_transfer_phase r = Some TargetInstalled
                   then (Inl (''task '' @ tt_task_id transfer
                           @ '' records a completed transfer handoff but its target record is missing''), q')
                   else reconcile_transfer_records cd source rs q')))"

fun reconcile_transfer_stores :: "store_codec \<Rightarrow> nat list \<Rightarrow> unit queue_act" where
  \<comment> \<open>over the libraries that were available at the start\<close>
  "reconcile_transfer_stores cd [] q = (Inr (), q)"
| "reconcile_transfer_stores cd (k # ks) q =
     (case on_slot (VideoSlot k) (list_records cd) q of
        (Inl m, q') \<Rightarrow>
          reconcile_transfer_stores cd ks
            (q'\<lparr>tq_libraries := (tq_libraries q')[k := note_video_store_read_error (tq_libraries q' ! k)]\<rparr>)
      | (Inr rs, q') \<Rightarrow>
          (case reconcile_transfer_records cd (VideoSlot k) rs q' of
             (Inl m, q'') \<Rightarrow> (Inl m, q'')
           | (Inr _, q'') \<Rightarrow> reconcile_transfer_stores cd ks q''))"

definition reconcile_task_destination_transfers :: "store_codec \<Rightarrow> unit queue_act" where
  "reconcile_task_destination_transfers cd q =
     reconcile_transfer_stores cd
       (filter (\<lambda>k. vl_available (tq_libraries q ! k)) [0..<length (tq_libraries q)]) q"

subsection \<open>Reservations and their resolution\<close>

lemma reserve_facts:
  assumes "reserve x m source target registered r = Inr r'" and t: "t = the (tr_transfer r')"
  shows "tr_transfer r' = Some t" "tt_previous_status t = tr_status r"
    "tt_previous_cancel_requested t = tr_cancel_requested r" "tt_previous_error t = tr_error r"
    "same_task r r'" "counts_ok r' = counts_ok r" "tr_attempt r' = tr_attempt r"
    "tt_pause_generation t = None \<longrightarrow> tr_status r' = tr_status r \<and> tr_cancel_requested r' = tr_cancel_requested r
       \<and> tr_error r' = tr_error r \<and> tr_generation r' = tr_generation r"
    "tt_pause_generation t \<noteq> None \<longrightarrow> tr_status r' = TInterrupted \<and> \<not> tr_cancel_requested r'
       \<and> unat (tr_generation r') = Suc (unat (tr_generation r))"
    "tt_pause_generation t \<noteq> None \<longleftrightarrow> tr_status r \<in> {Preparing, Running, Verifying} \<or> registered"
proof -
  consider (pause) g where "tr_status r \<in> {Preparing, Running, Verifying} \<or> registered"
      "checked_add (tr_generation r) 1 = Some g" "unat g = Suc (unat (tr_generation r))"
    | (free) "\<not> (tr_status r \<in> {Preparing, Running, Verifying} \<or> registered)"
    using assms(1) checked_add_SomeD[of "tr_generation r" 1]
    by (auto simp: reserve_def Let_def split: option.splits if_splits)
  then show "tr_transfer r' = Some t" "tt_previous_status t = tr_status r"
    "tt_previous_cancel_requested t = tr_cancel_requested r" "tt_previous_error t = tr_error r"
    "same_task r r'" "counts_ok r' = counts_ok r" "tr_attempt r' = tr_attempt r"
    "tt_pause_generation t = None \<longrightarrow> tr_status r' = tr_status r \<and> tr_cancel_requested r' = tr_cancel_requested r
       \<and> tr_error r' = tr_error r \<and> tr_generation r' = tr_generation r"
    "tt_pause_generation t \<noteq> None \<longrightarrow> tr_status r' = TInterrupted \<and> \<not> tr_cancel_requested r'
       \<and> unat (tr_generation r') = Suc (unat (tr_generation r))"
    "tt_pause_generation t \<noteq> None \<longleftrightarrow> tr_status r \<in> {Preparing, Running, Verifying} \<or> registered"
    using assms(1) t by (cases; auto simp: reserve_def Let_def same_task_def counts_ok_def)+
qed

lemma guard_Save [simp]: "(if c then Abort e else d) = Save r a \<longleftrightarrow> \<not> c \<and> d = Save r a"
  by simp

lemma try_Save: "(case x of Inl e \<Rightarrow> Abort e | Inr u \<Rightarrow> f u) = Save r a \<longleftrightarrow> (\<exists>u. x = Inr u \<and> f u = Save r a)"
  by (cases x) auto

lemma guard_Keep [simp]: "(if c then Abort e else d) = Keep r \<longleftrightarrow> \<not> c \<and> d = Keep r"
  by simp

lemma try_Keep: "(case x of Inl e \<Rightarrow> Abort e | Inr u \<Rightarrow> f u) = Keep r \<longleftrightarrow> (\<exists>u. x = Inr u \<and> f u = Keep r)"
  by (cases x) auto

lemma begin_transfer_Save:
  assumes "begin_transfer env m g rv target q sl r = Save r' a"
  obtains source where "reserve (transfer_id env (tr_id r)) m source target
      (active_registration q (tr_id r) (tr_generation r) \<noteq> None) r = Inr r'"
    and "tr_transfer r = None" "tr_transfer_ack r = None" "\<not> terminal (tr_status r)"
    and "tr_generation r = g" "tr_revision r = rv" "\<not> a"
proof (cases "tr_transfer r")
  case None
  with assms that show thesis
    unfolding begin_transfer_def try_Save guard_Save None option.case save_result_Save by blast
next
  case (Some t)
  then show thesis
    using assms unfolding begin_transfer_def try_Save guard_Save Some option.case by (cases "tt_target t = target \<and> tt_migration_id t = m") auto
qed

lemma begin_transfer_Keep: "begin_transfer env m g rv target q sl r = Keep r' \<Longrightarrow> r' = r"
proof (cases "tr_transfer r")
  assume b: "begin_transfer env m g rv target q sl r = Keep r'"
  { case None
    with b show ?thesis
      unfolding begin_transfer_def try_Keep guard_Keep None option.case by (simp add: save_result_Keep)
  next
    case (Some t)
    with b show ?thesis
      unfolding begin_transfer_def try_Keep guard_Keep Some option.case
      by (cases "tt_target t = target \<and> tt_migration_id t = m") auto }
qed

lemma begin_transfer_ok:
  assumes "record_ok r" "begin_transfer env m g rv target q sl r = Save r' a"
  shows "evolves r r' \<and> record_ok r'"
proof -
  obtain source where s: "reserve (transfer_id env (tr_id r)) m source target
      (active_registration q (tr_id r) (tr_generation r) \<noteq> None) r = Inr r'" and t: "\<not> terminal (tr_status r)"
    using assms(2) by (rule begin_transfer_Save)
  define x where "x = the (tr_transfer r')"
  note x = reserve_facts(1-3,5-9)[OF s x_def]
  have "tr_generation r \<le> tr_generation r'"
    using x(7,8) by (cases "tt_pause_generation x") (auto simp: word_le_nat_alt)
  with x(4) t have e: "evolves r r'" by (simp add: evolves_open)
  have nt: "\<not> terminal (tr_status r')" using x(7,8) t by (cases "tt_pause_generation x") (auto simp: terminal_def)
  have c: "tr_cancel_requested r' \<longrightarrow> tr_status r' = Running \<or> tr_status r' = AwaitingConfirmation"
    using x(7,8) assms(1) by (cases "tt_pause_generation x") (auto simp: record_ok_iff)
  have "record_ok r'"
    using assms(1) x(1-3,5,6) nt c t by (auto simp: record_ok_iff terminal_def)
  with e show ?thesis ..
qed

interpretation begin_transfer: generation_operation True "\<lambda>g. begin_transfer env m g rv target q sl" for env m rv target q sl
proof (rule generation_operationI)
  show "task_operation True (begin_transfer env m g rv target q sl)" for g
  proof (rule task_operationI)
    fix r r' a assume "begin_transfer env m g rv target q sl r = Save r' a"
    then show "\<not> transfer_or_ack_pending r" by (rule begin_transfer_Save) (simp add: transfer_or_ack_pending_def)
  qed (use begin_transfer_ok begin_transfer_Keep in blast)+
qed (erule begin_transfer_Save)

locale resolution_operation =
  fixes decide :: "task_record \<Rightarrow> decision"
  assumes reserved: "decide r = Save r' a \<Longrightarrow> transfer_or_ack_pending r"
    and evolving: "record_ok r \<Longrightarrow> decide r = Save r' a \<Longrightarrow> evolves r r'"
    and sound: "record_ok r \<Longrightarrow> decide r = Save r' a \<Longrightarrow> record_ok r'"
begin

lemma run_op_keeps:
  assumes "records_ok q" "run_op cd now i decide q = (res, q')"
  shows "records_ok q' \<and> queue_evolves q q'"
  by (rule run_op_at_keeps[OF assms(1) assms(2)[unfolded run_op_def]]) (use evolving sound in blast)

lemma run_op_free:
  assumes "\<And>r. r \<in> queue_records q \<Longrightarrow> tr_id r = i \<Longrightarrow> \<not> transfer_or_ack_pending r"
    and "run_op cd now i decide q = (res, q')"
  shows "queue_records q' \<subseteq> queue_records q"
  using run_op_records[OF assms(2)] assms(1) reserved by blast

end

lemma restored_ok:
  assumes "record_ok r" "tr_transfer r = Some t"
  shows "evolves r (restore_after_task_transfer t r)" "record_ok (restore_after_task_transfer t r)"
proof -
  have nt: "\<not> terminal (tr_status r)" "\<not> terminal (tt_previous_status t)"
    "tt_previous_cancel_requested t \<longrightarrow> tt_previous_status t = Running \<or> tt_previous_status t = AwaitingConfirmation"
    using assms by (auto simp: record_ok_iff)
  then show "evolves r (restore_after_task_transfer t r)"
    by (auto simp: restore_after_task_transfer_def Let_def same_task_def intro!: evolves_open)
  show "record_ok (restore_after_task_transfer t r)"
    using assms(1) nt by (auto simp: restore_after_task_transfer_def Let_def record_ok_iff terminal_def)
qed

interpretation abort_transfer: resolution_operation "abort_transfer transfer" for transfer
  by unfold_locales
    (auto simp: abort_transfer_def transfer_or_ack_pending_def restored_ok split: option.splits if_splits)

lemma ack_ok [simp]: "record_ok (r\<lparr>tr_transfer_ack := x\<rparr>) = record_ok r"
  by (rule record_ok_frame) simp_all

lemma ack_evolves [simp]: "evolves r0 (r\<lparr>tr_transfer_ack := x\<rparr>) = evolves r0 r"
  by (simp add: evolves_def same_task_def)

interpretation ack_transfer: resolution_operation "ack_transfer transfer" for transfer
  by unfold_locales
    (auto simp: ack_transfer_def transfer_or_ack_pending_def restored_ok split: option.splits if_splits)

interpretation clear_ack: resolution_operation "clear_ack transfer" for transfer
  by unfold_locales
    (auto simp: clear_ack_def transfer_or_ack_pending_def split: option.splits if_splits)

subsection \<open>Steps that keep the records of the queue in order\<close>

definition safe_step :: "task_queue \<Rightarrow> task_queue \<Rightarrow> bool" where
  "safe_step q q' = (length (tq_libraries q') = length (tq_libraries q)
     \<and> (records_ok q \<longrightarrow> records_ok q' \<and> queue_evolves q q'))"

definition safe_act :: "'a queue_act \<Rightarrow> task_queue \<Rightarrow> bool" where
  "safe_act m q = safe_step q (snd (m q))"

definition slot_ok :: "task_queue \<Rightarrow> slot \<Rightarrow> bool" where
  "slot_ok q sl = (case sl of VideoSlot k \<Rightarrow> k < length (tq_libraries q) | PdfSlot \<Rightarrow> True)"

lemma safe_step_refl [simp]: "safe_step q q"
  by (simp add: safe_step_def queue_evolves_subset)

lemma safe_step_trans: "safe_step a b \<Longrightarrow> safe_step b c \<Longrightarrow> safe_step a c"
  unfolding safe_step_def using queue_evolves_trans by metis

lemma safe_step_subset:
  "length (tq_libraries q') = length (tq_libraries q) \<Longrightarrow> queue_records q' \<subseteq> queue_records q \<Longrightarrow> safe_step q q'"
  by (auto simp: safe_step_def records_ok_def queue_evolves_subset)

lemma safe_step_slot: "safe_step q q' \<Longrightarrow> slot_ok q' sl = slot_ok q sl"
  by (simp add: safe_step_def slot_ok_def split: slot.split)

lemma safe_actD: "safe_act m q \<Longrightarrow> m q = (res, q') \<Longrightarrow> safe_step q q'"
  by (simp add: safe_act_def)

lemma safe_bind:
  assumes "safe_act m q" "\<And>x q1. m q = (Inr x, q1) \<Longrightarrow> safe_step q q1 \<Longrightarrow> safe_act (f x) q1"
  shows "safe_act (bind_queue m f) q"
proof -
  obtain r q1 where m: "m q = (r, q1)" by (cases "m q")
  have s: "safe_step q q1" using assms(1) m by (rule safe_actD)
  show ?thesis
  proof (cases r)
    case (Inl e)
    with m s show ?thesis by (simp add: safe_act_def bind_queue_def)
  next
    case (Inr x)
    have "safe_act (f x) q1" using assms(2) m s Inr by blast
    then show ?thesis using safe_step_trans[OF s] m Inr by (simp add: safe_act_def bind_queue_def)
  qed
qed

lemma safe_basic [simp]: "safe_act (ret_queue x) q" "safe_act (bail_queue e) q" "safe_act (\<lambda>q. (r, q)) q"
  by (simp_all add: safe_act_def ret_queue_def bail_queue_def)

lemma safe_required [simp]: "safe_act (required_store e root) q"
  by (simp add: safe_act_def required_store_def split: option.split)

lemma slot_for_root_ok: "slot_for_root root q = Some sl \<Longrightarrow> slot_ok q sl \<and> slot_root q sl = root
    \<and> (\<exists>k. sl = VideoSlot k \<and> vl_available (tq_libraries q ! k))"
  by (auto simp: slot_for_root_def slot_ok_def slot_root_def find_Some_iff)

lemma required_store_ok: "required_store e root q = (Inr sl, q1) \<Longrightarrow> q1 = q \<and> slot_for_root root q = Some sl"
  by (auto simp: required_store_def split: option.splits)

lemma on_slot_length: "on_slot sl m q = (res, q') \<Longrightarrow> length (tq_libraries q') = length (tq_libraries q)"
  by (auto simp: on_slot_def split: slot.splits prod.splits)

lemma on_slot_stored:
  assumes "on_slot sl m q = (res, q')" "slot_ok q sl"
  obtains s s' where "m s = (res, s')" "stored s \<subseteq> queue_records q"
    "queue_records q' \<subseteq> stored s' \<union> queue_records q" "stored s' \<subseteq> queue_records q'"
proof (cases sl)
  case PdfSlot
  obtain s' where m: "m (tq_pdf q) = (res, s')" "q' = q\<lparr>tq_pdf := s'\<rparr>"
    using assms(1) PdfSlot by (cases "m (tq_pdf q)") (auto simp: on_slot_def)
  show thesis by (rule that[OF m(1)]) (auto simp: queue_records_split m(2))
next
  case (VideoSlot k)
  define l where "l = tq_libraries q ! k"
  have k: "k < length (tq_libraries q)" using assms(2) VideoSlot by (simp add: slot_ok_def)
  then have l: "l \<in> set (tq_libraries q)" by (simp add: l_def)
  obtain s' where m: "m (vl_store l) = (res, s')" "q' = q\<lparr>tq_libraries := (tq_libraries q)[k := l\<lparr>vl_store := s'\<rparr>]\<rparr>"
    using assms(1) VideoSlot by (cases "m (vl_store l)") (auto simp: on_slot_def l_def)
  have "l\<lparr>vl_store := s'\<rparr> \<in> set ((tq_libraries q)[k := l\<lparr>vl_store := s'\<rparr>])"
    using k by (simp add: set_update_memI)
  then have "stored s' \<subseteq> library_records ((tq_libraries q)[k := l\<lparr>vl_store := s'\<rparr>])"
    unfolding library_records_def by force
  moreover have "stored (vl_store l) \<subseteq> library_records (tq_libraries q)"
    using l unfolding library_records_def by blast
  ultimately show thesis
    using that[OF m(1)] library_records_update[OF k, of "l\<lparr>vl_store := s'\<rparr>"] unfolding m(2) queue_records_split by auto
qed

lemma safe_on_slot:
  assumes "slot_ok q sl"
    and "\<And>s s' res. m s = (res, s') \<Longrightarrow> stored s \<subseteq> queue_records q \<Longrightarrow>
           \<forall>x\<in>stored s'. x \<in> stored s \<or> (\<exists>r\<in>queue_records q. record_ok r \<longrightarrow> evolves r x \<and> record_ok x)"
  shows "safe_act (on_slot sl m) q"
proof -
  obtain res q' where o: "on_slot sl m q = (res, q')" by (cases "on_slot sl m q")
  obtain s s' where m: "m s = (res, s')" "stored s \<subseteq> queue_records q" "queue_records q' \<subseteq> stored s' \<union> queue_records q"
    using o assms(1) by (rule on_slot_stored)
  have "records_ok q' \<and> queue_evolves q q'" if ok: "records_ok q"
  proof -
    have "record_ok x \<and> (\<exists>r\<in>queue_records q. evolves r x)" if "x \<in> queue_records q'" for x
    proof (cases "x \<in> queue_records q")
      case True
      with ok show ?thesis by (auto simp: records_ok_def intro!: bexI[of _ x])
    next
      case False
      with that m assms(2)[OF m(1,2)] obtain r where "r \<in> queue_records q" "record_ok r \<longrightarrow> evolves r x \<and> record_ok x"
        by blast
      with ok show ?thesis by (auto simp: records_ok_def)
    qed
    then show ?thesis by (auto simp: records_ok_def queue_evolves_def)
  qed
  with on_slot_length[OF o] o show ?thesis by (simp add: safe_act_def safe_step_def)
qed

lemma safe_on_slot_keeps: "slot_ok q sl \<Longrightarrow> keeps_stored m \<Longrightarrow> safe_act (on_slot sl m) q"
  by (rule safe_on_slot) (auto dest: keeps_storedD)

lemma keeps_stored_get_task: "keeps_stored (get_task cd i)"
  unfolding keeps_stored_def using get_task_stored(1) by (metis prod.collapse)

lemma safe_slot_get: "slot_ok q sl \<Longrightarrow> safe_act (slot_get cd i sl) q"
  unfolding slot_get_def by (rule safe_on_slot_keeps[OF _ keeps_stored_get_task])

lemma slot_get_found:
  assumes "slot_get cd i sl q = (Inr (Some (r, e)), q')" "slot_ok q sl"
  shows "r \<in> queue_records q' \<and> tr_id r = i"
proof -
  obtain s s' where g: "get_task cd i s = (Inr (Some (r, e)), s')" "stored s' \<subseteq> queue_records q'"
    using assms unfolding slot_get_def by (rule on_slot_stored)
  from get_task_stored(2)[OF g(1), of r e] have "r \<in> stored s'" "tr_id r = i" by (auto dest: stored_read)
  with g(2) show ?thesis by blast
qed

lemma restamped_safe: "restamped r' x \<Longrightarrow> evolves r r' \<Longrightarrow> record_ok r' \<Longrightarrow> evolves r x \<and> record_ok x"
  by (simp add: restamped_ok restamped_evolves)

lemma safe_commit:
  assumes "slot_ok q sl" "r \<in> queue_records q"
    and "\<And>r' a. d = Save r' a \<Longrightarrow> record_ok r \<Longrightarrow> evolves r r' \<and> record_ok r'"
  shows "safe_act (on_slot sl (commit cd now e d)) q"
proof (rule safe_on_slot[OF assms(1)])
  fix s s' res assume c: "commit cd now e d s = (res, s')"
  show "\<forall>x\<in>stored s'. x \<in> stored s \<or> (\<exists>r\<in>queue_records q. record_ok r \<longrightarrow> evolves r x \<and> record_ok x)"
  proof
    fix x assume "x \<in> stored s'"
    then consider "x \<in> stored s" | r' a where "d = Save r' a" "restamped r' x" using commit_stored[OF c] by blast
    then show "x \<in> stored s \<or> (\<exists>r\<in>queue_records q. record_ok r \<longrightarrow> evolves r x \<and> record_ok x)"
    proof cases
      case 2
      then have "record_ok r \<longrightarrow> evolves r x \<and> record_ok x" using assms(3) restamped_safe by blast
      with assms(2) show ?thesis by blast
    qed blast
  qed
qed

lemma safe_save:
  assumes "slot_ok q sl" "r \<in> queue_records q" "record_ok r \<Longrightarrow> evolves r r' \<and> record_ok r'"
  shows "safe_act (on_slot sl (save_mutated_record cd now r' e a)) q"
proof (rule safe_on_slot[OF assms(1)])
  fix s s' res assume c: "save_mutated_record cd now r' e a s = (res, s')"
  show "\<forall>x\<in>stored s'. x \<in> stored s \<or> (\<exists>r\<in>queue_records q. record_ok r \<longrightarrow> evolves r x \<and> record_ok x)"
    using save_mutated_record_stored[OF c] assms(2,3) restamped_safe[OF restamped_stamped, of r r'] by blast
qed

lemma activity_safe: "evolves r t \<Longrightarrow> record_ok t \<Longrightarrow>
    evolves r (t\<lparr>tr_activity_revision := n\<rparr>) \<and> record_ok (t\<lparr>tr_activity_revision := n\<rparr>)"
  by (auto simp: evolves_def same_task_def counts_ok_def elim!: record_ok_framed[rotated 6])

lemma safe_create:
  assumes "slot_ok q sl" "r \<in> queue_records q" "record_ok r \<Longrightarrow> evolves r t \<and> record_ok t"
  shows "safe_act (on_slot sl (create_task cd t)) q"
proof (rule safe_on_slot[OF assms(1)])
  fix s s' res assume c: "create_task cd t s = (res, s')"
  show "\<forall>x\<in>stored s'. x \<in> stored s \<or> (\<exists>r\<in>queue_records q. record_ok r \<longrightarrow> evolves r x \<and> record_ok x)"
  proof
    fix x assume "x \<in> stored s'"
    then consider "x \<in> stored s" | n where "x = t\<lparr>tr_activity_revision := n\<rparr>" using create_task_stored[OF c] by blast
    then show "x \<in> stored s \<or> (\<exists>r\<in>queue_records q. record_ok r \<longrightarrow> evolves r x \<and> record_ok x)"
    proof cases
      case (2 n)
      then have "record_ok r \<longrightarrow> evolves r x \<and> record_ok x" using assms(3) activity_safe by blast
      with assms(2) show ?thesis by blast
    qed blast
  qed
qed

subsection \<open>The protocol keeps the records in order\<close>

lemma rebase_entry_wf: "entry_wf e \<Longrightarrow> entry_wf (rebase_entry a A B mv e)"
  by (auto simp: entry_wf_def rebase_entry_def rebase_hashes_def bt_collect_def)

lemma rebase_entry_state [simp]: "ae_state (rebase_entry a A B mv e) = ae_state e"
  by (simp add: rebase_entry_def)

lemma rebased_ok:
  assumes "record_ok r" "\<not> terminal (tr_status r)"
  shows "evolves r (rebased a A B mv r)" "record_ok (rebased a A B mv r)"
proof -
  show "evolves r (rebased a A B mv r)" by (simp add: evolves_def same_task_def)
  have cnt: "counts_ok (rebased a A B mv r)" using assms(1) by (simp add: record_ok_def counts_ok_def)
  have wf: "attempt_wf s'" if s': "tr_attempt (rebased a A B mv r) = Some s'" for s'
  proof -
    obtain s where s: "tr_attempt r = Some s"
      "s' = s\<lparr>sn_entries := map (rebase_entry a A B mv) (sn_entries s)\<rparr>"
      using s' by (auto simp: rebased_def)
    have "attempt_wf s" using assms(1) s(1) by (simp add: record_ok_def attempt_ok_def)
    then show ?thesis using rebase_entry_wf by (auto simp: s(2) attempt_wf_def list_all_iff)
  qed
  have "tr_cancel_requested r \<longrightarrow> tr_status r = Running \<or> tr_status r = AwaitingConfirmation"
    using assms(1) by (simp add: record_ok_def cancel_ok_def)
  then show "record_ok (rebased a A B mv r)"
    by (intro record_ok_restatus[OF assms(1) cnt]) (use assms(2) wf in auto)
qed

lemma installed_record_ok:
  assumes "installed_record env now plan r = Inr t" "record_ok r" "tr_transfer r \<noteq> None"
  shows "evolves r t" "record_ok t" "tr_id t = tr_id r" "tr_transfer t = tr_transfer r"
proof -
  have nt: "\<not> terminal (tr_status r)" using assms(2,3) by (auto simp: record_ok_iff)
  define x where "x = rebased (te_alias env) (tp_source_root plan) (tp_target_root plan) (tp_moves plan) r"
  have t: "t = x\<lparr>tr_destination := Some (tt_target (tp_transfer plan)),
            tr_transfer_phase := Some TargetInstalled, tr_updated_at := now,
            tr_revision := saturating_add (tr_revision r) 1, tr_activity_revision := 0\<rparr>"
    using assms(1) rebase_task_paths_Inr by (auto simp: installed_record_def x_def split: sum.splits)
  have x: "evolves r x" "record_ok x" unfolding x_def by (rule rebased_ok[OF assms(2) nt])+
  from x(1) show "evolves r t" by (simp add: t evolves_def same_task_def)
  from x(2) show "record_ok t" by (rule record_ok_framed[rotated 6]) (simp_all add: t counts_ok_def)
  show "tr_id t = tr_id r" "tr_transfer t = tr_transfer r" by (simp_all add: t x_def)
qed

lemma safe_hand_over:
  assumes "slot_ok q source" "slot_ok q target" "r \<in> queue_records q" "tr_transfer r \<noteq> None"
  shows "safe_act (hand_over env cd now plan source target r) q"
proof (cases "installed_record env now plan r")
  case (Inl e)
  then show ?thesis by (simp add: hand_over_def)
next
  case (Inr t)
  have c: "safe_act (on_slot target (create_task cd t)) q"
    by (rule safe_create[OF assms(2,3)]) (use installed_record_ok(1,2)[OF Inr _ assms(4)] in blast)
  have rest: "safe_act (bind_queue (on_slot source (remove_task_for_transfer cd (tp_transfer plan)))
      (\<lambda>_. bind_queue (slot_get cd (tt_task_id (tp_transfer plan)) target) (\<lambda>found. case found of
            None \<Rightarrow> bail_queue ''target queue record disappeared after task transfer''
          | Some (installed, _) \<Rightarrow> ret_queue installed))) q1"
    if "safe_step q q1" for q1
  proof (rule safe_bind)
    show "safe_act (on_slot source (remove_task_for_transfer cd (tp_transfer plan))) q1"
      using assms(1) safe_step_slot[OF that] by (simp add: safe_on_slot_keeps keeps_stored_remove_task)
  next
    fix x q2 assume "safe_step q1 q2"
    then have "slot_ok q2 target" using assms(2) that by (simp add: safe_step_slot)
    then show "safe_act (bind_queue (slot_get cd (tt_task_id (tp_transfer plan)) target) (\<lambda>found. case found of
            None \<Rightarrow> bail_queue ''target queue record disappeared after task transfer''
          | Some (installed, _) \<Rightarrow> ret_queue installed)) q2"
      by (intro safe_bind safe_slot_get) (auto split: option.split)
  qed
  show ?thesis unfolding hand_over_def Inr sum.case by (rule safe_bind, rule c, rule rest)
qed


lemma safe_bind_required:
  assumes "\<And>sl. slot_for_root root q = Some sl \<Longrightarrow> slot_ok q sl \<Longrightarrow> safe_act (f sl) q"
  shows "safe_act (bind_queue (required_store e root) f) q"
  by (rule safe_bind[OF safe_required]) (use assms slot_for_root_ok in \<open>auto dest!: required_store_ok\<close>)

lemma safe_bind_get:
  assumes "slot_ok q sl" "\<And>q1. safe_step q q1 \<Longrightarrow> safe_act (f None) q1"
    and "\<And>r e q1. safe_step q q1 \<Longrightarrow> r \<in> queue_records q1 \<Longrightarrow> tr_id r = i \<Longrightarrow> safe_act (f (Some (r, e))) q1"
  shows "safe_act (bind_queue (slot_get cd i sl) f) q"
proof (rule safe_bind[OF safe_slot_get[OF assms(1)]])
  fix x q1 assume g: "slot_get cd i sl q = (Inr x, q1)" and s: "safe_step q q1"
  show "safe_act (f x) q1"
  proof (cases x)
    case None
    with assms(2) s show ?thesis by simp
  next
    case (Some re)
    then obtain r e where x: "x = Some (r, e)" by (cases re) auto
    show ?thesis unfolding x using assms(3)[OF s] slot_get_found[OF g[unfolded x] assms(1)] by blast
  qed
qed

lemma safe_verify: "safe_act (verify_task_transfer_plan env cd plan) q"
proof (cases "validate_task_transfer_plan_shape (te_euid env) (te_digest env) plan")
  case (Inl e)
  then show ?thesis by (simp add: verify_task_transfer_plan_def safe_act_def)
next
  case (Inr u)
  define check where "check = (\<lambda>source_record target_record. let matching = (\<lambda>found. case found of None \<Rightarrow> False
               | Some (r :: task_record, e :: index_entry) \<Rightarrow> tr_transfer r = Some (tp_transfer plan)
                   \<and> tt_plan_fingerprint (tp_transfer plan) = Some (tp_fingerprint plan))
         in if \<not> matching source_record \<and> \<not> matching target_record
            then bail_queue ''task transfer plan no longer matches either queue record''
            else (\<lambda>q. (te_files_match env plan, q)))"
  have check: "safe_act (check a b) x" for a b x by (simp add: check_def Let_def)
  have "safe_act (bind_queue (required_store ''task transfer source library is unavailable'' (tp_source_root plan)) (\<lambda>source.
       bind_queue (required_store ''task transfer target library is unavailable'' (tp_target_root plan)) (\<lambda>target.
       bind_queue (slot_get cd (tt_task_id (tp_transfer plan)) source) (\<lambda>source_record.
       bind_queue (slot_get cd (tt_task_id (tp_transfer plan)) target) (check source_record))))) q"
    by (intro safe_bind_required safe_bind_get check) (simp_all add: safe_step_slot)
  with Inr show ?thesis by (simp add: verify_task_transfer_plan_def safe_act_def check_def)
qed

lemma commit_safe: "safe_act (commit_task_destination_transfer env cd now plan) q"
proof -
  have inner: "safe_act (bind_queue (verify_task_transfer_plan env cd plan) (\<lambda>_.
     bind_queue (slot_get cd (tt_task_id (tp_transfer plan)) target) (\<lambda>in_target. case in_target of
        Some (t, _) \<Rightarrow>
          if tr_transfer t = Some (tp_transfer plan) \<and> tr_transfer_phase t = Some TargetInstalled
          then bind_queue (slot_get cd (tt_task_id (tp_transfer plan)) source) (\<lambda>in_source.
                 if in_source \<noteq> None
                 then bind_queue (on_slot source (remove_task_for_transfer cd (tp_transfer plan))) (\<lambda>_. ret_queue t)
                 else ret_queue t)
          else bail_queue ''target queue already contains a different task with this ID''
      | None \<Rightarrow>
          bind_queue (slot_get cd (tt_task_id (tp_transfer plan)) source) (\<lambda>in_source. case in_source of
             None \<Rightarrow> bail_queue (''task '' @ tt_task_id (tp_transfer plan) @ '' is missing from its source queue'')
           | Some (r, _) \<Rightarrow>
               (case tr_transfer r of
                  None \<Rightarrow> bail_queue (''task '' @ tt_task_id (tp_transfer plan) @ '' has no pending transfer'')
                | Some current \<Rightarrow>
                    if tt_transfer_id current \<noteq> tt_transfer_id (tp_transfer plan)
                       \<or> tt_migration_id current \<noteq> tt_migration_id (tp_transfer plan)
                       \<or> tt_plan_fingerprint current \<noteq> Some (tp_fingerprint plan)
                    then bail_queue (''task '' @ tt_task_id (tp_transfer plan)
                           @ '' transfer plan does not match its source record'')
                    else hand_over env cd now plan source target r))))) q1"
    if ok: "slot_ok q1 source" "slot_ok q1 target" for q1 source target
  proof -
  define done_before where "done_before = (\<lambda>t. bind_queue (slot_get cd (tt_task_id (tp_transfer plan)) source) (\<lambda>in_source.
                 if in_source \<noteq> None
                 then bind_queue (on_slot source (remove_task_for_transfer cd (tp_transfer plan))) (\<lambda>_. ret_queue (t :: task_record))
                 else ret_queue t))"
  define hand where "hand = bind_queue (slot_get cd (tt_task_id (tp_transfer plan)) source) (\<lambda>in_source. case in_source of
             None \<Rightarrow> bail_queue (''task '' @ tt_task_id (tp_transfer plan) @ '' is missing from its source queue'')
           | Some (r, _) \<Rightarrow>
               (case tr_transfer r of
                  None \<Rightarrow> bail_queue (''task '' @ tt_task_id (tp_transfer plan) @ '' has no pending transfer'')
                | Some current \<Rightarrow>
                    if tt_transfer_id current \<noteq> tt_transfer_id (tp_transfer plan)
                       \<or> tt_migration_id current \<noteq> tt_migration_id (tp_transfer plan)
                       \<or> tt_plan_fingerprint current \<noteq> Some (tp_fingerprint plan)
                    then bail_queue (''task '' @ tt_task_id (tp_transfer plan)
                           @ '' transfer plan does not match its source record'')
                    else hand_over env cd now plan source target r))"
  have remove: "slot_ok x source \<Longrightarrow> safe_act (on_slot source (remove_task_for_transfer cd (tp_transfer plan))) x" for x
    by (rule safe_on_slot_keeps[OF _ keeps_stored_remove_task])
  have d: "safe_act (done_before t) x" if "slot_ok x source" for x t
    unfolding done_before_def
    by (rule safe_bind_get[OF that]) (use that remove in \<open>auto simp: safe_step_slot intro!: safe_bind\<close>)
  have h: "safe_act hand x" if "slot_ok x source" "slot_ok x target" for x
    unfolding hand_def
  proof (rule safe_bind_get[OF that(1)])
    fix r e x1 assume "safe_step x x1" "r \<in> queue_records x1"
    with that have "safe_act (hand_over env cd now plan source target r) x1" if "tr_transfer r \<noteq> None"
      using that by (intro safe_hand_over) (simp_all add: safe_step_slot)
    then show "safe_act (case Some (r, e) of
             None \<Rightarrow> bail_queue (''task '' @ tt_task_id (tp_transfer plan) @ '' is missing from its source queue'')
           | Some (r, _) \<Rightarrow>
               (case tr_transfer r of
                  None \<Rightarrow> bail_queue (''task '' @ tt_task_id (tp_transfer plan) @ '' has no pending transfer'')
                | Some current \<Rightarrow>
                    if tt_transfer_id current \<noteq> tt_transfer_id (tp_transfer plan)
                       \<or> tt_migration_id current \<noteq> tt_migration_id (tp_transfer plan)
                       \<or> tt_plan_fingerprint current \<noteq> Some (tp_fingerprint plan)
                    then bail_queue (''task '' @ tt_task_id (tp_transfer plan)
                           @ '' transfer plan does not match its source record'')
                    else hand_over env cd now plan source target r)) x1"
      by (simp split: option.split)
  qed simp
  have "safe_act (bind_queue (verify_task_transfer_plan env cd plan) (\<lambda>_.
     bind_queue (slot_get cd (tt_task_id (tp_transfer plan)) target) (\<lambda>in_target. case in_target of
        Some (t, _) \<Rightarrow>
          if tr_transfer t = Some (tp_transfer plan) \<and> tr_transfer_phase t = Some TargetInstalled
          then done_before t
          else bail_queue ''target queue already contains a different task with this ID''
      | None \<Rightarrow> hand))) q1"
    by (rule safe_bind[OF safe_verify], rule safe_bind_get) (use ok d h in \<open>auto simp: safe_step_slot\<close>)
  then show ?thesis unfolding done_before_def hand_def .
  qed
  show ?thesis
    unfolding commit_task_destination_transfer_def
    by (rule safe_bind[OF safe_verify], intro safe_bind_required, rule inner)
qed

lemma plan_decision_ok:
  assumes "plan_decision env transfer moves q r = Inr (plan, Some r')" "record_ok r"
  shows "evolves r r' \<and> record_ok r'"
proof -
  obtain t where t: "tr_transfer r = Some t" "r' = r\<lparr>tr_transfer := Some (t\<lparr>tt_plan_fingerprint := Some (tp_fingerprint plan)\<rparr>)\<rparr>"
    using assms(1) by (auto simp: plan_decision_def split: option.splits if_splits sum.splits)
  with assms(2) show ?thesis by (auto simp: evolves_def same_task_def record_ok_iff)
qed

lemma plan_safe: "safe_act (task_transfer_plan env cd now transfer moves) q"
proof -
  define save where "save = (\<lambda>sl r e q. case plan_decision env transfer moves q r of
            Inl m \<Rightarrow> (Inl m, q)
          | Inr (plan, None) \<Rightarrow> (Inr plan, q)
          | Inr (plan, Some r') \<Rightarrow>
              bind_queue (on_slot sl (save_mutated_record cd now r' e False)) (\<lambda>saved.
                case tr_transfer saved of
                  None \<Rightarrow> bail_queue ''task transfer token disappeared while saving its plan''
                | Some t \<Rightarrow> ret_queue (plan\<lparr>tp_transfer := t\<rparr>)) q)"
  have s: "safe_act (save sl r e) x" if ok: "slot_ok x sl" "r \<in> queue_records x" for sl r e x
  proof (cases "plan_decision env transfer moves x r")
    case (Inl m)
    then show ?thesis by (simp add: save_def safe_act_def)
  next
    case (Inr p)
    obtain plan u where p: "p = (plan, u)" by (cases p)
    show ?thesis
    proof (cases u)
      case None
      with Inr p show ?thesis by (simp add: save_def safe_act_def)
    next
      case (Some r')
      have "safe_act (bind_queue (on_slot sl (save_mutated_record cd now r' e False)) (\<lambda>saved.
                case tr_transfer saved of
                  None \<Rightarrow> bail_queue ''task transfer token disappeared while saving its plan''
                | Some t \<Rightarrow> ret_queue (plan\<lparr>tp_transfer := t\<rparr>))) x"
        using plan_decision_ok[of env transfer moves x r plan r']
        by (intro safe_bind safe_save[OF ok]) (auto simp: Inr p Some split: option.split)
      with Inr p Some show ?thesis by (simp add: save_def safe_act_def)
    qed
  qed
  have "safe_act (bind_queue (required_store ''task transfer source library is unavailable'' (td_root (tt_source transfer))) (\<lambda>sl.
     bind_queue (slot_get cd (tt_task_id transfer) sl) (\<lambda>found. case found of
        None \<Rightarrow> bail_queue (''task '' @ tt_task_id transfer @ '' is no longer in its source queue'')
      | Some (r, e) \<Rightarrow> save sl r e))) q"
    by (intro safe_bind_required safe_bind_get) (auto simp: safe_step_slot intro!: s)
  then show ?thesis unfolding task_transfer_plan_def save_def .
qed

lemma ack_store_safe:
  assumes "ack_store cd transfer q = (res, q')"
  shows "safe_step q q'" "res = Inr (Some sl) \<Longrightarrow> slot_ok q' sl"
proof -
  define source where "source = slot_for_root (td_root (tt_source transfer)) q"
  have src: "source = Some sl \<Longrightarrow> slot_ok q sl" for sl using slot_for_root_ok by (auto simp: source_def)
  have "safe_step q q' \<and> (res = Inr (Some sl) \<longrightarrow> slot_ok q' sl)"
  proof (cases "slot_for_root (td_root (tt_target transfer)) q")
    case None
    with assms src show ?thesis by (auto simp: ack_store_def Let_def source_def)
  next
    case (Some target)
    then have t: "slot_ok q target" using slot_for_root_ok by blast
    obtain g q1 where g: "slot_get cd (tt_task_id transfer) target q = (g, q1)"
      by (cases "slot_get cd (tt_task_id transfer) target q")
    have s: "safe_step q q1" by (rule safe_actD[OF safe_slot_get[OF t] g])
    have "q' = q1 \<and> (res = Inr (Some target) \<or> res = Inr source)"
      using assms Some g by (auto simp: ack_store_def Let_def source_def split: sum.splits option.splits)
    with s t src show ?thesis by (auto simp: safe_step_slot)
  qed
  then show "safe_step q q'" "res = Inr (Some sl) \<Longrightarrow> slot_ok q' sl" by auto
qed

lemma ack_safe: "safe_act (ack_task_destination_transfer cd now transfer) q"
  unfolding ack_task_destination_transfer_def
proof (rule safe_bind)
  show "safe_act (ack_store cd transfer) q"
    using ack_store_safe(1) by (cases "ack_store cd transfer q") (simp add: safe_act_def)
next
  fix x q1 assume a: "ack_store cd transfer q = (Inr x, q1)"
  show "safe_act (case x of None \<Rightarrow> ret_queue None
      | Some sl \<Rightarrow> bind_queue (slot_get cd (tt_task_id transfer) sl) (\<lambda>found. case found of
            None \<Rightarrow> ret_queue None
          | Some (r, e) \<Rightarrow> on_slot sl (commit cd now e (ack_transfer transfer r)))) q1"
  proof (cases x)
    case (Some sl)
    have ok: "slot_ok q1 sl" using ack_store_safe(2)[OF a] Some by simp
    show ?thesis
      unfolding Some option.case
      by (rule safe_bind_get[OF ok])
        (use ok ack_transfer.evolving ack_transfer.sound in \<open>auto simp: safe_step_slot intro!: safe_commit\<close>)
  qed simp
qed

lemma reconcile_records_safe:
  "slot_ok q source \<Longrightarrow> reconcile_transfer_records cd source rs q = (res, q') \<Longrightarrow> safe_step q q'"
proof (induction rs arbitrary: q res q')
  case Nil
  then show ?case by simp
next
  case (Cons r rs)
  show ?case
  proof (cases "\<exists>transfer target. tr_transfer r = Some transfer \<and> td_root (tt_source transfer) = slot_root q source
      \<and> slot_for_root (td_root (tt_target transfer)) q = Some target")
    case False
    then have "reconcile_transfer_records cd source rs q = (res, q')"
      using Cons.prems by (auto split: option.splits if_splits)
    with Cons.IH[OF Cons.prems(1)] show ?thesis by blast
  next
    case True
    then obtain transfer target where t: "tr_transfer r = Some transfer" "\<not> td_root (tt_source transfer) \<noteq> slot_root q source"
      "slot_for_root (td_root (tt_target transfer)) q = Some target" by blast
    have ok: "slot_ok q target" using slot_for_root_ok[OF t(3)] by blast
    obtain g q1 where g: "slot_get cd (tt_task_id transfer) target q = (g, q1)"
      by (cases "slot_get cd (tt_task_id transfer) target q")
    have s1: "safe_step q q1" by (rule safe_actD[OF safe_slot_get[OF ok] g])
    have sl1: "slot_ok q1 source" using Cons.prems(1) s1 by (simp add: safe_step_slot)
    obtain u q2 where u: "on_slot source (remove_task_for_transfer cd transfer) q1 = (u, q2)"
      by (cases "on_slot source (remove_task_for_transfer cd transfer) q1")
    have s2: "safe_step q1 q2"
      by (rule safe_actD[OF safe_on_slot_keeps[OF sl1 keeps_stored_remove_task] u])
    have sl2: "slot_ok q2 source" using sl1 s2 by (simp add: safe_step_slot)
    consider "q' = q1" | "q' = q2"
      | x e v where "g = Inr (Some (x, e))" "tr_destination x = Some (tt_target transfer) \<and> tr_transfer x = Some transfer
          \<and> tr_transfer_phase x = Some TargetInstalled" "u = Inr v" "reconcile_transfer_records cd source rs q2 = (res, q')"
      | "g = Inr None" "tr_transfer_phase r \<noteq> Some TargetInstalled" "reconcile_transfer_records cd source rs q1 = (res, q')"
      using Cons.prems(2) t g u by (auto split: sum.splits option.splits if_splits prod.splits)
    then show ?thesis
    proof cases
      case (3 x e v)
      have "safe_step q2 q'"
        by (rule Cons.IH[OF sl2 3(4)])
      with s1 s2 show ?thesis using safe_step_trans by blast
    next
      case 4
      have "safe_step q1 q'" by (rule Cons.IH[OF sl1 4(3)])
      with s1 show ?thesis using safe_step_trans by blast
    qed (use s1 s2 safe_step_trans in blast)+
  qed
qed


lemma note_error_safe:
  "safe_step q (q\<lparr>tq_libraries := (tq_libraries q)[k := note_video_store_read_error (tq_libraries q ! k)]\<rparr>)"
proof (cases "k < length (tq_libraries q)")
  case True
  define l where "l = note_video_store_read_error (tq_libraries q ! k)"
  have "vl_store l = vl_store (tq_libraries q ! k)" by (simp add: l_def note_video_store_read_error_def)
  then have "stored (vl_store l) \<subseteq> library_records (tq_libraries q)"
    using nth_mem[OF True] unfolding library_records_def by auto
  with library_records_update[OF True, of l] have "library_records ((tq_libraries q)[k := l]) \<subseteq> library_records (tq_libraries q)"
    by blast
  then show ?thesis by (intro safe_step_subset) (auto simp: queue_records_split l_def)
next
  case False
  then show ?thesis by (simp add: list_update_beyond)
qed

lemma keeps_stored_list_records: "keeps_stored (list_records cd)"
  unfolding list_records_def
  by (intro keeps_stored_bind keeps_stored_refreshed_index) (simp add: keeps_stored_def)

lemma reconcile_stores_safe:
  "\<forall>k\<in>set ks. k < length (tq_libraries q) \<Longrightarrow> reconcile_transfer_stores cd ks q = (res, q') \<Longrightarrow> safe_step q q'"
proof (induction ks arbitrary: q res q')
  case (Cons k ks)
  have ok: "slot_ok q (VideoSlot k)" using Cons.prems(1) by (simp add: slot_ok_def)
  obtain g q1 where g: "on_slot (VideoSlot k) (list_records cd) q = (g, q1)"
    by (cases "on_slot (VideoSlot k) (list_records cd) q")
  have s1: "safe_step q q1"
    by (rule safe_actD[OF safe_on_slot_keeps[OF ok keeps_stored_list_records] g])
  have again: "safe_step q q'" if "safe_step q x" "reconcile_transfer_stores cd ks x = (res, q')" for x
  proof -
    have "\<forall>k\<in>set ks. k < length (tq_libraries x)" using Cons.prems(1) that(1) by (simp add: safe_step_def)
    from Cons.IH[OF this that(2)] that(1) show ?thesis using safe_step_trans by blast
  qed
  show ?case
  proof (cases g)
    case (Inl m)
    with Cons.prems(2) g again[OF safe_step_trans[OF s1 note_error_safe]] show ?thesis by simp
  next
    case (Inr rs)
    obtain v q2 where v: "reconcile_transfer_records cd (VideoSlot k) rs q1 = (v, q2)"
      by (cases "reconcile_transfer_records cd (VideoSlot k) rs q1")
    have "safe_step q1 q2" by (rule reconcile_records_safe[OF _ v]) (use ok s1 in \<open>simp add: safe_step_slot\<close>)
    with s1 have "safe_step q q2" by (rule safe_step_trans)
    with Cons.prems(2) g Inr v again show ?thesis by (cases v) auto
  qed
qed simp

lemma reconcile_safe: "safe_act (reconcile_task_destination_transfers cd) q"
proof -
  obtain res q' where r: "reconcile_task_destination_transfers cd q = (res, q')"
    by (cases "reconcile_task_destination_transfers cd q")
  then show ?thesis
    using reconcile_stores_safe[of "filter (\<lambda>k. vl_available (tq_libraries q ! k)) [0..<length (tq_libraries q)]" q cd res q']
    by (simp add: reconcile_task_destination_transfers_def safe_act_def)
qed

end
