(* ===== verification/Handoff.thy ===== *)
theory Handoff
  imports Transfers
begin

section \<open>A handoff never loses the task, except over a stale index entry\<close>

text \<open>
  The end of a commit writes the target's record file and index, then removes the source's record file and
  index entry. Each write can be the last before a crash (\<open>st_faults\<close> of the two stores).
\<close>

subsection \<open>The store at a slot\<close>

definition slot_store :: "task_queue \<Rightarrow> slot \<Rightarrow> task_store" where
  "slot_store q sl = (case sl of VideoSlot k \<Rightarrow> vl_store (tq_libraries q ! k) | PdfSlot \<Rightarrow> tq_pdf q)"

lemma on_slot_store:
  assumes "on_slot sl m q = (res, q')" "slot_ok q sl"
  shows "m (slot_store q sl) = (res, slot_store q' sl)" "slot_ok q' sl'= slot_ok q sl'"
    and "sl' \<noteq> sl \<Longrightarrow> slot_store q' sl' = slot_store q sl'"
  using assms
  by (auto simp: on_slot_def slot_store_def slot_ok_def nth_list_update split: slot.splits prod.splits if_splits)

subsection \<open>Files that lookups keep\<close>

definition unmoved :: "string \<Rightarrow> (string \<times> index_entry) list \<Rightarrow> bool" where
  "unmoved i es = (\<forall>e. (i, e) \<in> set es \<longrightarrow> ie_move_target e = None)"

lemma durable_cases:
  assumes "durable f s = (res, s')"
  shows "s' = pop_fault s \<and> (\<exists>m. res = Inl m) \<or> s' = f (pop_fault s) \<and> res = Inr ()"
  using assms by (auto simp: durable_def split: if_splits)

lemma move_keeps_other:
  assumes "move_record_to_sidecar j p q s = (res, s')" "j \<noteq> i" "read_record s path = Some r" "tr_id r = i"
  shows "read_record s' path = Some r"
proof (cases "read_record s p")
  case None
  with assms(1,3) show ?thesis
    by (auto simp: move_record_to_sidecar_def Let_def split: option.splits if_splits)
next
  case (Some x)
  show ?thesis
  proof (cases "tr_id x = j")
    case False
    with assms(1,3) Some show ?thesis by (simp add: move_record_to_sidecar_def Let_def)
  next
    case True
    then have p: "path \<noteq> p" using Some assms(2,3,4) by auto
    show ?thesis
    proof (cases "read_record s q")
      case None
      then have q: "path \<noteq> q" using assms(3) by auto
      have "s' = pop_fault s \<or> s' = remove_file p (put_file q x (pop_fault s))"
        using assms(1) Some True None
        by (auto simp: move_record_to_sidecar_def Let_def bind_act_def ret_def durable_def split: if_splits)
      with assms(3) p q show ?thesis by auto
    next
      case (Some y)
      then have "s' = s \<or> s' = pop_fault s \<or> s' = remove_file p (pop_fault s)"
        using assms(1) \<open>read_record s p = Some x\<close> True
        by (auto simp: move_record_to_sidecar_def Let_def bind_act_def ret_def durable_def split: if_splits)
      with assms(3) p show ?thesis by auto
    qed
  qed
qed

lemma reconcile_moves_keeps:
  "unmoved i es \<Longrightarrow> read_record s path = Some r \<Longrightarrow> tr_id r = i \<Longrightarrow> reconcile_moves es s = (res, s')
     \<Longrightarrow> read_record s' path = Some r"
proof (induction es arbitrary: s res s' rule: reconcile_moves.induct)
  case 1
  then show ?case by (simp add: ret_def)
next
  case (2 j entry es)
  have u: "unmoved i es" using "2.prems"(1) by (auto simp: unmoved_def)
  show ?case
  proof (cases "ie_move_target entry")
    case None
    with "2.prems"(4) have "bind_act (reconcile_moves es) (\<lambda>es'. ret ((j, entry) # es')) s = (res, s')" by simp
    then show ?thesis
    proof (rule bind_cases)
      fix e assume "reconcile_moves es s = (Inl e, s')"
      then show ?thesis using "2.IH"(1)[OF None u "2.prems"(2,3)] by blast
    next
      fix x t assume "reconcile_moves es s = (Inr x, t)" "ret ((j, entry) # x) t = (res, s')"
      then show ?thesis using "2.IH"(1)[OF None u "2.prems"(2,3)] by (auto simp: ret_def)
    qed
  next
    case (Some target)
    then have ji: "j \<noteq> i" using "2.prems"(1) by (auto simp: unmoved_def)
    from "2.prems"(4) Some have "bind_act (move_record_to_sidecar j (ie_record_path entry) target) (\<lambda>status.
            let entry' = (if status = MissingRecord then entry
                          else entry\<lparr>ie_record_path := target, ie_move_target := None\<rparr>)
            in bind_act (reconcile_moves es) (\<lambda>es'. ret ((j, entry') # es'))) s = (res, s')" by simp
    then show ?thesis
    proof (rule bind_cases)
      fix e assume "move_record_to_sidecar j (ie_record_path entry) target s = (Inl e, s')"
      from move_keeps_other[OF this ji "2.prems"(2,3)] show ?thesis .
    next
      fix x t assume m: "move_record_to_sidecar j (ie_record_path entry) target s = (Inr x, t)"
        and rest: "(let entry' = (if x = MissingRecord then entry
                          else entry\<lparr>ie_record_path := target, ie_move_target := None\<rparr>)
            in bind_act (reconcile_moves es) (\<lambda>es'. ret ((j, entry') # es'))) t = (res, s')"
      have t: "read_record t path = Some r" by (rule move_keeps_other[OF m ji "2.prems"(2,3)])
      have "\<exists>res'. reconcile_moves es t = (res', s')"
        using rest by (auto simp: Let_def bind_act_def ret_def split: prod.splits sum.splits)
      with "2.IH"(2)[OF Some refl u t "2.prems"(3)] show ?thesis by blast
    qed
  qed
qed

lemma index_insert_unmoved: "unmoved i (ix_tasks ix) \<Longrightarrow> ie_move_target e = None \<Longrightarrow> unmoved i (ix_tasks (index_insert j e ix))"
proof -
  assume a: "unmoved i (ix_tasks ix)" "ie_move_target e = None"
  have "set (bt_insert k v m) \<subseteq> insert (k, v) (set m)" for k :: string and v :: index_entry and m
    by (induction m) (auto split: if_splits)
  from this[of j e "ix_tasks ix"] a show ?thesis by (auto simp: unmoved_def index_insert_def)
qed

lemma raise_tasks [simp]: "ix_tasks (raise_chat_activity ix r) = ix_tasks ix"
  by (simp add: raise_chat_activity_def Let_def)

lemma scan_unmoved:
  "unmoved i (ix_tasks ix) \<Longrightarrow> scan_records False files ix = Inr ix' \<Longrightarrow> unmoved i (ix_tasks ix')"
  by (induction "False" files ix arbitrary: ix' rule: scan_records.induct)
    (auto split: record_path.splits sum.splits option.splits if_splits simp: index_insert_unmoved)


definition holds_at :: "task_store \<Rightarrow> string \<Rightarrow> task_record \<Rightarrow> bool" where
  \<comment> \<open>the store lists the task, with this content, under its file in the queue directory\<close>
  "holds_at s i r = (index_ok (st_index s) \<and> read_record s (QueueFile i) = Some r \<and> tr_id r = i
     \<and> (\<exists>e. index_lookup (st_index s) i = Some e \<and> ie_record_path e = QueueFile i \<and> ie_move_target e = None))"

lemma holds_unmoved: "holds_at s i r \<Longrightarrow> unmoved i (ix_tasks (st_index s))"
  by (auto simp: holds_at_def unmoved_def dest: index_lookup_unique)

lemma refreshed_keeps:
  assumes "unmoved i (ix_tasks (st_index s))" "read_record s path = Some r" "tr_id r = i"
    and "refreshed_index cd s = (res, s')"
  shows "read_record s' path = Some r"
proof -
  from assms(4) have "bind_act (lift_result (scan_active_records False (st_index s) s)) (\<lambda>ix.
       bind_act (reconcile_move_targets ix) (\<lambda>ix'.
         if ix' \<noteq> st_index s then bind_act (write_index cd ix') (\<lambda>_. ret ix') else ret ix')) s = (res, s')"
    by (simp add: refreshed_index_def Let_def)
  then show ?thesis
  proof (rule bind_cases)
    fix e assume "lift_result (scan_active_records False (st_index s) s) s = (Inl e, s')"
    with assms(2) show ?thesis by (simp add: lift_result_def)
  next
    fix ix t assume "lift_result (scan_active_records False (st_index s) s) s = (Inr ix, t)"
      and r: "bind_act (reconcile_move_targets ix) (\<lambda>ix'.
         if ix' \<noteq> st_index s then bind_act (write_index cd ix') (\<lambda>_. ret ix') else ret ix') t = (res, s')"
    then have t: "t = s" and scan: "scan_active_records False (st_index s) s = Inr ix"
      by (auto simp: lift_result_def)
    from scan have u: "unmoved i (ix_tasks ix)"
      using assms(1) by (auto simp: scan_active_records_def Let_def split: if_splits intro: scan_unmoved)
    have moved: "read_record v path = Some r" if rm: "reconcile_move_targets ix s = (x, v)" for x v
    proof -
      obtain y where "reconcile_moves (ix_tasks ix) s = (y, v)"
        using rm by (auto simp: reconcile_move_targets_def bind_act_def ret_def split: prod.splits sum.splits)
      then show ?thesis by (rule reconcile_moves_keeps[OF u assms(2,3)])
    qed
    from r[unfolded t] show ?thesis
    proof (rule bind_cases)
      fix e assume "reconcile_move_targets ix s = (Inl e, s')"
      then show ?thesis by (rule moved)
    next
      fix ix' v assume m: "reconcile_move_targets ix s = (Inr ix', v)"
        and w: "(if ix' \<noteq> st_index s then bind_act (write_index cd ix') (\<lambda>_. ret ix') else ret ix') v = (res, s')"
      have "st_files s' = st_files v"
        using w by (auto simp: write_index_def bind_act_def lift_result_def durable_def ret_def pop_fault_def
            split: if_splits sum.splits)
      with moved[OF m] show ?thesis by (simp add: read_record_def)
    qed
  qed
qed

lemma get_task_keeps:
  assumes "unmoved i (ix_tasks (st_index s))" "read_record s path = Some r" "tr_id r = i"
    and "get_task cd j s = (res, s')"
  shows "read_record s' path = Some r"
proof -
  obtain x where "refreshed_index cd s = (x, s')"
    using assms(4) by (auto simp: get_task_def bind_act_def split: prod.splits sum.splits option.splits)
  then show ?thesis by (rule refreshed_keeps[OF assms(1-3)])
qed

lemma create_task_new:
  assumes "create_task cd t s = (res, s')" "index_lookup (st_index s) (tr_id t) = None" "index_ok (st_index s)"
    and "res = Inr x"
  shows "\<exists>n. x = t\<lparr>tr_activity_revision := n\<rparr> \<and> holds_at s' (tr_id t) x"
proof -
  obtain n ix where b: "bump_chat_activity (st_index s) (tr_chat_id t) = (n, ix)"
    by (cases "bump_chat_activity (st_index s) (tr_chat_id t)")
  define t' where "t' = t\<lparr>tr_activity_revision := n\<rparr>"
  define e where "e = \<lparr>ie_chat_id = tr_chat_id t', ie_record_path = QueueFile (tr_id t'),
                  ie_move_target = None, ie_revision = tr_revision t', ie_updated_at = tr_updated_at t'\<rparr>"
  have id: "tr_id t' = tr_id t" by (simp add: t'_def)
  have ok: "index_ok ix" using assms(3) b by (auto simp: bump_chat_activity_def Let_def index_ok_def)
  from assms(1,2,4) b have "bind_act (write_record cd (QueueFile (tr_id t')) t') (\<lambda>_.
      bind_act (write_index cd (index_insert (tr_id t') e ix)) (\<lambda>_. ret t')) s = (Inr x, s')"
    by (simp add: create_task_def Let_def t'_def e_def split: sum.splits)
  then show ?thesis
  proof (rule bind_cases)
    fix u t1 assume w: "write_record cd (QueueFile (tr_id t')) t' s = (Inr u, t1)"
      and "bind_act (write_index cd (index_insert (tr_id t') e ix)) (\<lambda>_. ret t') t1 = (Inr x, s')"
    then have wi: "write_index cd (index_insert (tr_id t') e ix) t1 = (Inr (), s')" and x: "x = t'"
      by (auto simp: bind_act_def ret_def split: prod.splits sum.splits)
    from write_index_cases[OF index_ok_insert[OF ok] wi] have f: "st_files s' = st_files t1"
      and p: "prunes_history (index_insert (tr_id t') e ix) (st_index s')" by auto
    have "read_record t1 (QueueFile (tr_id t')) = Some t'" using write_record_cases[OF w] by auto
    moreover have "index_lookup (st_index s') (tr_id t') = Some e"
      using prunes_history_lookup[OF p, of "tr_id t'"]
      by (auto simp: e_def is_history_index_entry_def in_queue_dir_def)
    ultimately have "holds_at s' (tr_id t) x"
      using p f by (auto simp: holds_at_def x id e_def prunes_history_def read_record_def)
    then show ?thesis by (auto simp: x t'_def)
  qed (simp add: assms(4))
qed

lemma remove_task_cases:
  assumes "remove_task_for_transfer cd transfer s = (res, s')" "index_ok (st_index s)"
    and "index_lookup (st_index s) (tt_task_id transfer) = Some e" "res = Inr x"
  shows "read_record s' (ie_record_path e) = None \<and> index_lookup (st_index s') (tt_task_id transfer) = None"
proof -
  have ok: "index_ok (index_remove i ix)" if "index_ok ix" for i ix
    using that by (simp add: index_ok_def index_remove_def bt_wf_remove)
  have gone: "index_lookup ix' i = None" if "prunes_history (index_remove i ix) ix'" for i ix ix'
    using prunes_history_lookup[OF that, of i] by (simp add: index_lookup_def index_remove_def)
  consider (present) r where "read_record s (ie_record_path e) = Some r"
      "bind_act (durable (remove_file (ie_record_path e)))
         (\<lambda>_. write_index cd (index_remove (tt_task_id transfer) (st_index s))) s = (Inr x, s')"
    | (none) "read_record s (ie_record_path e) = None"
      "write_index cd (index_remove (tt_task_id transfer) (st_index s)) s = (Inr x, s')"
    using assms by (auto simp: remove_task_for_transfer_def Let_def split: option.splits if_splits)
  then show ?thesis
  proof cases
    case present
    from present(2) have "write_index cd (index_remove (tt_task_id transfer) (st_index s))
        (remove_file (ie_record_path e) (pop_fault s)) = (Inr x, s')"
      by (auto simp: bind_act_def durable_def split: if_splits)
    from write_index_cases[OF ok[OF assms(2)] this] gone show ?thesis
      by (auto simp: read_record_def remove_file_def delete_conv' pop_fault_def)
  next
    case none
    from write_index_cases[OF ok[OF assms(2)] none(2)] gone none(1) show ?thesis
      by (auto simp: read_record_def)
  qed
qed


subsection \<open>The handoff\<close>

lemma bind_queue_cases:
  assumes "bind_queue m f q = (res, q')"
  obtains (fail) e where "m q = (Inl e, q')" "res = Inl e"
    | (ok) x q1 where "m q = (Inr x, q1)" "f x q1 = (res, q')"
  using assms by (auto simp: bind_queue_def split: prod.splits sum.splits)

lemma hand_over_cases:
  assumes "hand_over env cd now plan source target r q = (res, q')"
  obtains (refused) e where "installed_record env now plan r = Inl e" "q' = q" "res = Inl e"
    | (create) e t where "installed_record env now plan r = Inr t" "on_slot target (create_task cd t) q = (Inl e, q')"
        "res = Inl e"
    | (remove) e x t q1 where "installed_record env now plan r = Inr t" "on_slot target (create_task cd t) q = (Inr x, q1)"
        "on_slot source (remove_task_for_transfer cd (tp_transfer plan)) q1 = (Inl e, q')" "res = Inl e"
    | (finished) x t q1 q2 found where "installed_record env now plan r = Inr t"
        "on_slot target (create_task cd t) q = (Inr x, q1)"
        "on_slot source (remove_task_for_transfer cd (tp_transfer plan)) q1 = (Inr (), q2)"
        "on_slot target (get_task cd (tt_task_id (tp_transfer plan))) q2 = (found, q')"
        "res = (case found of Inl e \<Rightarrow> Inl e
           | Inr None \<Rightarrow> Inl ''target queue record disappeared after task transfer''
           | Inr (Some (installed, _)) \<Rightarrow> Inr installed)"
proof (cases "installed_record env now plan r")
  case (Inl e)
  then show thesis by (rule refused) (use assms Inl in \<open>auto simp: hand_over_def bail_queue_def\<close>)
next
  case (Inr t)
  note t = this
  from assms have "bind_queue (on_slot target (create_task cd t)) (\<lambda>_.
        bind_queue (on_slot source (remove_task_for_transfer cd (tp_transfer plan))) (\<lambda>_.
        bind_queue (slot_get cd (tt_task_id (tp_transfer plan)) target) (\<lambda>found. case found of
            None \<Rightarrow> bail_queue ''target queue record disappeared after task transfer''
          | Some (installed, _) \<Rightarrow> ret_queue installed))) q = (res, q')"
    by (simp add: hand_over_def t)
  then show thesis
  proof (cases rule: bind_queue_cases)
    case (fail e)
    with create t show thesis by blast
  next
    case (ok x q1)
    note c = ok(1)
    from ok(2) show thesis
    proof (cases rule: bind_queue_cases)
      case (fail e)
      with remove t c show thesis by blast
    next
      case (ok u q2)
      note rm = ok(1)
      from ok(2) show thesis
      proof (cases rule: bind_queue_cases)
        case (fail e)
        with finished[OF t c, of q2 "Inl e"] rm show thesis by (simp add: slot_get_def)
      next
        case (ok found q3)
        with finished[OF t c, of q2 "Inr found"] rm show thesis
          by (auto simp: slot_get_def bail_queue_def ret_queue_def split: option.splits prod.splits)
      qed
    qed
  qed
qed

lemma installed_id: "installed_record env now plan r = Inr t \<Longrightarrow> tr_id t = tr_id r"
  by (auto simp: installed_record_def split: sum.splits dest!: rebase_task_paths_Inr)

text \<open>
  C5: A handoff never loses the task. Whichever write of the two queues fails, and wherever the process dies,
  the source's queue still has the task's file unchanged or the target's queue has the rewritten record, provided
  the target's index has no entry for the task. When the handoff succeeds the target has the record and the
  source has neither its file nor its index entry.
\<close>

theorem hand_over_never_loses_task:
  assumes "source \<noteq> target" "slot_ok q source" "slot_ok q target"
    and "holds_at (slot_store q source) i r" "i = tt_task_id (tp_transfer plan)"
    and "index_ok (st_index (slot_store q target))" "index_lookup (st_index (slot_store q target)) i = None"
    and "hand_over env cd now plan source target r q = (res, q')"
  shows "(read_record (slot_store q' source) (QueueFile i) = Some r
      \<or> (\<exists>t n. installed_record env now plan r = Inr t
           \<and> read_record (slot_store q' target) (QueueFile i) = Some (t\<lparr>tr_activity_revision := n\<rparr>)))
    \<and> (\<forall>x. res = Inr x \<longrightarrow>
         read_record (slot_store q' source) (QueueFile i) = None
         \<and> index_lookup (st_index (slot_store q' source)) i = None
         \<and> (\<exists>t n. installed_record env now plan r = Inr t
              \<and> read_record (slot_store q' target) (QueueFile i) = Some (t\<lparr>tr_activity_revision := n\<rparr>)))"
proof -
  have st: "slot_store q1 source = slot_store q source"
    if "on_slot target m q = (x, q1)" for m :: "task_record act" and x q1
    using on_slot_store(3)[OF that assms(3,1)] .
  have src: "read_record (slot_store q source) (QueueFile i) = Some r" "tr_id r = i"
    using assms(4) by (simp_all add: holds_at_def)
  have installed: "\<exists>n. holds_at (slot_store q1 target) i (t\<lparr>tr_activity_revision := n\<rparr>)"
    if t: "installed_record env now plan r = Inr t" and c: "on_slot target (create_task cd t) q = (Inr x, q1)" for t x q1
    using create_task_new[OF on_slot_store(1)[OF c assms(3)]] assms(6,7) installed_id[OF t] src(2) by auto
  from assms(8) show ?thesis
  proof (cases rule: hand_over_cases)
    case refused
    with src show ?thesis by simp
  next
    case (create e t)
    with st[OF create(2)] src show ?thesis by simp
  next
    case (remove e x t q1)
    from installed[OF remove(1,2)] obtain n where n: "holds_at (slot_store q1 target) i (t\<lparr>tr_activity_revision := n\<rparr>)" ..
    have "slot_ok q1 source" using on_slot_store(2)[OF remove(2) assms(3)] assms(2) by simp
    from on_slot_store(3)[OF remove(3) this] assms(1) have "slot_store q' target = slot_store q1 target" by auto
    with n remove(1,4) show ?thesis by (auto simp: holds_at_def)
  next
    case (finished x t q1 q2 found)
    from installed[OF finished(1,2)] obtain n where n: "holds_at (slot_store q1 target) i (t\<lparr>tr_activity_revision := n\<rparr>)" ..
    have ok1: "slot_ok q1 sl = slot_ok q sl" for sl using on_slot_store(2)[OF finished(2) assms(3)] by simp
    then have s1: "slot_ok q1 source" "slot_ok q1 target" using assms(2,3) by simp_all
    have ok2: "slot_ok q2 sl = slot_ok q1 sl" for sl using on_slot_store(2)[OF finished(3) s1(1)] by simp
    have t2: "slot_store q2 target = slot_store q1 target"
      using on_slot_store(3)[OF finished(3) s1(1)] assms(1) by auto
    have "slot_ok q2 target" using ok2 s1(2) by simp
    note g = on_slot_store(1)[OF finished(4) this] on_slot_store(3)[OF finished(4) this]
    from n have "read_record (slot_store q1 target) (QueueFile i) = Some (t\<lparr>tr_activity_revision := n\<rparr>)"
      "tr_id (t\<lparr>tr_activity_revision := n\<rparr>) = i" by (simp_all only: holds_at_def)
    from get_task_keeps[OF holds_unmoved[OF n, folded t2] this[folded t2] g(1)]
    have tgt: "read_record (slot_store q' target) (QueueFile i) = Some (t\<lparr>tr_activity_revision := n\<rparr>)" .
    from assms(4) obtain e where e: "index_lookup (st_index (slot_store q source)) i = Some e"
      "ie_record_path e = QueueFile i" "index_ok (st_index (slot_store q source))" by (auto simp: holds_at_def)
    have "read_record (slot_store q2 source) (QueueFile i) = None \<and> index_lookup (st_index (slot_store q2 source)) i = None"
      using remove_task_cases[OF on_slot_store(1)[OF finished(3) s1(1)]] e st[OF finished(2)] assms(5) by simp
    with g(2)[OF assms(1)] tgt finished(1) show ?thesis by auto
  qed
qed


subsection \<open>An entry without a file\<close>

definition has_task :: "task_store \<Rightarrow> string \<Rightarrow> bool" where
  \<comment> \<open>some record file of the store is the task's\<close>
  "has_task s i = (\<exists>x\<in>stored s. tr_id x = i)"

definition same_token :: "transfer_plan \<Rightarrow> task_record \<Rightarrow> bool" where
  \<comment> \<open>the record carries the plan's handoff, in either phase\<close>
  "same_token plan r = ((\<exists>c. tr_transfer r = Some c \<and> same_handoff c (tp_transfer plan)) \<and> tr_transfer_phase r \<noteq> None)"

lemma has_task_keeps: "stored s' \<subseteq> stored s \<Longrightarrow> \<not> has_task s i \<Longrightarrow> \<not> has_task s' i"
  by (auto simp: has_task_def)

lemma shrink_fits: "sc_index_len cd ix \<le> MAX_INDEX_BYTES \<Longrightarrow> shrink_index cd ix = Inr ix"
  by (subst shrink_index.simps) (simp add: Let_def)

lemma write_index_fits:
  assumes "\<forall>ix. sc_index_len cd ix \<le> MAX_INDEX_BYTES" "\<not> next_write_fails s"
  shows "write_index cd ix s = (Inr (), (pop_fault s)\<lparr>st_index := prune_history_index ix\<rparr>)"
  using assms by (simp add: write_index_def shrink_fits bind_act_def lift_result_def durable_def)

lemma remove_task_at:
  assumes "holds_at s (tt_task_id (tp_transfer plan)) r" "same_token plan r"
  shows "remove_task_for_transfer cd (tp_transfer plan) s
    = bind_act (durable (remove_file (QueueFile (tr_id r))))
        (\<lambda>_. write_index cd (index_remove (tr_id r) (st_index s))) s"
  using assms by (auto simp: holds_at_def same_token_def remove_task_for_transfer_def in_queue_dir_def Let_def)

lemma crash_leaves_stale_entry:
  assumes "holds_at s (tt_task_id (tp_transfer plan)) r" "same_token plan r" "st_faults s = False # True # fs"
  obtains m s' where "remove_task_for_transfer cd (tp_transfer plan) s = (Inl m, s')"
    "st_index s' = st_index s" "st_files s' = AList.delete (QueueFile (tr_id r)) (st_files s)" "st_faults s' = fs \<or> st_faults s' = True # fs"
proof -
  have "next_write_fails (remove_file (QueueFile (tr_id r)) (pop_fault s))"
    using assms(3) by (simp add: next_write_fails_def remove_file_def pop_fault_def)
  then show thesis using that assms(3) remove_task_at[OF assms(1,2), of cd]
    by (auto simp: bind_act_def durable_def next_write_fails_def write_index_def lift_result_def pop_fault_def
        remove_file_def split: sum.splits)
qed

lemma remove_task_done:
  assumes "holds_at s (tt_task_id (tp_transfer plan)) r" "same_token plan r" "st_faults s = []"
    and "\<forall>ix. sc_index_len cd ix \<le> MAX_INDEX_BYTES"
  obtains s' where "remove_task_for_transfer cd (tp_transfer plan) s = (Inr (), s')"
    "st_files s' = AList.delete (QueueFile (tr_id r)) (st_files s)"
proof -
  have f: "\<not> next_write_fails s" "\<not> next_write_fails (remove_file (QueueFile (tr_id r)) (pop_fault s))"
    using assms(3) by (simp_all add: next_write_fails_def remove_file_def pop_fault_def)
  show thesis
    by (rule that) (use f remove_task_at[OF assms(1,2), of cd] write_index_fits[OF assms(4) f(2)] in
      \<open>auto simp: bind_act_def durable_def pop_fault_def remove_file_def\<close>)
qed

text \<open>
  C6: An index entry without a file in the target's queue makes a handoff lose the task. An interrupted removal
  leaves such an entry behind (the file goes before the index entry), and creating the task over it succeeds
  without writing a file; the source's file, its only copy, is then removed and the handoff fails, with no
  record of the task left in either queue.
\<close>

theorem stale_entry_loses_task:
  assumes "source \<noteq> target" "slot_ok q source" "slot_ok q target"
    and "holds_at (slot_store q source) i r" "i = tt_task_id (tp_transfer plan)" "same_token plan r"
    and "\<forall>p x. read_record (slot_store q source) p = Some x \<and> tr_id x = i \<longrightarrow> p = QueueFile i"
    and "index_lookup (st_index (slot_store q target)) i \<noteq> None" "\<not> has_task (slot_store q target) i"
    and "installed_record env now plan r = Inr t"
    and "st_faults (slot_store q source) = []" "\<forall>ix. sc_index_len cd ix \<le> MAX_INDEX_BYTES"
  shows "\<exists>m q'. hand_over env cd now plan source target r q = (Inl m, q')
    \<and> \<not> has_task (slot_store q' source) i \<and> \<not> has_task (slot_store q' target) i"
proof -
  have id: "tr_id r = i" "tr_id t = i" using assms(4) installed_id[OF assms(10)] by (simp_all add: holds_at_def)
  obtain c1 q1 where c: "on_slot target (create_task cd t) q = (c1, q1)" by (cases "on_slot target (create_task cd t) q")
  have ct: "create_task cd t (slot_store q target) = (Inr t, slot_store q target)"
    using assms(8) id by (auto simp: create_task_def Let_def)
  note on1 = on_slot_store[OF c assms(3)]
  have q1: "c1 = Inr t" "slot_store q1 target = slot_store q target" "slot_store q1 source = slot_store q source"
    using on1(1,3) ct assms(1) by auto
  have ok1: "slot_ok q1 source" "slot_ok q1 target" using on1(2) assms(2,3) by simp_all
  obtain c2 q2 where rm: "on_slot source (remove_task_for_transfer cd (tp_transfer plan)) q1 = (c2, q2)"
    by (cases "on_slot source (remove_task_for_transfer cd (tp_transfer plan)) q1")
  note on2 = on_slot_store[OF rm ok1(1)]
  obtain s' where s': "remove_task_for_transfer cd (tp_transfer plan) (slot_store q source) = (Inr (), s')"
    "st_files s' = AList.delete (QueueFile (tr_id r)) (st_files (slot_store q source))"
    by (rule remove_task_done[OF assms(4)[unfolded assms(5)] assms(6,11,12)])
  have q2: "c2 = Inr ()" "slot_store q2 source = s'" "slot_store q2 target = slot_store q target"
    using on2(1,3) s'(1) q1 assms(1) by auto
  have "\<not> has_task s' i"
  proof
    assume "has_task s' i"
    then obtain p x where x: "map_of (AList.delete (QueueFile i) (st_files (slot_store q source))) p = Some x" "tr_id x = i"
      using id(1) by (auto simp: has_task_def stored_def ran_def s'(2))
    then have "read_record (slot_store q source) p = Some x" "p \<noteq> QueueFile i"
      by (auto simp: read_record_def delete_conv' split: if_splits)
    with assms(7) x(2) show False by blast
  qed
  moreover obtain found q' where g: "on_slot target (get_task cd i) q2 = (found, q')"
    by (cases "on_slot target (get_task cd i) q2")
  note on3 = on_slot_store[OF g on2(2)[of target, THEN iffD2, OF ok1(2)]]
  note gs = get_task_stored[OF on3(1)]
  have nt: "\<not> has_task (slot_store q' target) i"
    using gs(1) assms(9) q2(3) has_task_keeps by metis
  moreover have "slot_store q' source = s'" using on3(3) q2(2) assms(1) by auto
  moreover have "\<exists>m. hand_over env cd now plan source target r q = (Inl m, q')"
  proof (cases found)
    case (Inl e)
    then show ?thesis using c rm g q1(1) q2(1) assms(10) assms(5)
      by (simp add: hand_over_def bind_queue_def slot_get_def)
  next
    case (Inr f)
    have "f = None"
    proof (rule ccontr)
      assume "f \<noteq> None"
      then obtain x e where "f = Some (x, e)" by auto
      with gs(2)[of x e] Inr have "x \<in> stored (slot_store q2 target)" "tr_id x = i" by auto
      with assms(9) q2(3) show False by (auto simp: has_task_def)
    qed
    then show ?thesis using c rm g q1(1) q2(1) assms(10) Inr assms(5)
      by (simp add: hand_over_def bind_queue_def slot_get_def bail_queue_def)
  qed
  ultimately show ?thesis by auto
qed

subsection \<open>Two libraries\<close>

definition example_env :: transfer_env where
  "example_env = \<lparr>te_registry = [], te_validate = \<lambda>_. Inr (), te_clock = 1, te_counter = 0, te_euid = 501,
     te_digest = \<lambda>_. ''f'', te_scan = \<lambda>_ _ _. Inl ''no scan'', te_files_match = \<lambda>_. Inr (), te_alias = Inr\<rparr>"

definition reserved_record :: task_record where
  \<comment> \<open>the task while its files are copied\<close>
  "reserved_record = (new_task_record 5 ''7'' 1 2 3 None 0 (YoutubeJob ''u''))
     \<lparr>tr_transfer := Some example_transfer, tr_transfer_phase := Some Copying\<rparr>"

definition listing_store :: "bool list \<Rightarrow> task_store" where
  "listing_store faults = \<lparr>st_index = \<lparr>ix_tasks = [(''7'', example_entry)], ix_activity = []\<rparr>,
     st_files = [(QueueFile ''7'', reserved_record)], st_other_files = 0, st_faults = faults\<rparr>"

definition empty_store :: task_store where
  "empty_store = \<lparr>st_index = \<lparr>ix_tasks = [], ix_activity = []\<rparr>, st_files = [], st_other_files = 0, st_faults = []\<rparr>"

definition two_libraries :: "task_store \<Rightarrow> task_store \<Rightarrow> task_queue" where
  "two_libraries a b = \<lparr>
     tq_libraries = [\<lparr>vl_id = ''a'', vl_root = ''/a'', vl_available = True, vl_root_valid = True, vl_store = a\<rparr>,
                     \<lparr>vl_id = ''b'', vl_root = ''/b'', vl_available = True, vl_root_valid = True, vl_store = b\<rparr>],
     tq_pdf_root = ''/p'', tq_pdf = empty_store, tq_cancellations = [], tq_next_token = 0\<rparr>"

definition small_codec :: store_codec where
  "small_codec = \<lparr>sc_record_len = \<lambda>_. 100, sc_index_len = \<lambda>_. 100\<rparr>"

lemma two_libraries_slots [simp]:
  "slot_ok (two_libraries a b) (VideoSlot 0)" "slot_ok (two_libraries a b) (VideoSlot (Suc 0))"
  "slot_store (two_libraries a b) (VideoSlot 0) = a" "slot_store (two_libraries a b) (VideoSlot (Suc 0)) = b"
  by (simp_all add: two_libraries_def slot_ok_def slot_store_def)

lemma reserved_simps [simp]:
  "tr_id reserved_record = ''7''" "tr_transfer reserved_record = Some example_transfer"
  "tt_task_id (tp_transfer example_plan) = ''7''" "same_token example_plan reserved_record"
  by (simp_all add: reserved_record_def new_task_record_def example_plan_def example_transfer_def same_token_def
      same_handoff_def)

lemma listing_store_holds: "holds_at (listing_store fs) ''7'' reserved_record"
  by (simp add: holds_at_def)
    (simp add: listing_store_def read_record_def index_ok_def bt_wf_def index_lookup_def example_entry_def)

lemma example_installed: "\<exists>t. installed_record example_env 9 example_plan reserved_record = Inr t"
proof -
  have "tr_hash_manifest reserved_record = None" by (simp add: reserved_record_def new_task_record_def)
  then show ?thesis by (simp add: installed_record_def rebase_task_paths_def)
qed

theorem hand_over_never_loses_task_witness:
  \<comment> \<open>the removal of the source's file fails\<close>
  "\<exists>res q'. hand_over example_env small_codec 9 example_plan (VideoSlot 0) (VideoSlot 1) reserved_record
       (two_libraries (listing_store [True]) empty_store) = (res, q')
     \<and> (read_record (slot_store q' (VideoSlot 0)) (QueueFile ''7'') = Some reserved_record
        \<or> read_record (slot_store q' (VideoSlot 1)) (QueueFile ''7'') \<noteq> None)"
proof -
  define q where "q = two_libraries (listing_store [True]) empty_store"
  obtain res q' where h: "hand_over example_env small_codec 9 example_plan (VideoSlot 0) (VideoSlot 1) reserved_record q
      = (res, q')" by (rule prod.exhaust)
  have "index_ok (st_index (slot_store q (VideoSlot 1)))" "index_lookup (st_index (slot_store q (VideoSlot 1))) ''7'' = None"
    by (simp_all add: q_def) (simp_all add: empty_store_def index_ok_def bt_wf_def index_lookup_def)
  then have "read_record (slot_store q' (VideoSlot 0)) (QueueFile ''7'') = Some reserved_record
      \<or> (\<exists>t n. installed_record example_env 9 example_plan reserved_record = Inr t
           \<and> read_record (slot_store q' (VideoSlot 1)) (QueueFile ''7'') = Some (t\<lparr>tr_activity_revision := n\<rparr>))"
    by (intro hand_over_never_loses_task[OF _ _ _ _ _ _ _ h, of "''7''", THEN conjunct1])
      (simp_all add: q_def listing_store_holds)
  then have "read_record (slot_store q' (VideoSlot 0)) (QueueFile ''7'') = Some reserved_record
      \<or> read_record (slot_store q' (VideoSlot 1)) (QueueFile ''7'') \<noteq> None" by blast
  with h show ?thesis unfolding q_def by blast
qed

theorem stale_entry_loses_task_witness:
  \<comment> \<open>the task left library \<open>b\<close> in a removal that was cut short, and comes back\<close>
  "\<exists>b m q'. b = snd (remove_task_for_transfer small_codec (tp_transfer example_plan) (listing_store [False, True]))
     \<and> hand_over example_env small_codec 9 example_plan (VideoSlot 0) (VideoSlot 1) reserved_record
          (two_libraries (listing_store []) b) = (Inl m, q')
     \<and> \<not> has_task (slot_store q' (VideoSlot 0)) ''7'' \<and> \<not> has_task (slot_store q' (VideoSlot 1)) ''7''"
proof -
  have ls: "holds_at (listing_store [False, True]) (tt_task_id (tp_transfer example_plan)) reserved_record"
    "same_token example_plan reserved_record" "st_faults (listing_store [False, True]) = [False, True]"
    by (simp_all add: listing_store_holds) (simp add: listing_store_def)
  obtain m b where b: "remove_task_for_transfer small_codec (tp_transfer example_plan) (listing_store [False, True]) = (Inl m, b)"
    "st_index b = st_index (listing_store [False, True])"
    "st_files b = AList.delete (QueueFile (tr_id reserved_record)) (st_files (listing_store [False, True]))"
    by (rule crash_leaves_stale_entry[OF ls])
  have stale: "index_lookup (st_index b) ''7'' \<noteq> None" "\<not> has_task b ''7''"
    by (simp_all add: b(2) has_task_def stored_def b(3)) (simp_all add: listing_store_def index_lookup_def)
  have only: "\<forall>p x. read_record (listing_store []) p = Some x \<and> tr_id x = ''7'' \<longrightarrow> p = QueueFile ''7''"
    by (simp add: listing_store_def read_record_def)
  have small: "st_faults (listing_store []) = []" "\<forall>ix. sc_index_len small_codec ix \<le> MAX_INDEX_BYTES"
    by (simp_all add: listing_store_def small_codec_def MAX_INDEX_BYTES_def)
  obtain t where t: "installed_record example_env 9 example_plan reserved_record = Inr t" using example_installed ..
  have "\<exists>m q'. hand_over example_env small_codec 9 example_plan (VideoSlot 0) (VideoSlot 1) reserved_record
          (two_libraries (listing_store []) b) = (Inl m, q')
     \<and> \<not> has_task (slot_store q' (VideoSlot 0)) ''7'' \<and> \<not> has_task (slot_store q' (VideoSlot 1)) ''7''"
    by (rule stale_entry_loses_task[where r = reserved_record and i = "''7''" and t = t]) (use stale only small t in \<open>simp_all add: listing_store_holds\<close>)
  with b(1) show ?thesis by simp
qed

end
