(* ===== verification/QueueLife.thy ===== *)
theory QueueLife
  imports Completion Handoff
begin

section \<open>The life of the tasks of a queue\<close>

text \<open>
  The operations of the queue manager composed: one step relation of the whole queue, over which the records'
  invariant and the order of each task's states hold, and the life cycle that every operation on a task follows.
\<close>

subsection \<open>Completion\<close>


lemma refresh_skipped_simps [simp]:
  "sn_outcome (refresh_independent_skipped_entries s) = sn_outcome s"
  "sn_entries (refresh_independent_skipped_entries s) = sn_entries s"
  "sn_independent_entries (refresh_independent_skipped_entries s) = sn_independent_entries s"
  by (simp_all add: refresh_independent_skipped_entries_def)

lemma completed_record_simps [simp]:
  "tr_status (completed_record loc h m r) = TCompleted" "\<not> tr_cancel_requested (completed_record loc h m r)"
  "tr_saved_location (completed_record loc h m r) = Some loc" "tr_generation (completed_record loc h m r) = tr_generation r"
  "tr_transfer (completed_record loc h m r) = tr_transfer r" "tr_id (completed_record loc h m r) = tr_id r"
  "same_task r (completed_record loc h m r)" "tr_transfer_ack (completed_record loc h m r) = tr_transfer_ack r"
  "tr_attempt (completed_record loc h m r)
     = map_option (\<lambda>s. refresh_independent_skipped_entries (finish OVerified s)) (tr_attempt r)"
  by (cases "tr_attempt r"; simp add: completed_record_def Let_def same_task_def)+














subsection \<open>The operations as they are called\<close>









subsection \<open>Steps of the queue\<close>

definition kept :: "task_queue \<Rightarrow> task_queue \<Rightarrow> bool" where
  "kept q q' = (records_ok q \<longrightarrow> records_ok q' \<and> queue_evolves q q')"


lemma kept_trans: "kept a b \<Longrightarrow> kept b c \<Longrightarrow> kept a c"
  unfolding kept_def using queue_evolves_trans by blast




lemma registrations_records [simp]:
  "queue_records (q\<lparr>tq_cancellations := c\<rparr>) = queue_records q"
  "queue_records (q\<lparr>tq_next_token := n\<rparr>) = queue_records q"
  "queue_records (drop_registration i q) = queue_records q"
  "queue_records (put_registration i rg q) = queue_records q"
  by (simp_all add: queue_records_split drop_registration_def put_registration_def)










lemma note_error_store [simp]: "vl_store (note_video_store_read_error l) = vl_store l"
  by (simp add: note_video_store_read_error_def)



subsection \<open>Recovery at startup\<close>















subsection \<open>New tasks\<close>









subsection \<open>The step relation\<close>







subsection \<open>What holds over the life of a queue\<close>





subsection \<open>A task submitted to an empty queue\<close>














end
