(* ===== verification/LifeCycle.thy ===== *)
theory LifeCycle
  imports QueueLife
begin

section \<open>The life cycle of a task\<close>

text \<open>
  The abstract view of a task: its status, the generation of its run and whether a cancellation is pending.
  \<open>life_step\<close> is its specification, and every operation of the queue manager refines it: the record it stores
  is one abstract step away from the record it found.
\<close>

subsection \<open>The specification\<close>

record life =
  lf_status :: task_status
  lf_generation :: u64
  lf_cancel :: bool

definition life :: "task_record \<Rightarrow> life" where
  "life r = \<lparr>lf_status = tr_status r, lf_generation = tr_generation r, lf_cancel = tr_cancel_requested r\<rparr>"



lemma life_simps [simp]:
  "lf_status (life r) = tr_status r" "lf_generation (life r) = tr_generation r" "lf_cancel (life r) = tr_cancel_requested r"
  by (simp_all add: life_def)





subsection \<open>Every operation refines it\<close>








lemma attach_attempt_life [simp]:
  "tr_status (attach_attempt sha s r) = tr_status r" "tr_generation (attach_attempt sha s r) = tr_generation r"
  "tr_cancel_requested (attach_attempt sha s r) = tr_cancel_requested r"
  by (simp_all add: attach_attempt_def split: option.split)



lemma reopen_attempt_life [simp]:
  "tr_status (reopen_attempt rf r) = tr_status r" "tr_generation (reopen_attempt rf r) = tr_generation r"
  "tr_cancel_requested (reopen_attempt rf r) = tr_cancel_requested r"
  by (auto simp: reopen_attempt_def split: option.split)

lemma count_action_life [simp]:
  "tr_status (count_action r) = tr_status r" "tr_generation (count_action r) = tr_generation r"
  "tr_cancel_requested (count_action r) = tr_cancel_requested r"
  by (simp_all add: count_action_def)



lemma reconcile_accepted_life [simp]:
  "tr_status (reconcile_accepted_attempt sha p q r) = tr_status r"
  "tr_generation (reconcile_accepted_attempt sha p q r) = tr_generation r"
  "tr_cancel_requested (reconcile_accepted_attempt sha p q r) = tr_cancel_requested r"
  by (auto simp: reconcile_accepted_attempt_def Let_def split: option.split)


lemma finish_attempt_cancel [simp]: "tr_cancel_requested (finish_attempt oc r) = tr_cancel_requested r"
  by (auto simp: finish_attempt_def split: option.split)

lemma cancelled_record_life [simp]:
  "tr_status (cancelled_record r) = Cancelled" "tr_generation (cancelled_record r) = tr_generation r"
  "\<not> tr_cancel_requested (cancelled_record r)"
  by (simp_all add: cancelled_record_def)













subsection \<open>What can still happen to a task\<close>









end
