(* ===== verification/Router.thy ===== *)
theory Router
  imports TaskRecord AttemptSummary
begin

section \<open>Routing of messages (\<open>router.rs\<close>)\<close>

text \<open>
  A chat message is a command or a text with links. \<open>extract_http_urls\<close> finds the links, \<open>classify_url\<close> turns
  each into a job or drops it. The crate \<open>url\<close> and \<open>bbdown_core::Input::parse\<close> are parameters: the record
  \<open>route_env\<close> holds both parsers, \<open>url_view\<close> what the code reads of a parsed URL. Positions are byte offsets.
\<close>

subsection \<open>What the code uses of the parsed URL\<close>

record url_view =
  uv_scheme :: string
  uv_host :: "string option"
  uv_segments :: "string list option"
  uv_query :: "(string \<times> string) list"
  uv_username :: string
  uv_password :: "string option"
  uv_string :: string

datatype upstream_input =
    InBvid string
  | InEpisode string
  | InCollectionList string
  | InSeriesList string
  | InSpaceCollectionList
  | InSpaceSeriesList
  | InOther

record route_env =
  re_parse :: "string \<Rightarrow> url_view option"
  re_input :: "string \<Rightarrow> upstream_input option"

datatype login_mode = LoginWeb | LoginTv | LoginAccessKey

datatype auth_command = AuthLogin login_mode | AuthStatus | AuthLogout

datatype route_result =
    RJobs "job_request list"
  | RHelp
  | RPdfUsage
  | RBilibiliAuth auth_command
  | RBilibiliAuthUsage
  | RUnsupportedLinks
  | REmpty

subsection \<open>Characters\<close>

definition code_point :: "string \<Rightarrow> nat" where
  \<comment> \<open>the \<open>char\<close> a UTF-8 sequence encodes\<close>
  "code_point u = (case map byte u of
      [a] \<Rightarrow> a
    | [a, b] \<Rightarrow> (a mod 32) * 64 + b mod 64
    | [a, b, c] \<Rightarrow> ((a mod 16) * 64 + b mod 64) * 64 + c mod 64
    | [a, b, c, d] \<Rightarrow> (((a mod 8) * 64 + b mod 64) * 64 + c mod 64) * 64 + d mod 64
    | _ \<Rightarrow> 0)"

definition is_cjk_punctuation :: "string \<Rightarrow> bool" where
  "is_cjk_punctuation u = (code_point u \<in> {0x3002, 0xff0c, 0xff01, 0xff1f, 0xff1b, 0xff1a, 0x3001,
     0xff08, 0xff09, 0xff3b, 0xff3d, 0xff5b, 0xff5d, 0x3008, 0x3009, 0x300a, 0x300b, 0x300c, 0x300d,
     0x300e, 0x300f, 0x3010, 0x3011, 0x3014, 0x3015})"

definition is_quote_boundary :: "string \<Rightarrow> bool" where
  "is_quote_boundary u = (code_point u \<in> {0x22, 0x27, 0x2018, 0x2019, 0x201c, 0x201d})"

definition is_url_boundary :: "string \<Rightarrow> bool" where
  "is_url_boundary u = (is_whitespace u \<or> is_control u \<or> is_cjk_punctuation u \<or> is_quote_boundary u)"

definition matching_ascii_closer :: "string \<Rightarrow> string option" where
  "matching_ascii_closer u =
     (if u = ''('' then Some '')'' else if u = ''['' then Some '']''
      else if u = ''{'' then Some ''}'' else if u = ''<'' then Some ''>'' else None)"

definition is_ascii_closer :: "string \<Rightarrow> bool" where
  "is_ascii_closer u = (u \<in> {'')'', '']'', ''}'', ''>''})"

definition is_trailing_punctuation :: "string \<Rightarrow> bool" where
  "is_trailing_punctuation u =
     (u \<in> {''.'', '','', ''!'', ''?'', '';'', '':''} \<or> is_cjk_punctuation u)"

subsection \<open>Finding the links of a text\<close>

definition get_prefix :: "nat \<Rightarrow> string \<Rightarrow> string option" where
  \<comment> \<open>\<open>str::get(..n)\<close>\<close>
  "get_prefix n s = (if is_char_boundary s n then Some (take n s) else None)"

definition scheme_at :: "string \<Rightarrow> bool" where
  \<comment> \<open>the condition of the loop in \<open>find_next_scheme\<close>\<close>
  "scheme_at rest =
     ((case get_prefix 8 rest of None \<Rightarrow> False | Some p \<Rightarrow> eq_ignore_ascii_case p ''https://'') \<or>
      (case get_prefix 7 rest of None \<Rightarrow> False | Some p \<Rightarrow> eq_ignore_ascii_case p ''http://''))"

fun find_scheme_from :: "string list \<Rightarrow> nat \<Rightarrow> nat option" where
  "find_scheme_from [] offset = None"
| "find_scheme_from (u # us) offset =
     (if scheme_at (concat (u # us)) then Some offset else find_scheme_from us (offset + length u))"

definition find_next_scheme :: "string \<Rightarrow> nat option" where
  "find_next_scheme text = find_scheme_from (chars text) 0"

fun url_end_from :: "string list \<Rightarrow> nat \<Rightarrow> string list \<Rightarrow> nat option" where
  \<comment> \<open>the loop of \<open>find_url_end\<close>; the stack's top is the list's head, \<open>None\<close> that the text ends\<close>
  "url_end_from [] offset stack = None"
| "url_end_from (u # us) offset stack =
     (if is_url_boundary u then Some offset
      else case matching_ascii_closer u of
        Some closer \<Rightarrow> url_end_from us (offset + length u) (closer # stack)
      | None \<Rightarrow>
          if is_ascii_closer u
          then (case stack of
              closer # deeper \<Rightarrow>
                if closer = u then url_end_from us (offset + length u) deeper else Some offset
            | [] \<Rightarrow> Some offset)
          else url_end_from us (offset + length u) stack)"

definition find_url_end :: "string \<Rightarrow> nat \<Rightarrow> nat" where
  "find_url_end text start = (case url_end_from (chars (drop start text)) 0 [] of
      Some offset \<Rightarrow> start + offset
    | None \<Rightarrow> length text)"

definition clean_url_candidate :: "string \<Rightarrow> string" where
  "clean_url_candidate candidate =
     concat (rev (dropWhile is_trailing_punctuation (rev (chars candidate))))"

lemma eq_ignore_case_first:
  "eq_ignore_ascii_case (take (Suc n) rest) (d # ds) \<Longrightarrow> \<exists>c cs. rest = c # cs \<and> ascii_lower c = ascii_lower d"
  by (cases rest) (auto simp: eq_ignore_ascii_case_def to_ascii_lowercase_def)

lemma scheme_at_first:
  assumes "scheme_at rest"
  obtains c cs where "rest = c # cs" "ascii_lower c = CHR ''h''"
proof -
  have h: "ascii_lower (CHR ''h'') = CHR ''h''" by code_simp
  have "eq_ignore_ascii_case (take (Suc 7) rest) ''https://'' \<or> eq_ignore_ascii_case (take (Suc 6) rest) ''http://''"
    using assms by (auto simp: scheme_at_def get_prefix_def split: if_splits)
  then have "\<exists>c cs. rest = c # cs \<and> ascii_lower c = ascii_lower (CHR ''h'')"
    by (elim disjE eq_ignore_case_first)
  with h that show ?thesis by auto
qed

lemma lower_h: "ascii_lower c = CHR ''h'' \<Longrightarrow> c = CHR ''h'' \<or> c = CHR ''H''"
proof -
  assume a: "ascii_lower c = CHR ''h''"
  show ?thesis
  proof (cases "65 \<le> byte c \<and> byte c \<le> 90")
    case True
    then have "char_of (byte c + 32) = CHR ''h''" using a by (simp add: ascii_lower_def)
    then have "of_char (char_of (byte c + 32) :: char) = (of_char (CHR ''h'') :: nat)" by simp
    then have "byte c + 32 = 104" using True by simp
    then have "byte c = of_char (CHR ''H'')" by simp
    then show ?thesis unfolding byte_def by (metis of_char_eq_iff)
  next
    case False
    then show ?thesis using a by (simp add: ascii_lower_def split: if_splits)
  qed
qed

lemma h_passes:
  assumes "c = CHR ''h'' \<or> c = CHR ''H''"
  shows "utf8_width c = 1" "\<not> is_url_boundary [c]" "matching_ascii_closer [c] = None" "\<not> is_ascii_closer [c]"
  using assms by (auto simp: utf8_width_def byte_def is_url_boundary_def is_whitespace_def is_control_def
      is_cjk_punctuation_def is_quote_boundary_def code_point_def matching_ascii_closer_def is_ascii_closer_def)

lemma url_end_from_bounds:
  "url_end_from us offset stack = Some e \<Longrightarrow> offset \<le> e \<and> e \<le> offset + length (concat us)"
  by (induction us offset stack rule: url_end_from.induct) (force split: if_splits option.splits list.splits)+

lemma find_scheme_from_Some:
  "find_scheme_from us offset = Some k \<Longrightarrow>
     \<exists>a b. us = a @ b \<and> k = offset + length (concat a) \<and> scheme_at (concat b)
       \<and> (\<forall>a' u a''. a = a' @ u # a'' \<longrightarrow> \<not> scheme_at (concat (u # a'' @ b)))"
proof (induction us arbitrary: offset)
  case (Cons u us)
  show ?case
  proof (cases "scheme_at (concat (u # us))")
    case True
    then show ?thesis using Cons.prems by (intro exI[of _ "[]"] exI[of _ "u # us"]) auto
  next
    case False
    then have "find_scheme_from us (offset + length u) = Some k" using Cons.prems by simp
    from Cons.IH[OF this] obtain a b where ab: "us = a @ b" "k = offset + length u + length (concat a)"
      "scheme_at (concat b)" "\<forall>a' u a''. a = a' @ u # a'' \<longrightarrow> \<not> scheme_at (concat (u # a'' @ b))"
      by blast
    have "\<forall>a' v a''. u # a = a' @ v # a'' \<longrightarrow> \<not> scheme_at (concat (v # a'' @ b))"
      using ab(1,4) False by (auto simp: Cons_eq_append_conv)
    then show ?thesis using ab by (intro exI[of _ "u # a"] exI[of _ b]) auto
  qed
qed simp

lemma find_next_scheme_found:
  assumes "find_next_scheme text = Some k"
  shows "k < length text" "scheme_at (drop k text)"
proof -
  obtain a b where ab: "chars text = a @ b" "k = length (concat a)" "scheme_at (concat b)"
    using find_scheme_from_Some[OF assms[unfolded find_next_scheme_def]] by auto
  have "text = concat a @ concat b" using arg_cong[OF ab(1), of concat] by simp
  then have d: "drop k text = concat b" using ab(2) by simp
  with ab(3) show "scheme_at (drop k text)" by simp
  from d ab(3) show "k < length text" by (metis drop_all list.distinct(1) not_le scheme_at_first)
qed

lemma find_url_end_advances:
  assumes "scheme_at (drop start text)"
  shows "start < find_url_end text start" "find_url_end text start \<le> length text"
proof -
  obtain c cs where c: "drop start text = c # cs" "ascii_lower c = CHR ''h''"
    using scheme_at_first[OF assms] by metis
  have h: "c = CHR ''h'' \<or> c = CHR ''H''" using lower_h[OF c(2)] .
  have us: "chars (drop start text) = [c] # chars cs" using h_passes(1)[OF h] by (simp add: c(1))
  have short: "start < length text" using c(1) by (metis drop_all list.distinct(1) not_le)
  have len: "length (concat (chars (drop start text))) = length text - start" by simp
  show "start < find_url_end text start"
    using h_passes[OF h] short
    by (auto simp: find_url_end_def us split: option.split dest!: url_end_from_bounds)
  show "find_url_end text start \<le> length text"
    using short url_end_from_bounds[of "chars (drop start text)" 0 "[]"] len
    by (auto simp: find_url_end_def simp del: concat_chars split: option.split)
qed

definition accept_url :: "(string \<Rightarrow> url_view option) \<Rightarrow> string \<Rightarrow> string list" where
  \<comment> \<open>what the loop of \<open>extract_http_urls\<close> pushes for a candidate\<close>
  "accept_url parse candidate = (case parse candidate of
      Some parsed \<Rightarrow> if uv_scheme parsed \<in> {''http'', ''https''} then [uv_string parsed] else []
    | None \<Rightarrow> [])"

function extract_http_urls_from ::
  "(string \<Rightarrow> url_view option) \<Rightarrow> string \<Rightarrow> nat \<Rightarrow> string list" where
  \<comment> \<open>the loop of \<open>extract_http_urls\<close>\<close>
  "extract_http_urls_from parse text search_start =
     (case find_next_scheme (drop search_start text) of
        None \<Rightarrow> []
      | Some relative_start \<Rightarrow>
          let start = search_start + relative_start;
              url_end = find_url_end text start;
              candidate = clean_url_candidate (take (url_end - start) (drop start text))
          in accept_url parse candidate @ extract_http_urls_from parse text url_end)"
  by pat_completeness auto
termination
proof (relation "measure (\<lambda>(_, text, search_start). length text - search_start)", simp)
  fix parse :: "string \<Rightarrow> url_view option" and msg search_start k start url_end candidate
  assume "find_next_scheme (drop search_start msg) = Some k" "start = search_start + k"
    and e: "url_end = find_url_end msg start"
  then have k: "k < length (drop search_start msg)" "scheme_at (drop start msg)"
    using find_next_scheme_found[of "drop search_start msg" k] by (simp_all add: add.commute)
  from find_url_end_advances[OF k(2)] k(1) \<open>start = search_start + k\<close> e
  show "((parse, msg, url_end), parse, msg, search_start)
      \<in> measure (\<lambda>(_, text, search_start). length text - search_start)"
    by simp
qed

definition extract_http_urls :: "(string \<Rightarrow> url_view option) \<Rightarrow> string \<Rightarrow> string list" where
  "extract_http_urls parse text = extract_http_urls_from parse text 0"

declare extract_http_urls_from.simps [simp del]

subsection \<open>Classification of a link\<close>

definition ends_with :: "string \<Rightarrow> string \<Rightarrow> bool" where
  "ends_with s tail = (length tail \<le> length s \<and> drop (length s - length tail) s = tail)"

definition strip_suffix :: "string \<Rightarrow> string \<Rightarrow> string option" where
  "strip_suffix s tail = (if ends_with s tail then Some (take (length s - length tail) s) else None)"

definition domain_or_subdomain :: "string \<Rightarrow> string \<Rightarrow> bool" where
  "domain_or_subdomain host domain =
     (host = domain \<or> (case strip_suffix host domain of None \<Rightarrow> False | Some p \<Rightarrow> ends_with p ''.''))"

definition is_youtube_host :: "string \<Rightarrow> bool" where
  "is_youtube_host host = (host = ''youtu.be'' \<or> domain_or_subdomain host ''youtube.com''
     \<or> domain_or_subdomain host ''youtube-nocookie.com'')"

definition parse_unsigned :: "nat \<Rightarrow> string \<Rightarrow> nat option" where
  \<comment> \<open>\<open>str::parse\<close> for an unsigned integer of that many bits: an optional plus sign, then digits\<close>
  "parse_unsigned bits s = (let
       digits = (case s of CHR ''+'' # d # ds \<Rightarrow> d # ds | _ \<Rightarrow> s);
       n = foldl (\<lambda>acc c. 10 * acc + (byte c - 48)) 0 digits
     in if digits \<noteq> [] \<and> list_all is_ascii_digit digits \<and> n < 2 ^ bits then Some n else None)"

definition lower_host :: "url_view \<Rightarrow> string option" where
  "lower_host url = map_option to_ascii_lowercase (uv_host url)"

definition is_b23_short_link_url :: "route_env \<Rightarrow> string \<Rightarrow> bool" where
  "is_b23_short_link_url env raw_url = (case re_parse env raw_url of
      None \<Rightarrow> False
    | Some url \<Rightarrow> uv_scheme url \<in> {''http'', ''https''}
        \<and> (case uv_host url of None \<Rightarrow> False | Some host \<Rightarrow> eq_ignore_ascii_case host ''b23.tv'')
        \<and> uv_username url = [] \<and> uv_password url = None)"

definition has_positive_episode_id :: "url_view \<Rightarrow> bool" where
  "has_positive_episode_id url = list_ex (\<lambda>(name, value). name = ''ep_id''
     \<and> (case parse_unsigned 64 value of None \<Rightarrow> False | Some n \<Rightarrow> n > 0)) (uv_query url)"

definition is_bilibili_ugc_collection_url :: "route_env \<Rightarrow> string \<Rightarrow> bool" where
  "is_bilibili_ugc_collection_url env raw_url = (case re_parse env raw_url of
      None \<Rightarrow> False
    | Some url \<Rightarrow> (case lower_host url of
        None \<Rightarrow> False
      | Some host \<Rightarrow>
          if \<not> domain_or_subdomain host ''bilibili.com'' then False
          else case re_input env raw_url of
              Some (InCollectionList _) \<Rightarrow> True
            | Some (InSeriesList _) \<Rightarrow> True
            | Some InSpaceCollectionList \<Rightarrow> True
            | Some InSpaceSeriesList \<Rightarrow> True
            | _ \<Rightarrow> False))"

definition bilibili_bvid_from_url :: "route_env \<Rightarrow> string \<Rightarrow> string option" where
  "bilibili_bvid_from_url env raw_url = (case re_input env raw_url of
      Some (InBvid bvid) \<Rightarrow> Some bvid | _ \<Rightarrow> None)"

definition bilibili_url_ep_id_selects_episode :: "route_env \<Rightarrow> string \<Rightarrow> bool" where
  "bilibili_url_ep_id_selects_episode env raw_url = (case re_parse env raw_url of
      None \<Rightarrow> False
    | Some url \<Rightarrow> has_positive_episode_id url
        \<and> (case re_input env raw_url of Some (InEpisode _) \<Rightarrow> True | _ \<Rightarrow> False))"

definition is_bilibili_opus_path :: "string list \<Rightarrow> bool" where
  "is_bilibili_opus_path segments = (case segments of s # _ \<Rightarrow> s = ''opus'' | [] \<Rightarrow> False)"

definition has_bilibili_opus_path :: "url_view \<Rightarrow> bool" where
  "has_bilibili_opus_path url = (case uv_segments url of
      None \<Rightarrow> False | Some segments \<Rightarrow> is_bilibili_opus_path segments)"

definition is_bilibili_standard_video_url :: "url_view \<Rightarrow> bool" where
  "is_bilibili_standard_video_url url = (case uv_segments url of
      Some (first # video_id # _) \<Rightarrow>
        first = ''video'' \<and> (starts_with video_id ''BV'' \<or> starts_with video_id ''av'')
    | _ \<Rightarrow> False)"

definition is_bilibili_intl_video_url :: "url_view \<Rightarrow> bool" where
  "is_bilibili_intl_video_url url = (case uv_segments url of
      Some (_ # play # _ # episode_id # _) \<Rightarrow>
        play = ''play'' \<and> episode_id \<noteq> [] \<and> list_all is_ascii_digit episode_id
    | _ \<Rightarrow> False)"

definition is_bilibili_video_url :: "string \<Rightarrow> url_view \<Rightarrow> bool" where
  "is_bilibili_video_url host url =
     (if domain_or_subdomain host ''bilibili.tv'' then is_bilibili_intl_video_url url
      else if \<not> domain_or_subdomain host ''bilibili.com'' \<or> has_bilibili_opus_path url then False
      else is_bilibili_standard_video_url url
        \<or> (case uv_segments url of
             Some (first # second # _) \<Rightarrow> first = ''bangumi'' \<and> second \<in> {''play'', ''media''}
           | _ \<Rightarrow> False))"

definition bilibili_selection_from_url :: "route_env \<Rightarrow> string \<Rightarrow> bilibili_selection option" where
  "bilibili_selection_from_url env raw_url = (case re_parse env raw_url of
      None \<Rightarrow> None
    | Some url \<Rightarrow> (case lower_host url of
        None \<Rightarrow> None
      | Some host \<Rightarrow>
          let is_b23_short_link = is_b23_short_link_url env raw_url in
          if \<not> is_b23_short_link
             \<and> (\<not> domain_or_subdomain host ''bilibili.com'' \<or> \<not> is_bilibili_standard_video_url url)
          then None
          else if \<not> is_b23_short_link \<and> has_positive_episode_id url then None
          else case find (\<lambda>(name, _). name = ''p'') (uv_query url) of
              None \<Rightarrow> None
            | Some (_, value) \<Rightarrow> (case parse_unsigned 32 value of
                None \<Rightarrow> None
              | Some page \<Rightarrow> if page > 0 then Some (SelPage (of_nat page)) else None)))"

definition bilibili_url_requires_selection :: "route_env \<Rightarrow> string \<Rightarrow> bool" where
  "bilibili_url_requires_selection env raw_url = (case re_parse env raw_url of
      None \<Rightarrow> False
    | Some url \<Rightarrow> (case lower_host url of
        None \<Rightarrow> False
      | Some host \<Rightarrow>
          if \<not> domain_or_subdomain host ''bilibili.com'' then False
          else if has_positive_episode_id url then False
          else case uv_segments url of
              Some (first # second # item # _) \<Rightarrow>
                first = ''bangumi'' \<and> ((second = ''play'' \<and> starts_with item ''ss'')
                  \<or> (second = ''media'' \<and> starts_with item ''md''))
            | _ \<Rightarrow> False))"

fun label :: "job_request \<Rightarrow> string" where
  "label (BilibiliJob _ _) = ''Bilibili download''"
| "label (YoutubeJob _) = ''YouTube download''"
| "label (PdfJob _) = ''PDF capture''"

fun requires_bilibili_selection :: "route_env \<Rightarrow> job_request \<Rightarrow> bool" where
  "requires_bilibili_selection env (BilibiliJob url selection) =
     (selection = None \<and> bilibili_url_requires_selection env url)"
| "requires_bilibili_selection env (YoutubeJob _) = False"
| "requires_bilibili_selection env (PdfJob _) = False"

definition classify_bilibili_opus_url :: "route_env \<Rightarrow> string \<Rightarrow> job_request option" where
  "classify_bilibili_opus_url env raw_url = (case re_parse env raw_url of
      None \<Rightarrow> None
    | Some url \<Rightarrow> (case lower_host url of
        None \<Rightarrow> None
      | Some host \<Rightarrow>
          if \<not> domain_or_subdomain host ''bilibili.com'' then None
          else case uv_segments url of
              None \<Rightarrow> None
            | Some segments \<Rightarrow>
                if \<not> is_bilibili_opus_path segments then None
                else case tl segments of
                    [] \<Rightarrow> None
                  | opus_id # _ \<Rightarrow>
                      if opus_id = [] \<or> \<not> list_all is_ascii_digit opus_id then None
                      else Some (PdfJob (''https://www.bilibili.com/opus/'' @ opus_id))))"

definition classify_video_url :: "route_env \<Rightarrow> string \<Rightarrow> job_request option" where
  "classify_video_url env raw_url = (case re_parse env raw_url of
      None \<Rightarrow> None
    | Some url \<Rightarrow> (case lower_host url of
        None \<Rightarrow> None
      | Some host \<Rightarrow>
          if is_b23_short_link_url env raw_url \<or> is_bilibili_video_url host url
             \<or> is_bilibili_ugc_collection_url env raw_url
          then Some (BilibiliJob raw_url (bilibili_selection_from_url env raw_url))
          else if is_youtube_host host then Some (YoutubeJob raw_url)
          else None))"

definition classify_auto_pdf_url ::
  "route_env \<Rightarrow> string \<Rightarrow> string list \<Rightarrow> job_request option" where
  "classify_auto_pdf_url env raw_url auto_pdf_domains = (case re_parse env raw_url of
      None \<Rightarrow> None
    | Some url \<Rightarrow> (case lower_host url of
        None \<Rightarrow> None
      | Some host \<Rightarrow>
          if list_ex (\<lambda>domain. domain_or_subdomain host (to_ascii_lowercase domain)) auto_pdf_domains
          then Some (PdfJob raw_url) else None))"

definition classify_url :: "route_env \<Rightarrow> string \<Rightarrow> string list \<Rightarrow> job_request option" where
  "classify_url env raw_url auto_pdf_domains = (case classify_bilibili_opus_url env raw_url of
      Some job \<Rightarrow> Some job
    | None \<Rightarrow> (case classify_video_url env raw_url of
        Some job \<Rightarrow> Some job
      | None \<Rightarrow> classify_auto_pdf_url env raw_url auto_pdf_domains))"

subsection \<open>Routing a message\<close>

definition is_help_command :: "string \<Rightarrow> bool" where
  "is_help_command msg = (case split_whitespace msg of
      [] \<Rightarrow> False | first # _ \<Rightarrow> first = ''/help'' \<or> starts_with first ''/help@'')"

definition command_args :: "string \<Rightarrow> string \<Rightarrow> string option" where
  \<comment> \<open>the common body of \<open>pdf_command_args\<close> and \<open>bbdown_command_args\<close>\<close>
  "command_args name msg = (case split_whitespace msg of
      [] \<Rightarrow> None
    | first # _ \<Rightarrow>
        if first = name \<or> starts_with first (name @ ''@'') then Some (trim (drop (length first) msg))
        else None)"

definition pdf_command_args :: "string \<Rightarrow> string option" where
  "pdf_command_args msg = command_args ''/pdf'' msg"

definition bbdown_command_args :: "string \<Rightarrow> string option" where
  "bbdown_command_args msg = command_args ''/bbdown'' msg"

definition parse_bilibili_auth_login_mode :: "string option \<Rightarrow> login_mode option" where
  "parse_bilibili_auth_login_mode mode = (case mode of
      None \<Rightarrow> Some LoginWeb
    | Some m \<Rightarrow> if m \<in> {''web'', ''cookie''} then Some LoginWeb
        else if m = ''tv'' then Some LoginTv
        else if m \<in> {''access-key'', ''access_key'', ''accesskey'', ''intl'', ''bstar''}
        then Some LoginAccessKey
        else None)"

definition auth_command_of :: "string list \<Rightarrow> route_result" where
  \<comment> \<open>the match on the words after \<open>/bbdown\<close> in \<open>route_message\<close>\<close>
  "auth_command_of parts = (case parts of
      [] \<Rightarrow> RBilibiliAuthUsage
    | command # modes \<Rightarrow>
        if command = ''login''
        then (case parse_bilibili_auth_login_mode (case modes of [] \<Rightarrow> None | m # _ \<Rightarrow> Some m) of
            Some mode \<Rightarrow> if tl modes = [] then RBilibiliAuth (AuthLogin mode) else RBilibiliAuthUsage
          | None \<Rightarrow> RBilibiliAuthUsage)
        else if command = ''status'' \<and> modes = [] then RBilibiliAuth AuthStatus
        else if command = ''logout'' \<and> modes = [] then RBilibiliAuth AuthLogout
        else RBilibiliAuthUsage)"

definition route_message :: "route_env \<Rightarrow> string \<Rightarrow> string list \<Rightarrow> route_result" where
  "route_message env msg auto_pdf_domains = (let trimmed = trim msg in
     if trimmed = [] then REmpty
     else if is_help_command trimmed then RHelp
     else case bbdown_command_args trimmed of
         Some args \<Rightarrow> auth_command_of (split_whitespace args)
       | None \<Rightarrow> (case pdf_command_args trimmed of
           Some pdf_args \<Rightarrow>
             (let jobs = map PdfJob (extract_http_urls (re_parse env) pdf_args) in
              if jobs = [] then RPdfUsage else RJobs jobs)
         | None \<Rightarrow>
             (let urls = extract_http_urls (re_parse env) trimmed;
                  jobs = List.map_filter (\<lambda>url. classify_url env url auto_pdf_domains) urls
              in if jobs \<noteq> [] then RJobs jobs
                 else if urls = [] then REmpty else RUnsupportedLinks)))"

subsection \<open>The links found are the links of the text\<close>

definition utf8_text :: "string \<Rightarrow> bool" where
  \<comment> \<open>every byte after a character's first one is a continuation byte, as in every Rust string\<close>
  "utf8_text s = list_all (\<lambda>u. list_all (\<lambda>c. 128 \<le> byte c) (tl u)) (chars s)"

fun brackets :: "string list \<Rightarrow> string list \<Rightarrow> string list option" where
  \<comment> \<open>the closers still expected after some characters; \<open>None\<close> when one closes nothing\<close>
  "brackets [] expected = Some expected"
| "brackets (u # us) expected = (case matching_ascii_closer u of
      Some closer \<Rightarrow> brackets us (closer # expected)
    | None \<Rightarrow>
        if is_ascii_closer u then (if expected \<noteq> [] \<and> hd expected = u then brackets us (tl expected) else None)
        else brackets us expected)"

definition link_stop :: "string list \<Rightarrow> string \<Rightarrow> bool" where
  \<comment> \<open>the character after a link: a boundary, or a closer that closes nothing in the link\<close>
  "link_stop expected u =
     (is_url_boundary u \<or> (is_ascii_closer u \<and> (expected = [] \<or> hd expected \<noteq> u)))"

definition link_span :: "string \<Rightarrow> nat \<times> nat \<Rightarrow> bool" where
  "link_span s span = (case span of (a, b) \<Rightarrow>
     a < b \<and> b \<le> length s \<and> scheme_at (drop a s)
     \<and> list_all (\<lambda>u. \<not> is_url_boundary u) (chars (take (b - a) (drop a s)))
     \<and> (case brackets (chars (take (b - a) (drop a s))) [] of
          None \<Rightarrow> False
        | Some expected \<Rightarrow> b = length s \<or> link_stop expected (hd (chars (drop b s)))))"

definition span_text :: "string \<Rightarrow> nat \<times> nat \<Rightarrow> string" where
  "span_text s span = (case span of (a, b) \<Rightarrow> take (b - a) (drop a s))"

function link_spans :: "string \<Rightarrow> nat \<Rightarrow> (nat \<times> nat) list" where
  "link_spans s search_start = (case find_next_scheme (drop search_start s) of
      None \<Rightarrow> []
    | Some k \<Rightarrow> (search_start + k, find_url_end s (search_start + k))
                # link_spans s (find_url_end s (search_start + k)))"
  by pat_completeness auto
termination
proof (relation "measure (\<lambda>(s, search_start). length s - search_start)", simp)
  fix s search_start k
  assume "find_next_scheme (drop search_start s) = Some k"
  then have k: "k < length (drop search_start s)" "scheme_at (drop (search_start + k) s)"
    using find_next_scheme_found[of "drop search_start s" k] by (simp_all add: add.commute)
  from find_url_end_advances[OF k(2)] k(1)
  show "((s, find_url_end s (search_start + k)), s, search_start)
      \<in> measure (\<lambda>(s, search_start). length s - search_start)"
    by simp
qed

declare link_spans.simps [simp del]

lemma extract_as_spans:
  "extract_http_urls_from parse s start =
     concat (map (\<lambda>span. accept_url parse (clean_url_candidate (span_text s span))) (link_spans s start))"
proof (induction s start rule: link_spans.induct)
  case (1 s start)
  then show ?case
    by (subst extract_http_urls_from.simps, subst link_spans.simps)
       (auto simp: Let_def span_text_def split: option.split)
qed

lemma chars_split:
  "chars s = p @ q \<Longrightarrow> chars (concat p) = p \<and> chars (concat q) = q"
proof (induction s arbitrary: p rule: chars.induct)
  case (2 c cs)
  show ?case
  proof (cases p)
    case Nil
    then show ?thesis using 2(2) by (metis append_Nil chars.simps(1) concat.simps(1) concat_chars)
  next
    case (Cons u p')
    let ?w = "utf8_width c - 1"
    have u: "u = c # take ?w cs" and rest: "chars (drop ?w cs) = p' @ q"
      using 2(2) Cons by auto
    note IH = 2(1)[OF rest]
    have "chars (u @ concat p') = u # p'"
    proof (cases "length cs \<le> ?w")
      case True
      then have "p' = []" using rest by simp
      then show ?thesis by (simp add: u)
    next
      case False
      then have "take ?w (take ?w cs @ concat p') = take ?w cs" "drop ?w (take ?w cs @ concat p') = concat p'"
        by simp_all
      then show ?thesis using IH by (simp add: u)
    qed
    then show ?thesis using IH Cons by simp
  qed
qed simp

lemma utf8_text_append:
  "chars s = p @ q \<Longrightarrow> utf8_text s \<Longrightarrow> utf8_text (concat q)"
  using chars_split[of s p q] by (simp add: utf8_text_def)

lemma no_scheme_inside_char:
  assumes "list_all (\<lambda>c. 128 \<le> byte c) (tl u)" "0 < j" "j < length u"
  shows "\<not> scheme_at (drop j u @ r)"
proof
  assume "scheme_at (drop j u @ r)"
  then obtain c cs where c: "drop j u @ r = c # cs" "ascii_lower c = CHR ''h''" by (rule scheme_at_first)
  have "c = u ! j" using c(1) assms(3) by (simp add: Cons_nth_drop_Suc[symmetric])
  moreover have "u ! j \<in> set (tl u)" using assms(2,3)
    by (metis Suc_pred length_tl less_diff_conv nth_mem nth_tl Suc_eq_plus1)
  ultimately have "128 \<le> byte c" using assms(1) by (simp add: list_all_iff)
  then show False using lower_h[OF c(2)] by (auto simp: byte_def)
qed

lemma find_scheme_from_first:
  assumes "list_all (\<lambda>u. list_all (\<lambda>c. 128 \<le> byte c) (tl u)) us" "k < length (concat us)"
    "scheme_at (drop k (concat us))"
  shows "\<exists>j. find_scheme_from us offset = Some j \<and> j \<le> offset + k"
  using assms
proof (induction us arbitrary: offset k)
  case (Cons u us)
  show ?case
  proof (cases "scheme_at (concat (u # us))")
    case False
    then have k0: "0 < k" using Cons.prems(3) by (cases k) auto
    have "length u \<le> k"
    proof (rule ccontr)
      assume "\<not> length u \<le> k"
      then show False using no_scheme_inside_char[of u k "concat us"] Cons.prems k0 by simp
    qed
    then show ?thesis using Cons.IH[of "k - length u" "offset + length u"] Cons.prems False by auto
  qed simp
qed simp

lemma url_end_from_stops:
  "\<exists>p q expected. us = p @ q \<and> list_all (\<lambda>u. \<not> is_url_boundary u) p \<and> brackets p stack = Some expected
     \<and> (case url_end_from us offset stack of
          None \<Rightarrow> q = []
        | Some e \<Rightarrow> e = offset + length (concat p) \<and> q \<noteq> [] \<and> link_stop expected (hd q))"
    (is "\<exists>p q expected. ?P us offset stack p q expected")
proof (induction us offset stack rule: url_end_from.induct)
  case (1 offset stack)
  have "?P [] offset stack [] [] stack" by simp
  then show ?case by blast
next
  case (2 u us offset stack)
  have advance: ?case if "\<not> is_url_boundary u"
      "url_end_from (u # us) offset stack = url_end_from us (offset + length u) stack'"
      "\<And>p. brackets (u # p) stack = brackets p stack'"
      "\<exists>p q expected. ?P us (offset + length u) stack' p q expected" for stack'
  proof -
    from that(4) obtain p q expected where "?P us (offset + length u) stack' p q expected" by blast
    then have "?P (u # us) offset stack (u # p) q expected"
      unfolding that(2,3) using that(1) by (auto simp del: url_end_from.simps brackets.simps split: option.splits)
    then show ?thesis by blast
  qed
  have stop: ?case if "link_stop stack u" "url_end_from (u # us) offset stack = Some offset"
  proof -
    have "?P (u # us) offset stack [] (u # us) stack" using that by simp
    then show ?thesis by blast
  qed
  consider (boundary) "is_url_boundary u"
    | (opens) closer where "\<not> is_url_boundary u" "matching_ascii_closer u = Some closer"
    | (closes) deeper where "\<not> is_url_boundary u" "matching_ascii_closer u = None" "is_ascii_closer u" "stack = u # deeper"
    | (unpaired) "\<not> is_url_boundary u" "matching_ascii_closer u = None" "is_ascii_closer u"
        "stack = [] \<or> hd stack \<noteq> u"
    | (plain) "\<not> is_url_boundary u" "matching_ascii_closer u = None" "\<not> is_ascii_closer u"
    by (cases "matching_ascii_closer u"; cases stack) auto
  then show ?case
  proof cases
    case boundary
    then show ?thesis by (intro stop) (simp_all add: link_stop_def)
  next
    case opens
    have "\<exists>p q expected. ?P us (offset + length u) (closer # stack) p q expected"
      by (rule 2) (use opens in simp_all)
    then show ?thesis using opens by (intro advance[of "closer # stack"]) simp_all
  next
    case closes
    have "\<exists>p q expected. ?P us (offset + length u) deeper p q expected"
      by (rule 2) (use closes in simp_all)
    then show ?thesis using closes by (intro advance[of deeper]) simp_all
  next
    case unpaired
    then show ?thesis by (intro stop) (auto simp: link_stop_def split: list.split)
  next
    case plain
    have "\<exists>p q expected. ?P us (offset + length u) stack p q expected"
      by (rule 2) (use plain in simp_all)
    then show ?thesis using plain by (intro advance[of stack]) simp_all
  qed
qed

lemma find_url_end_span:
  assumes "scheme_at (drop a s)"
  shows "link_span s (a, find_url_end s a)"
proof -
  let ?t = "drop a s" and ?b = "find_url_end s a"
  obtain p q expected where pq: "chars ?t = p @ q" "list_all (\<lambda>u. \<not> is_url_boundary u) p"
    "brackets p [] = Some expected"
    "case url_end_from (chars ?t) 0 [] of None \<Rightarrow> q = []
     | Some e \<Rightarrow> e = 0 + length (concat p) \<and> q \<noteq> [] \<and> link_stop expected (hd q)"
    using url_end_from_stops[where us = "chars ?t" and offset = 0 and stack = "[]"] by blast
  have t: "?t = concat p @ concat q" using arg_cong[OF pq(1), of concat] by simp
  have len: "a < length s" using scheme_at_first[OF assms] by (metis drop_all list.distinct(1) not_le)
  then have tl: "length s = a + length (concat p) + length (concat q)"
    using arg_cong[OF t, of length] by simp
  have b: "?b = a + length (concat p) \<and> (?b = length s \<or> (q \<noteq> [] \<and> link_stop expected (hd q)))"
    using pq(4) tl by (cases "url_end_from (chars ?t) 0 []") (simp_all add: find_url_end_def)
  then have piece: "take (?b - a) ?t = concat p" "drop ?b s = concat q"
    using t by (simp_all add: add.commute[of a] flip: drop_drop)
  show ?thesis
    unfolding link_span_def prod.case piece conjunct1[OF chars_split[OF pq(1)]]
      conjunct2[OF chars_split[OF pq(1)]]
    using find_url_end_advances[OF assms] assms pq(2,3) b by auto
qed

lemma utf8_text_drop_end:
  assumes "utf8_text (drop a s)" "scheme_at (drop a s)"
  shows "utf8_text (drop (find_url_end s a) s)"
proof -
  let ?t = "drop a s"
  obtain p q expected where pq: "chars ?t = p @ q"
    "case url_end_from (chars ?t) 0 [] of None \<Rightarrow> q = []
     | Some e \<Rightarrow> e = 0 + length (concat p) \<and> q \<noteq> [] \<and> link_stop expected (hd q)"
    using url_end_from_stops[where us = "chars ?t" and offset = 0 and stack = "[]"] by blast
  have t: "?t = concat p @ concat q" using arg_cong[OF pq(1), of concat] by simp
  have "drop (find_url_end s a) s = concat q"
  proof (cases "url_end_from (chars ?t) 0 []")
    case None
    then show ?thesis using pq(2) by (simp add: find_url_end_def)
  next
    case (Some e)
    then show ?thesis using pq(2) t by (simp add: find_url_end_def add.commute[of a] flip: drop_drop)
  qed
  then show ?thesis using utf8_text_append[OF pq(1) assms(1)] by simp
qed

lemma find_next_scheme_drop:
  assumes "find_next_scheme (drop start s) = Some k"
  shows "scheme_at (drop (start + k) s)" "start + k < length s"
  using find_next_scheme_found[OF assms] by (simp_all add: add.commute)

lemma find_next_scheme_utf8:
  assumes "find_next_scheme t = Some k" "utf8_text t"
  shows "utf8_text (drop k t)"
proof -
  obtain a b where ab: "chars t = a @ b" "k = length (concat a)"
    using find_scheme_from_Some[OF assms(1)[unfolded find_next_scheme_def]] by auto
  have "t = concat a @ concat b" using arg_cong[OF ab(1), of concat] by simp
  then have "drop k t = concat b" using ab(2) by simp
  then show ?thesis using utf8_text_append[OF ab(1) assms(2)] by simp
qed

lemma find_next_scheme_first:
  assumes "utf8_text t" "scheme_at (drop k t)"
  shows "\<exists>j\<le>k. find_next_scheme t = Some j"
proof -
  have "k < length t" using scheme_at_first[OF assms(2)] by (metis drop_all list.distinct(1) not_le)
  then show ?thesis
    using find_scheme_from_first[of "chars t" k 0] assms by (auto simp: find_next_scheme_def utf8_text_def)
qed

lemma link_spans_correct:
  assumes "utf8_text (drop start s)"
  shows "sorted_wrt (\<lambda>x y. snd x \<le> fst y) (link_spans s start)
    \<and> list_all (link_span s) (link_spans s start) \<and> list_all (\<lambda>x. start \<le> fst x) (link_spans s start)
    \<and> (\<forall>k\<ge>start. scheme_at (drop k s) \<longrightarrow> list_ex (\<lambda>(a, b). a \<le> k \<and> k < b) (link_spans s start))"
  using assms
proof (induction s start rule: link_spans.induct)
  case (1 s start)
  have first: "\<exists>j\<le>k - start. find_next_scheme (drop start s) = Some j" if "start \<le> k" "scheme_at (drop k s)" for k
    using find_next_scheme_first[OF 1(2), of "k - start"] that by simp
  show ?case
  proof (cases "find_next_scheme (drop start s)")
    case None
    then have "link_spans s start = []" by (subst link_spans.simps) simp
    then show ?thesis using first None by auto
  next
    case (Some k)
    let ?a = "start + k" let ?b = "find_url_end s ?a"
    have L: "link_spans s start = (?a, ?b) # link_spans s ?b"
      using Some by (subst link_spans.simps) simp
    note a = find_next_scheme_drop[OF Some]
    have "utf8_text (drop ?a s)" using find_next_scheme_utf8[OF Some 1(2)] by (simp add: add.commute)
    note IH = 1(1)[OF Some utf8_text_drop_end[OF this a(1)]]
    have ab: "?a < ?b" using find_url_end_advances[OF a(1)] by simp
    have "list_ex (\<lambda>(a, b). a \<le> j \<and> j < b) ((?a, ?b) # link_spans s ?b)"
      if "start \<le> j" "scheme_at (drop j s)" for j
    proof (cases "j < ?b")
      case True
      then show ?thesis using first[OF that] Some that(1) by auto
    next
      case False
      then show ?thesis using IH that(2) by simp
    qed
    then show ?thesis
      unfolding L using IH find_url_end_span[OF a(1)] ab by (auto simp: list_all_iff)
  qed
qed

text \<open>
  C22: The links of a message are found exactly. For every UTF-8 text there is a list of disjoint spans, in order,
  such that the result is what the URL parser accepts of the cleaned spans, in order; every span starts at
  \<open>http://\<close> or \<open>https://\<close> in any case, holds no white space, control character, quotation mark or CJK
  punctuation and no closing bracket without its opening one, and ends only at the end of the text, before such a
  character or before a closing bracket that closes nothing in it; and every position of the text where a scheme
  begins lies in one of the spans, so no link is overlooked.
\<close>
theorem extract_http_urls_exact:
  assumes "utf8_text msg"
  shows "\<exists>spans. extract_http_urls parse msg =
        concat (map (\<lambda>span. accept_url parse (clean_url_candidate (span_text msg span))) spans)
     \<and> sorted_wrt (\<lambda>x y. snd x \<le> fst y) spans \<and> list_all (link_span msg) spans
     \<and> (\<forall>k. scheme_at (drop k msg) \<longrightarrow> list_ex (\<lambda>(a, b). a \<le> k \<and> k < b) spans)"
  using link_spans_correct[of 0 msg] assms
  by (intro exI[of _ "link_spans msg 0"]) (simp add: extract_http_urls_def extract_as_spans)

theorem extract_http_urls_exact_witness:
  "\<exists>spans. extract_http_urls (\<lambda>c. Some \<lparr>uv_scheme = ''https'', uv_host = None, uv_segments = None,
         uv_query = [], uv_username = [], uv_password = None, uv_string = c\<rparr>) ''(https://a.b/c).''
       = concat (map (\<lambda>span. [clean_url_candidate (span_text ''(https://a.b/c).'' span)]) spans)
     \<and> list_ex (\<lambda>(a, b). a \<le> 1 \<and> 1 < b) spans"
proof -
  have u: "utf8_text ''(https://a.b/c).''" by (simp add: utf8_text_def utf8_width_def byte_def)
  have s: "scheme_at (drop 1 ''(https://a.b/c).'')"
    by (simp add: scheme_at_def get_prefix_def is_char_boundary_def byte_def eq_ignore_ascii_case_def
        to_ascii_lowercase_def ascii_lower_def)
  show ?thesis
    using extract_http_urls_exact[OF u, of "\<lambda>c. Some \<lparr>uv_scheme = ''https'', uv_host = None, uv_segments = None,
         uv_query = [], uv_username = [], uv_password = None, uv_string = c\<rparr>"] s
    by (auto simp: accept_url_def)
qed

subsection \<open>Which links become jobs\<close>

definition within_domain :: "string \<Rightarrow> string \<Rightarrow> bool" where
  "within_domain host domain = (host = domain \<or> suffix (''.'' @ domain) host)"

lemma ends_with_suffix: "ends_with s t \<longleftrightarrow> suffix t s"
  by (auto simp: ends_with_def suffix_def) (metis append_take_drop_id)

lemma domain_or_subdomain_within: "domain_or_subdomain host domain \<longleftrightarrow> within_domain host domain"
proof -
  have "(case strip_suffix host domain of None \<Rightarrow> False | Some p \<Rightarrow> ends_with p ''.'')
      \<longleftrightarrow> suffix (''.'' @ domain) host"
    by (auto simp: strip_suffix_def ends_with_suffix suffix_def)
  then show ?thesis by (simp add: domain_or_subdomain_def within_domain_def)
qed

definition bilibili_link :: "route_env \<Rightarrow> string \<Rightarrow> bool" where
  \<comment> \<open>a short link without credentials, or a host of one of the two sites\<close>
  "bilibili_link env url = (case re_parse env url of
      None \<Rightarrow> False
    | Some v \<Rightarrow> (case lower_host v of
        None \<Rightarrow> False
      | Some host \<Rightarrow>
          (host = ''b23.tv'' \<and> uv_username v = [] \<and> uv_password v = None)
          \<or> within_domain host ''bilibili.com'' \<or> within_domain host ''bilibili.tv''))"

definition youtube_link :: "route_env \<Rightarrow> string \<Rightarrow> bool" where
  "youtube_link env url = (case re_parse env url of
      None \<Rightarrow> False
    | Some v \<Rightarrow> (case lower_host v of
        None \<Rightarrow> False
      | Some host \<Rightarrow> host = ''youtu.be'' \<or> within_domain host ''youtube.com''
          \<or> within_domain host ''youtube-nocookie.com''))"

definition opus_link :: "string \<Rightarrow> bool" where
  "opus_link url = (\<exists>n. url = ''https://www.bilibili.com/opus/'' @ n \<and> n \<noteq> [] \<and> list_all is_ascii_digit n)"

definition auto_pdf_link :: "route_env \<Rightarrow> string list \<Rightarrow> string \<Rightarrow> bool" where
  "auto_pdf_link env domains url = (case re_parse env url of
      None \<Rightarrow> False
    | Some v \<Rightarrow> (case lower_host v of
        None \<Rightarrow> False
      | Some host \<Rightarrow> list_ex (\<lambda>d. within_domain host (to_ascii_lowercase d)) domains))"

fun job_allowed :: "route_env \<Rightarrow> string list \<Rightarrow> string list \<Rightarrow> job_request \<Rightarrow> bool" where
  "job_allowed env domains links (BilibiliJob url selection) =
     (url \<in> set links \<and> bilibili_link env url
      \<and> (case selection of None \<Rightarrow> True | Some (SelPage page) \<Rightarrow> page \<noteq> 0 | _ \<Rightarrow> False))"
| "job_allowed env domains links (YoutubeJob url) = (url \<in> set links \<and> youtube_link env url)"
| "job_allowed env domains links (PdfJob url) =
     (opus_link url \<or> (url \<in> set links \<and> auto_pdf_link env domains url))"

lemma lower_b23: "eq_ignore_ascii_case host ''b23.tv'' \<longleftrightarrow> to_ascii_lowercase host = ''b23.tv''"
proof -
  have "to_ascii_lowercase ''b23.tv'' = ''b23.tv''" by code_simp
  then show ?thesis by (simp add: eq_ignore_ascii_case_def)
qed

lemma short_link_is_bilibili: "is_b23_short_link_url env url \<Longrightarrow> bilibili_link env url"
  by (auto simp: is_b23_short_link_url_def bilibili_link_def lower_b23 lower_host_def split: option.splits)

lemma video_url_host:
  "is_bilibili_video_url host v \<Longrightarrow> within_domain host ''bilibili.com'' \<or> within_domain host ''bilibili.tv''"
  by (auto simp: is_bilibili_video_url_def domain_or_subdomain_within split: if_splits)

lemma ugc_collection_is_bilibili: "is_bilibili_ugc_collection_url env url \<Longrightarrow> bilibili_link env url"
  by (auto simp: is_bilibili_ugc_collection_url_def bilibili_link_def domain_or_subdomain_within
      split: option.splits if_splits)

lemma parse_unsigned_bound: "parse_unsigned bits s = Some n \<Longrightarrow> n < 2 ^ bits"
  by (auto simp: parse_unsigned_def Let_def split: if_splits)

lemma selection_is_page:
  assumes "bilibili_selection_from_url env url = Some sel"
  shows "\<exists>page. sel = SelPage page \<and> page \<noteq> 0"
proof -
  have "\<exists>n b. parse_unsigned 32 b = Some n \<and> 0 < n \<and> sel = SelPage (of_nat n)"
    using assms unfolding bilibili_selection_from_url_def Let_def
    by (fastforce split: option.split_asm if_split_asm prod.split_asm)
  then obtain n where n: "sel = SelPage (of_nat n)" "0 < n" "n < 2 ^ 32"
    using parse_unsigned_bound by blast
  then have "unat (of_nat n :: u32) = n" by (simp add: unsigned_of_nat take_bit_nat_eq_self)
  with n show ?thesis by (metis less_numeral_extra(3) unat_0)
qed

lemma classify_opus: "classify_bilibili_opus_url env url = Some job \<Longrightarrow> \<exists>u. job = PdfJob u \<and> opus_link u"
  unfolding classify_bilibili_opus_url_def opus_link_def
  by (auto split: option.splits if_splits list.splits)

lemma classify_video:
  assumes "classify_video_url env url = Some job"
  shows "job = BilibiliJob url (bilibili_selection_from_url env url) \<and> bilibili_link env url
       \<or> job = YoutubeJob url \<and> youtube_link env url"
proof -
  obtain v host where v: "re_parse env url = Some v" "lower_host v = Some host"
    using assms by (auto simp: classify_video_url_def split: option.splits)
  consider "job = BilibiliJob url (bilibili_selection_from_url env url)" "is_b23_short_link_url env url"
    | "job = BilibiliJob url (bilibili_selection_from_url env url)" "is_bilibili_video_url host v"
    | "job = BilibiliJob url (bilibili_selection_from_url env url)" "is_bilibili_ugc_collection_url env url"
    | "job = YoutubeJob url" "is_youtube_host host"
    using assms v by (auto simp: classify_video_url_def split: if_splits)
  then show ?thesis
  proof cases
    case 2
    then show ?thesis using v video_url_host[OF 2(2)] by (auto simp: bilibili_link_def)
  next
    case 4
    then show ?thesis using v by (auto simp: youtube_link_def is_youtube_host_def domain_or_subdomain_within)
  qed (auto intro: short_link_is_bilibili ugc_collection_is_bilibili)
qed

lemma classify_auto_pdf:
  "classify_auto_pdf_url env url domains = Some job \<Longrightarrow> job = PdfJob url \<and> auto_pdf_link env domains url"
  by (auto simp: classify_auto_pdf_url_def auto_pdf_link_def domain_or_subdomain_within
      split: option.splits if_splits)

lemma classify_allowed:
  assumes "classify_url env url domains = Some job" "url \<in> set links"
  shows "job_allowed env domains links job"
proof -
  consider "classify_bilibili_opus_url env url = Some job" | "classify_video_url env url = Some job"
    | "classify_auto_pdf_url env url domains = Some job"
    using assms(1) by (auto simp: classify_url_def split: option.splits)
  then show ?thesis
  proof cases
    case 1
    then show ?thesis using classify_opus[OF 1] by auto
  next
    case 2
    from classify_video[OF 2] show ?thesis
      using assms(2) selection_is_page[of env url]
      by (cases "bilibili_selection_from_url env url") auto
  next
    case 3
    then show ?thesis using classify_auto_pdf[OF 3] assms(2) by auto
  qed
qed

text \<open>
  C21: Only links to the supported sites become jobs. When a message is routed to jobs, there is at least one; after
  \<open>/pdf\<close> the jobs are the captures of exactly the links in its arguments, in order; otherwise every job is a
  Bilibili job for a link of the message whose host is \<open>b23.tv\<close> (without credentials) or equal to or below
  \<open>bilibili.com\<close> or \<open>bilibili.tv\<close>, with no selection or a page other than 0; or a YouTube job for a link of the
  message to one of the YouTube hosts; or the capture of a normalised opus address or of a link of the message to
  a configured domain. No job ends up for a host that merely ends with the letters of a supported domain.
\<close>
theorem route_message_jobs_allowed:
  assumes "route_message env msg domains = RJobs jobs"
  shows "jobs \<noteq> [] \<and> (case pdf_command_args (trim msg) of
      Some args \<Rightarrow> jobs = map PdfJob (extract_http_urls (re_parse env) args)
    | None \<Rightarrow> list_all (job_allowed env domains (extract_http_urls (re_parse env) (trim msg))) jobs)"
proof -
  let ?links = "extract_http_urls (re_parse env) (trim msg)"
  have auth: "auth_command_of parts \<noteq> RJobs jobs" for parts
    by (auto simp: auth_command_of_def split: list.split option.split)
  have "job_allowed env domains ?links job"
    if "job \<in> set (List.map_filter (\<lambda>url. classify_url env url domains) ?links)" for job
    using that by (auto simp: List.map_filter_def intro: classify_allowed)
  then show ?thesis
    using assms auth unfolding route_message_def Let_def
    by (auto simp: list_all_iff split: if_splits option.splits)
qed

definition example_video :: url_view where
  "example_video = \<lparr>uv_scheme = ''https'', uv_host = Some ''www.bilibili.com'',
     uv_segments = Some [''video'', ''BV1''], uv_query = [(''p'', ''3'')], uv_username = [], uv_password = None,
     uv_string = ''https://www.bilibili.com/video/BV1?p=3''\<rparr>"

definition example_route_env :: route_env where
  "example_route_env = \<lparr>re_parse = (\<lambda>_. Some example_video), re_input = (\<lambda>_. None)\<rparr>"

lemma example_links:
  "extract_http_urls (re_parse example_route_env) ''http://x'' = [''https://www.bilibili.com/video/BV1?p=3'']"
proof -
  have s: "find_next_scheme ''http://x'' = Some 0" "find_next_scheme [] = None"
    by (simp_all add: find_next_scheme_def utf8_width_def byte_def scheme_at_def get_prefix_def is_char_boundary_def
        eq_ignore_ascii_case_def to_ascii_lowercase_def ascii_lower_def)
  have e: "find_url_end ''http://x'' 0 = 8"
    by (simp add: find_url_end_def utf8_width_def byte_def is_url_boundary_def is_whitespace_def is_control_def
        code_point_def is_cjk_punctuation_def is_quote_boundary_def matching_ascii_closer_def is_ascii_closer_def)
  have last: "extract_http_urls_from p ''http://x'' 8 = []" for p
    by (subst extract_http_urls_from.simps) (simp add: s)
  show ?thesis
    unfolding extract_http_urls_def
    by (subst extract_http_urls_from.simps)
       (simp add: s e last Let_def example_route_env_def accept_url_def example_video_def)
qed

lemma example_classified:
  "classify_url example_route_env ''https://www.bilibili.com/video/BV1?p=3'' [] =
     Some (BilibiliJob ''https://www.bilibili.com/video/BV1?p=3'' (Some (SelPage 3)))"
proof -
  let ?v = example_video and ?u = "''https://www.bilibili.com/video/BV1?p=3''"
  have r: "re_parse example_route_env ?u = Some ?v" by (simp add: example_route_env_def)
  have h: "lower_host ?v = Some ''www.bilibili.com''"
    by (simp add: lower_host_def example_video_def to_ascii_lowercase_def ascii_lower_def byte_def)
  have d: "domain_or_subdomain ''www.bilibili.com'' ''bilibili.com''"
    "\<not> domain_or_subdomain ''www.bilibili.com'' ''bilibili.tv''"
    by (simp_all add: domain_or_subdomain_def strip_suffix_def ends_with_def)
  have s: "is_bilibili_standard_video_url ?v" "\<not> has_bilibili_opus_path ?v"
    by (simp_all add: is_bilibili_standard_video_url_def has_bilibili_opus_path_def is_bilibili_opus_path_def
        example_video_def)
  have b: "\<not> is_b23_short_link_url example_route_env ?u"
    by (simp add: is_b23_short_link_url_def r example_video_def eq_ignore_ascii_case_def to_ascii_lowercase_def)
  have q: "uv_query ?v = [(''p'', ''3'')]" "uv_segments ?v = Some [''video'', ''BV1'']" "\<not> has_positive_episode_id ?v"
    by (simp_all add: example_video_def has_positive_episode_id_def)
  have n: "parse_unsigned 32 ''3'' = Some 3"
    by (simp add: parse_unsigned_def Let_def is_ascii_digit_def byte_def)
  have sel: "bilibili_selection_from_url example_route_env ?u = Some (SelPage 3)"
    using d s by (simp add: bilibili_selection_from_url_def Let_def r h b n q)
  have opus: "classify_bilibili_opus_url example_route_env ?u = None"
    using d by (simp add: classify_bilibili_opus_url_def r h q is_bilibili_opus_path_def)
  have "classify_video_url example_route_env ?u = Some (BilibiliJob ?u (Some (SelPage 3)))"
    using d s by (simp add: classify_video_url_def r h sel is_bilibili_video_url_def)
  then show ?thesis by (simp add: classify_url_def opus)
qed

lemma example_routed:
  "route_message example_route_env ''http://x'' [] =
     RJobs [BilibiliJob ''https://www.bilibili.com/video/BV1?p=3'' (Some (SelPage 3))]"
proof -
  have t: "trim ''http://x'' = ''http://x''" and h: "\<not> is_help_command ''http://x''"
    and b: "bbdown_command_args ''http://x'' = None" and p: "pdf_command_args ''http://x'' = None"
    by (simp_all add: trim_def trim_start_def trim_end_def utf8_width_def byte_def is_whitespace_def
        is_help_command_def split_whitespace_def bbdown_command_args_def pdf_command_args_def command_args_def)
  show ?thesis
    unfolding route_message_def Let_def t b p using h by (simp add: example_links example_classified List.map_filter_def)
qed

theorem route_message_jobs_allowed_witness:
  "route_message example_route_env ''http://x'' [] =
     RJobs [BilibiliJob ''https://www.bilibili.com/video/BV1?p=3'' (Some (SelPage 3))]
   \<and> bilibili_link example_route_env ''https://www.bilibili.com/video/BV1?p=3''"
proof -
  have p: "pdf_command_args (trim ''http://x'') = None"
    by (simp add: trim_def trim_start_def trim_end_def utf8_width_def byte_def is_whitespace_def
        split_whitespace_def pdf_command_args_def command_args_def)
  show ?thesis
    using route_message_jobs_allowed[OF example_routed] example_routed by (simp add: p)
qed

end
