(* ===== verification/GroupRun.thy ===== *)
theory GroupRun
  imports TaskRecord EpisodeFailure Paths
begin

section \<open>Running a group of episodes (\<open>downloader.rs\<close>)\<close>

text \<open>
  \<open>run_bilibili_episode_group_with_inventory\<close> walks over the episodes of a series. For each it first tries to
  recover what an earlier run has published (the saved attempt, the publication receipts on disk, another entry
  with the same media, media found by a scan), and otherwise downloads the episode, with at most two retries. An
  error of the group's own work closes the attempt as interrupted.

  The state is a record: the attempt with the flag of its guard, the copy of the attempt the progress channel keeps
  with the events sent through it, and the local collections of the report. The file system and the network
  belong to a world of any type; the operations that inspect or change it (verifying media files, reading
  receipts, the scan, the child download, waiting) are the fields of \<open>group_io\<close>, each a function of the world.
  Messages that are only displayed are left out.
\<close>

subsection \<open>Entries, inventory and plan\<close>

record download_entry =
  de_index :: u32
  de_title :: string
  de_bvid :: "string option"
  de_aid :: u64
  de_cid :: u64
  de_epid :: "u64 option"

record group_entry =
  gn_download :: download_entry
  gn_stable_media_id :: string

datatype group_source = SourceVideo | SourceSeason | SourceCollection

record folder_identity =
  fi_device :: u64
  fi_inode :: u64
  fi_is_dir :: bool

record group_inventory =
  gv_title :: string
  gv_source :: group_source
  gv_pgc_season_id :: "u64 option"
  gv_entries :: "group_entry list"
  gv_output_template :: "string option"
  gv_output_folder :: "string option"
  gv_storage_folder :: "string option"
  gv_folder_identity :: "folder_identity option"
  gv_layout_version :: "u32 option"

definition is_bilibili_episode_group :: "job_request \<Rightarrow> bool" where
  "is_bilibili_episode_group job = (case job of
      BilibiliJob _ (Some selection) \<Rightarrow> selection = SelAll \<or> selection = SelMissing
    | _ \<Rightarrow> False)"

definition should_use_independent_group :: "bool \<Rightarrow> job_request \<Rightarrow> bool" where
  \<comment> \<open>the first argument is what \<open>bilibili_downloads_artifacts_only\<close> reads from the configuration\<close>
  "should_use_independent_group artifacts_only job =
     (if \<not> is_bilibili_episode_group job then False
      else case job of
          BilibiliJob _ (Some SelAll) \<Rightarrow> \<not> artifacts_only
        | _ \<Rightarrow> True)"

definition collection_directory_snapshot :: "group_inventory \<Rightarrow> collection_directory" where
  "collection_directory_snapshot v = (let
       directory_is_scoped = (gv_source v = SourceCollection
         \<or> (gv_source v = SourceSeason \<and> gv_layout_version v = Some 1))
     in case gv_storage_folder v of
          Some path \<Rightarrow>
            if \<not> directory_is_scoped then Untracked
            else (case gv_folder_identity v of
                Some i \<Rightarrow> ExistingDirectory path (fi_device i) (fi_inode i) (fi_is_dir i)
              | None \<Rightarrow> MissingDirectory path)
        | None \<Rightarrow> Untracked)"

definition entry_identities :: "group_inventory \<Rightarrow> group_entry_identity list" where
  "entry_identities v = map (\<lambda>e. \<lparr>ge_index = de_index (gn_download e), ge_title = de_title (gn_download e),
     ge_stable_media_id = gn_stable_media_id e\<rparr>) (gv_entries v)"

definition validation_snapshot :: "string \<Rightarrow> group_inventory \<Rightarrow> plan_snapshot" where
  "validation_snapshot media_profile v = default_plan\<lparr>
     pl_stable_media_ids := map gn_stable_media_id (gv_entries v),
     pl_media_profile := Some media_profile,
     pl_pgc_season_id := gv_pgc_season_id v,
     pl_pgc_episode_orders := (if gv_source v = SourceSeason then entry_identities v else []),
     pl_group_entries := entry_identities v,
     pl_collection_directory := collection_directory_snapshot v,
     pl_collection_layout_version := gv_layout_version v,
     pl_title := Some (gv_title v)\<rparr>"

definition bilibili_plan_stable_media_id ::
  "string option \<Rightarrow> u64 \<Rightarrow> u64 \<Rightarrow> u64 option \<Rightarrow> string" where
  "bilibili_plan_stable_media_id bvid aid cid epid = (let
       media_id = (case bvid of Some b \<Rightarrow> ''bvid:'' @ b | None \<Rightarrow> ''aid:'' @ dec_digits (unat aid));
       epid = (case epid of Some e \<Rightarrow> dec_digits (unat e) | None \<Rightarrow> ''none'')
     in media_id @ '':cid:'' @ dec_digits (unat cid) @ '':epid:'' @ epid)"

datatype download_mode = ModeAll | ModeVideoOnly | ModeAudioOnly | ModeOther

definition bilibili_missing_skip_mode_supported :: "download_mode \<Rightarrow> bool" where
  "bilibili_missing_skip_mode_supported mode = (mode = ModeAll \<or> mode = ModeVideoOnly \<or> mode = ModeAudioOnly)"

definition msg_error :: "string \<Rightarrow> any_error" where
  \<comment> \<open>\<open>anyhow!\<close> and \<open>bail!\<close>\<close>
  "msg_error m = \<lparr>error_chain = [\<lparr>message = m, as_io_error = None\<rparr>], downcast_disk_space = None\<rparr>"

subsection \<open>The streams confirmed for an entry\<close>

record confirmed_streams =
  cs_selected_format_ids :: "string list"
  cs_exact_sizes :: "plan_size list option"
  cs_resolution_codecs :: "string list"

definition bilibili_group_streams_for :: "plan_snapshot \<Rightarrow> string \<Rightarrow> confirmed_streams" where
  "bilibili_group_streams_for plan stable_media_id = (let prefix = stable_media_id @ '':'' in
     \<lparr>cs_selected_format_ids = filter (\<lambda>v. starts_with v prefix) (pl_selected_format_ids plan),
      cs_exact_sizes = Some (filter (\<lambda>size. starts_with (ps_subject size) prefix) (pl_exact_sizes plan)),
      cs_resolution_codecs = filter (\<lambda>v. starts_with v prefix) (pl_resolution_codecs plan)\<rparr>)"

definition bilibili_group_confirmed_streams_for :: "plan_snapshot \<Rightarrow> string \<Rightarrow> confirmed_streams option" where
  "bilibili_group_confirmed_streams_for plan stable_media_id =
     (if list_ex (\<lambda>i. i = stable_media_id) (pl_resolved_stream_ids plan)
      then Some (bilibili_group_streams_for plan stable_media_id) else None)"

definition framed :: "string \<Rightarrow> string" where
  \<comment> \<open>a value with its length before it, as it is fed to the digest\<close>
  "framed v = be_bytes 8 (length v) @ v"

definition streams_preimage :: "confirmed_streams \<Rightarrow> string" where
  "streams_preimage c =
     ''bilibili-group-selected-streams-v2'' @ [CHR 0x00]
     @ concat (map (\<lambda>values. be_bytes 8 (length values) @ concat (map framed values))
         [cs_selected_format_ids c, cs_resolution_codecs c])
     @ (case cs_exact_sizes c of
          Some exact_sizes \<Rightarrow> [CHR 0x01] @ be_bytes 8 (length exact_sizes)
            @ concat (map (\<lambda>size. framed (ps_subject size) @ framed (ps_provenance size)
                @ be_bytes 8 (unat (ps_bytes size))) exact_sizes)
        | None \<Rightarrow> [CHR 0x00])"

definition bilibili_group_entry_media_profile ::
  "(string \<Rightarrow> string) \<Rightarrow> string \<Rightarrow> confirmed_streams option \<Rightarrow> string" where
  "bilibili_group_entry_media_profile sha base confirmed = (case confirmed of
      None \<Rightarrow> base
    | Some c \<Rightarrow> base @ ''|resolved-v2:'' @ sha (streams_preimage c))"

definition validate_bilibili_group_confirmed_streams ::
  "u32 \<Rightarrow> string \<Rightarrow> confirmed_streams option \<Rightarrow> plan_snapshot \<Rightarrow> any_error + unit" where
  "validate_bilibili_group_confirmed_streams index stable_media_id expected current =
     (if expected \<noteq> Some (bilibili_group_streams_for current stable_media_id)
      then Inl (msg_error (''Bilibili media requirements changed since the reviewed plan: entry '' @ dec_digits (unat index)
        @ '' has new or changed resolved formats, exact sizes, or resolution/codecs; resume to review the updated plan before downloading''))
      else Inr ())"

subsection \<open>The inventory and the saved attempt agree\<close>

fun validate_saved_entries :: "attempt_snapshot \<Rightarrow> group_entry list \<Rightarrow> any_error + unit" where
  "validate_saved_entries previous [] = Inr ()"
| "validate_saved_entries previous (e # es) =
     (case find (\<lambda>saved. ae_index saved = de_index (gn_download e)) (sn_entries previous) of
        None \<Rightarrow> Inl (msg_error (''Bilibili group entry '' @ dec_digits (unat (de_index (gn_download e)))
          @ '' is missing from its saved inventory''))
      | Some saved \<Rightarrow>
          if ae_stable_media_id saved \<noteq> gn_stable_media_id e
          then Inl (msg_error (''Bilibili group entry '' @ dec_digits (unat (de_index (gn_download e)))
            @ '' changed identity since it was saved; inspect the group again''))
          else validate_saved_entries previous es)"

definition validate_group_plan ::
  "group_inventory \<Rightarrow> plan_snapshot \<Rightarrow> string \<Rightarrow> any_error + unit" where
  \<comment> \<open>the checks of \<open>validate_group_inventory_snapshot\<close> against an expected plan\<close>
  "validate_group_plan v expected current_media_profile =
     (if pl_collection_directory expected \<noteq> collection_directory_snapshot v
      then Inl (msg_error (if pl_collection_directory expected = Untracked \<and> gv_source v = SourceCollection
        then ''saved Bilibili collection output directory identity mismatch: the plan is untracked; inspect the group again''
        else ''Bilibili collection output directory identity changed since the reviewed plan; inspect the group again''))
      else if pl_stable_media_ids expected \<noteq> map gn_stable_media_id (gv_entries v)
      then Inl (msg_error ''Bilibili group inventory changed since the reviewed plan; inspect the group again'')
      else if pl_group_entries expected \<noteq> []
        \<and> map (\<lambda>e. (ge_index e, ge_stable_media_id e)) (pl_group_entries expected)
          \<noteq> map (\<lambda>e. (de_index (gn_download e), gn_stable_media_id e)) (gv_entries v)
      then Inl (msg_error ''Bilibili group episode numbering changed since the reviewed plan; inspect the group again'')
      else if (case pl_media_profile expected of None \<Rightarrow> False | Some profile \<Rightarrow> profile \<noteq> current_media_profile)
      then Inl (msg_error ''Bilibili media requirements changed since the reviewed plan; inspect the group again'')
      else Inr ())"

definition validate_group_previous ::
  "group_inventory \<Rightarrow> attempt_snapshot \<Rightarrow> any_error + unit" where
  "validate_group_previous v previous =
     (if \<not> sn_independent_entries previous \<or> length (sn_entries previous) \<noteq> length (gv_entries v)
      then Inl (msg_error ''saved Bilibili group inventory no longer matches the current selection'')
      else validate_saved_entries previous (gv_entries v))"

definition validate_group_inventory_snapshot ::
  "group_inventory \<Rightarrow> plan_snapshot option \<Rightarrow> attempt_snapshot option \<Rightarrow> string \<Rightarrow> any_error + unit" where
  "validate_group_inventory_snapshot v expected_plan previous current_media_profile =
     (case (case expected_plan of None \<Rightarrow> Inr () | Some plan \<Rightarrow> validate_group_plan v plan current_media_profile) of
        Inl e \<Rightarrow> Inl e
      | Inr _ \<Rightarrow> (case previous of None \<Rightarrow> Inr () | Some p \<Rightarrow> validate_group_previous v p))"

subsection \<open>Progress events and the guard of the attempt\<close>

datatype group_event = EvAttempt attempt_snapshot | EvEntry u32 attempt_update | EvStaging string | EvOther

record ('e, 'w) group_state =
  gs_snapshot :: attempt_snapshot
  gs_terminal :: bool
  gs_progress :: bool
  gs_sender :: "attempt_snapshot option"
  gs_events :: "group_event list"
  gs_paths :: "string list"
  gs_evidence :: "(download_entry \<times> 'e) list"
  gs_legacy :: "u32 list"
  gs_world :: 'w

type_synonym ('a, 'e, 'w) group_act = "('e, 'w) group_state \<Rightarrow> (any_error + 'a) \<times> ('e, 'w) group_state"

definition ret_group :: "'a \<Rightarrow> ('a, 'e, 'w) group_act" where
  "ret_group x = (\<lambda>s. (Inr x, s))"

definition fail_group :: "any_error \<Rightarrow> ('a, 'e, 'w) group_act" where
  "fail_group e = (\<lambda>s. (Inl e, s))"

definition bind_group ::
  "('a, 'e, 'w) group_act \<Rightarrow> ('a \<Rightarrow> ('b, 'e, 'w) group_act) \<Rightarrow> ('b, 'e, 'w) group_act" where
  \<comment> \<open>the \<open>?\<close> operator: an error ends the function\<close>
  "bind_group act f = (\<lambda>s. case act s of (Inl e, t) \<Rightarrow> (Inl e, t) | (Inr x, t) \<Rightarrow> f x t)"

definition change_group :: "(('e, 'w) group_state \<Rightarrow> ('e, 'w) group_state) \<Rightarrow> (unit, 'e, 'w) group_act" where
  "change_group f = (\<lambda>s. (Inr (), f s))"

definition read_group :: "(('e, 'w) group_state \<Rightarrow> 'a) \<Rightarrow> ('a, 'e, 'w) group_act" where
  "read_group f = (\<lambda>s. (Inr (f s), s))"

definition ask_world :: "('w \<Rightarrow> (any_error + 'a) \<times> 'w) \<Rightarrow> ('a, 'e, 'w) group_act" where
  "ask_world f = (\<lambda>s. case f (gs_world s) of (r, w) \<Rightarrow> (r, s\<lparr>gs_world := w\<rparr>))"

definition heard :: "group_event \<Rightarrow> attempt_snapshot option \<Rightarrow> attempt_snapshot option" where
  \<comment> \<open>what \<open>send_lifecycle\<close> does to the sender's own copy of the attempt\<close>
  "heard event copy = (case event of
      EvAttempt snapshot \<Rightarrow> Some snapshot
    | EvEntry index update \<Rightarrow> map_option (apply_update update index) copy
    | _ \<Rightarrow> copy)"

definition send_lifecycle :: "group_event \<Rightarrow> ('e, 'w) group_state \<Rightarrow> ('e, 'w) group_state" where
  "send_lifecycle event s =
     s\<lparr>gs_sender := heard event (gs_sender s), gs_events := gs_events s @ [event]\<rparr>"

definition tell :: "group_event \<Rightarrow> ('e, 'w) group_state \<Rightarrow> ('e, 'w) group_state" where
  \<comment> \<open>\<open>if let Some(progress)\<close>\<close>
  "tell event s = (if gs_progress s then send_lifecycle event s else s)"

definition send_snapshot :: "('e, 'w) group_state \<Rightarrow> ('e, 'w) group_state" where
  "send_snapshot s = tell (EvAttempt (gs_snapshot s)) s"

definition send_group_entry_update ::
  "u32 \<Rightarrow> attempt_update \<Rightarrow> ('e, 'w) group_state \<Rightarrow> ('e, 'w) group_state" where
  "send_group_entry_update index update s =
     tell (EvEntry index update) (s\<lparr>gs_snapshot := apply_update update index (gs_snapshot s)\<rparr>)"

definition finish_guard :: "attempt_outcome \<Rightarrow> ('e, 'w) group_state \<Rightarrow> ('e, 'w) group_state" where
  "finish_guard outcome s =
     (send_snapshot (s\<lparr>gs_snapshot := finish outcome (gs_snapshot s)\<rparr>))\<lparr>gs_terminal := True\<rparr>"

definition drop_guard :: "('e, 'w) group_state \<Rightarrow> ('e, 'w) group_state" where
  \<comment> \<open>\<open>Drop for BilibiliGroupAttemptGuard\<close>\<close>
  "drop_guard s = (if gs_terminal s then s else finish_guard OInterrupted s)"

definition progress_entry :: "u32 \<Rightarrow> ('e, 'w) group_state \<Rightarrow> attempt_entry option" where
  "progress_entry index s = (if \<not> gs_progress s then None else case gs_sender s of
      None \<Rightarrow> None
    | Some copy \<Rightarrow> find (\<lambda>e. ae_index e = index) (sn_entries copy))"

definition copy_stage_from_progress :: "u32 \<Rightarrow> ('e, 'w) group_state \<Rightarrow> ('e, 'w) group_state" where
  "copy_stage_from_progress index s = (case progress_entry index s of
      None \<Rightarrow> s
    | Some e \<Rightarrow> if ae_stage e = [] then s
        else s\<lparr>gs_snapshot := stage_started index (ae_stage e) (gs_snapshot s)\<rparr>)"

definition set_first ::
  "u32 \<Rightarrow> (attempt_entry \<Rightarrow> attempt_entry) \<Rightarrow> attempt_snapshot \<Rightarrow> attempt_snapshot" where
  \<comment> \<open>\<open>entries.iter_mut().find(|entry| entry.index == index)\<close>, updated\<close>
  "set_first index f s = s\<lparr>sn_entries := update_first (\<lambda>e. ae_index e = index) f (sn_entries s)\<rparr>"

definition copy_publication_receipt_from_progress ::
  "u32 \<Rightarrow> ('e, 'w) group_state \<Rightarrow> ('e, 'w) group_state" where
  "copy_publication_receipt_from_progress index s = (case progress_entry index s of
      None \<Rightarrow> s
    | Some e \<Rightarrow>
        if ae_media_paths e = [] \<or> ae_media_hashes e = []
           \<or> find (\<lambda>saved. ae_index saved = index) (sn_entries (gs_snapshot s)) = None
        then s
        else send_snapshot (s\<lparr>gs_snapshot := set_first index
               (\<lambda>saved. saved\<lparr>ae_media_paths := ae_media_paths e, ae_media_hashes := ae_media_hashes e\<rparr>)
               (gs_snapshot s)\<rparr>))"

definition cleared_for_redownload :: "attempt_entry \<Rightarrow> attempt_entry" where
  "cleared_for_redownload e = e\<lparr>ae_state := Pending, ae_stage := [], ae_error := None, ae_media_paths := [],
     ae_media_hashes := [], ae_already_present := False, ae_requires_redownload := True\<rparr>"

definition count_already_present :: "attempt_snapshot \<Rightarrow> attempt_snapshot" where
  "count_already_present s = s\<lparr>sn_skipped_entries := count_where ae_already_present (sn_entries s)\<rparr>"

definition mark_requires_redownload :: "u32 \<Rightarrow> ('e, 'w) group_state \<Rightarrow> ('e, 'w) group_state" where
  "mark_requires_redownload index s =
     send_snapshot (s\<lparr>gs_snapshot :=
       count_already_present (set_first index cleared_for_redownload (gs_snapshot s))\<rparr>)"

definition saved_entry :: "u32 \<Rightarrow> ('e, 'w) group_state \<Rightarrow> attempt_entry option" where
  "saved_entry index s = find (\<lambda>saved. ae_index saved = index) (sn_entries (gs_snapshot s))"

definition pause_message :: "string \<Rightarrow> nat \<Rightarrow> any_error \<Rightarrow> string" where
  "pause_message title verified e = redact_sensitive_text (''Bilibili group '' @ title
     @ '' was interrupted after '' @ dec_digits verified @ '' verified entries: '' @ display_chain e)"

definition pause_group :: "string \<Rightarrow> any_error \<Rightarrow> ('a, 'e, 'w) group_act" where
  "pause_group title e = (\<lambda>s.
     (Inl (msg_error (pause_message title (verified_entries (gs_snapshot s)) e)), finish_guard OInterrupted s))"

definition or_pause :: "string \<Rightarrow> ('a, 'e, 'w) group_act \<Rightarrow> ('a, 'e, 'w) group_act" where
  \<comment> \<open>\<open>Err(error) => return pause_bilibili_episode_group(..)\<close>\<close>
  "or_pause title act = (\<lambda>s. case act s of (Inl e, t) \<Rightarrow> pause_group title e t | (Inr x, t) \<Rightarrow> (Inr x, t))"

subsection \<open>The file system, the receipts and the child downloads\<close>

record 'e verification =
  vf_paths :: "string list"
  vf_hashes :: hash_map
  vf_evidence :: "'e list"

datatype 'r receipt_lookup = ReceiptMissing | ReceiptProfileMismatch | ReceiptFound 'r

record ('e, 'r, 'w) group_io =
  gi_lock :: "'w \<Rightarrow> (any_error + unit) \<times> 'w"
  gi_in_folder :: "string option \<Rightarrow> string list \<Rightarrow> 'w \<Rightarrow> (any_error + bool) \<times> 'w"
  gi_verify_outputs ::
    "download_entry \<Rightarrow> string list \<Rightarrow> 'e list option \<Rightarrow> 'w \<Rightarrow> (any_error + 'e verification) \<times> 'w"
  gi_load_receipt ::
    "string \<Rightarrow> string \<Rightarrow> string option \<Rightarrow> string option \<Rightarrow> 'w \<Rightarrow> (any_error + 'r receipt_lookup) \<times> 'w"
  gi_verify_receipt ::
    "download_entry \<Rightarrow> 'r \<Rightarrow> string option \<Rightarrow> string option \<Rightarrow> 'w
       \<Rightarrow> (any_error + 'e verification option) \<times> 'w"
  gi_execute :: "group_entry \<Rightarrow> 'w \<Rightarrow> (any_error + string list) \<times> group_event list \<times> 'w"
  gi_find_existing :: "group_entry \<Rightarrow> 'w \<Rightarrow> (any_error + 'e option) \<times> 'w"
  gi_record_evidence :: "(download_entry \<times> 'e) list \<Rightarrow> 'w \<Rightarrow> (any_error + unit) \<times> 'w"
  gi_wait :: "nat \<Rightarrow> 'w \<Rightarrow> 'w"
  gi_normalize :: "(download_entry \<times> 'e) list \<Rightarrow> 'w \<Rightarrow> (any_error + (download_entry \<times> 'e) list) \<times> 'w"
  gi_evidence_path :: "'e \<Rightarrow> string"
  gi_sha :: "string \<Rightarrow> string"
  gi_disk_errnos :: "int list"

record group_run =
  gr_inventory :: group_inventory
  gr_missing :: bool
  gr_media_profile :: string
  gr_namespace :: "string option"
  gr_folder :: "string option"
  gr_plan :: "plan_snapshot option"
  gr_had_previous :: bool
  gr_scope :: "u32 list option"

definition stored_output_needles :: "string list" where
  "stored_output_needles = [''published bilibili media is missing'', ''published bilibili media identity changed'',
     ''published bilibili identity sidecar changed'', ''published bilibili identity sidecar object changed'',
     ''published media disappeared before hashing'', ''published media identity changed before hashing'']"

definition is_stored_group_output_invalid :: "any_error \<Rightarrow> bool" where
  "is_stored_group_output_invalid e =
     contains_any (to_ascii_lowercase (display_chain e)) stored_output_needles"

definition revalidate_group_snapshot_entry ::
  "('e, 'r, 'w) group_io \<Rightarrow> download_entry \<Rightarrow> attempt_entry \<Rightarrow> string option
     \<Rightarrow> ('e verification option, 'e, 'w) group_act" where
  "revalidate_group_snapshot_entry io entry saved folder =
     (if ae_media_paths saved = [] \<or> ae_media_hashes saved = [] then ret_group None
      else bind_group (ask_world (gi_in_folder io folder (ae_media_paths saved))) (\<lambda>inside.
        if \<not> inside then ret_group None
        else (\<lambda>s. case ask_world (gi_verify_outputs io entry (ae_media_paths saved) None) s of
            (Inl e, t) \<Rightarrow> if is_stored_group_output_invalid e then (Inr None, t) else (Inl e, t)
          | (Inr v, t) \<Rightarrow> if vf_hashes v \<noteq> ae_media_hashes saved then (Inr None, t) else (Inr (Some v), t))))"

definition legacy_scope_fallback_enabled :: "group_inventory \<Rightarrow> bool" where
  "legacy_scope_fallback_enabled v =
     (gv_source v = SourceSeason \<and> gv_layout_version v = Some 1 \<and> gv_storage_folder v \<noteq> None)"

definition revalidate_legacy_attempt_entry ::
  "('e, 'r, 'w) group_io \<Rightarrow> group_inventory \<Rightarrow> group_entry \<Rightarrow> attempt_entry
     \<Rightarrow> ('e verification option, 'e, 'w) group_act" where
  "revalidate_legacy_attempt_entry io v entry saved = (let d = gn_download entry in
     if \<not> legacy_scope_fallback_enabled v \<or> ae_index saved \<noteq> de_index d
        \<or> ae_stable_media_id saved \<noteq> gn_stable_media_id entry
        \<or> gn_stable_media_id entry \<noteq> bilibili_plan_stable_media_id (de_bvid d) (de_aid d) (de_cid d) (de_epid d)
     then ret_group None
     else revalidate_group_snapshot_entry io d saved None)"

definition found_receipt ::
  "('e, 'r, 'w) group_io \<Rightarrow> group_entry \<Rightarrow> string \<Rightarrow> string \<Rightarrow> string option
     \<Rightarrow> ('e verification option, 'e, 'w) group_act" where
  \<comment> \<open>the receipt of an entry under a namespace, verified when there is one\<close>
  "found_receipt io entry profile namespace folder =
     bind_group (ask_world (gi_load_receipt io (gn_stable_media_id entry) profile (Some namespace) folder))
       (\<lambda>found. case found of
          ReceiptFound receipt \<Rightarrow>
            ask_world (gi_verify_receipt io (gn_download entry) receipt (Some namespace) folder)
        | _ \<Rightarrow> ret_group None)"

definition verify_legacy_season_receipt ::
  "('e, 'r, 'w) group_io \<Rightarrow> group_inventory \<Rightarrow> group_entry \<Rightarrow> string \<Rightarrow> string option
     \<Rightarrow> ('e verification option, 'e, 'w) group_act" where
  "verify_legacy_season_receipt io v entry profile namespace =
     (if \<not> legacy_scope_fallback_enabled v then ret_group None
      else case namespace of
          None \<Rightarrow> ret_group None
        | Some ns \<Rightarrow> if trim ns = [] then ret_group None else found_receipt io entry profile ns None)"

definition recover_publication_before_retry ::
  "('e, 'r, 'w) group_io \<Rightarrow> group_entry \<Rightarrow> attempt_entry \<Rightarrow> string \<Rightarrow> string option \<Rightarrow> string option
     \<Rightarrow> ('e verification option, 'e, 'w) group_act" where
  "recover_publication_before_retry io entry saved profile namespace folder =
     bind_group
       (if ae_media_paths saved \<noteq> [] \<and> ae_media_hashes saved \<noteq> []
           \<and> ae_stable_media_id saved = gn_stable_media_id entry
        then revalidate_group_snapshot_entry io (gn_download entry) saved folder
        else ret_group None)
       (\<lambda>found. case found of
          Some v \<Rightarrow> ret_group (Some v)
        | None \<Rightarrow> (case namespace of
            None \<Rightarrow> ret_group None
          | Some ns \<Rightarrow> found_receipt io entry profile ns folder))"

definition validate_paths_in_folder ::
  "('e, 'r, 'w) group_io \<Rightarrow> string option \<Rightarrow> string list \<Rightarrow> (unit, 'e, 'w) group_act" where
  "validate_paths_in_folder io folder paths =
     (if folder = None then ret_group ()
      else bind_group (ask_world (gi_in_folder io folder paths)) (\<lambda>inside.
        if inside then ret_group ()
        else fail_group (msg_error ''Bilibili group publication receipt identity mismatch: media paths do not belong to the selected collection output directory'')))"

subsection \<open>One entry: recovering what is already published\<close>

datatype entry_flow = EntryDone | EntryOpen bool   \<comment> \<open>open entries carry \<open>must_redownload\<close>\<close>

definition entry_index :: "group_entry \<Rightarrow> u32" where
  "entry_index entry = de_index (gn_download entry)"

definition group_title :: "group_run \<Rightarrow> string" where
  "group_title gr = gv_title (gr_inventory gr)"

definition confirmed_for :: "group_run \<Rightarrow> group_entry \<Rightarrow> confirmed_streams option" where
  "confirmed_for gr entry = (case gr_plan gr of
      None \<Rightarrow> None
    | Some plan \<Rightarrow> bilibili_group_confirmed_streams_for plan (gn_stable_media_id entry))"

definition entry_profile :: "('e, 'r, 'w) group_io \<Rightarrow> group_run \<Rightarrow> group_entry \<Rightarrow> string" where
  "entry_profile io gr entry =
     bilibili_group_entry_media_profile (gi_sha io) (gr_media_profile gr) (confirmed_for gr entry)"

definition add_report ::
  "download_entry \<Rightarrow> 'e verification \<Rightarrow> ('e, 'w) group_state \<Rightarrow> ('e, 'w) group_state" where
  "add_report d v s = s\<lparr>gs_paths := gs_paths s @ vf_paths v,
     gs_evidence := gs_evidence s @ map (\<lambda>e. (d, e)) (vf_evidence v)\<rparr>"

definition note_legacy :: "u32 \<Rightarrow> ('e, 'w) group_state \<Rightarrow> ('e, 'w) group_state" where
  "note_legacy index s = s\<lparr>gs_legacy := index # gs_legacy s\<rparr>"

definition adopt ::
  "('e, 'r, 'w) group_io \<Rightarrow> group_run \<Rightarrow> group_entry \<Rightarrow> attempt_update \<Rightarrow> 'e verification
     \<Rightarrow> (entry_flow, 'e, 'w) group_act" where
  \<comment> \<open>update the attempt, record the evidence in the shared index, add to the report\<close>
  "adopt io gr entry update v =
     bind_group (change_group (send_group_entry_update (entry_index entry) update)) (\<lambda>_.
     bind_group (or_pause (group_title gr)
         (ask_world (gi_record_evidence io (map (\<lambda>e. (gn_download entry, e)) (vf_evidence v))))) (\<lambda>_.
     bind_group (change_group (add_report (gn_download entry) v)) (\<lambda>_. ret_group EntryDone)))"

definition recovered_update :: "bool \<Rightarrow> 'e verification \<Rightarrow> attempt_update" where
  "recovered_update missing v =
     (if missing then AlreadyPresent (vf_paths v) (vf_hashes v) else UVerified (vf_paths v) (vf_hashes v))"

definition redownload :: "group_entry \<Rightarrow> (entry_flow, 'e, 'w) group_act" where
  "redownload entry = bind_group (change_group (mark_requires_redownload (entry_index entry)))
     (\<lambda>_. ret_group (EntryOpen True))"

definition check_verified ::
  "('e, 'r, 'w) group_io \<Rightarrow> group_run \<Rightarrow> group_entry \<Rightarrow> attempt_entry \<Rightarrow> (entry_flow, 'e, 'w) group_act" where
  "check_verified io gr entry saved =
     bind_group (or_pause (group_title gr)
         (revalidate_group_snapshot_entry io (gn_download entry) saved (gr_folder gr))) (\<lambda>found. case found of
       Some v \<Rightarrow> bind_group (change_group (add_report (gn_download entry) v)) (\<lambda>_. ret_group EntryDone)
     | None \<Rightarrow>
         bind_group (or_pause (group_title gr)
             (revalidate_legacy_attempt_entry io (gr_inventory gr) entry saved)) (\<lambda>legacy. case legacy of
           Some v \<Rightarrow> bind_group (change_group (note_legacy (entry_index entry))) (\<lambda>_.
             bind_group (change_group (add_report (gn_download entry) v)) (\<lambda>_. ret_group EntryDone))
         | None \<Rightarrow> redownload entry))"

definition recover_saved ::
  "('e, 'r, 'w) group_io \<Rightarrow> group_run \<Rightarrow> group_entry \<Rightarrow> bool \<Rightarrow> bool \<Rightarrow> (entry_flow, 'e, 'w) group_act" where
  "recover_saved io gr entry should_recover must =
     (if \<not> should_recover \<or> must then ret_group (EntryOpen must)
      else bind_group (read_group (saved_entry (entry_index entry))) (\<lambda>found. case found of
          None \<Rightarrow> ret_group (EntryOpen must)
        | Some saved \<Rightarrow>
            if ae_media_paths saved = [] \<or> ae_media_hashes saved = []
               \<or> ae_stable_media_id saved \<noteq> gn_stable_media_id entry
            then ret_group (EntryOpen must)
            else bind_group (or_pause (group_title gr)
                (revalidate_group_snapshot_entry io (gn_download entry) saved (gr_folder gr))) (\<lambda>r. case r of
                Some v \<Rightarrow> adopt io gr entry (recovered_update (gr_missing gr) v) v
              | None \<Rightarrow>
                  bind_group (or_pause (group_title gr)
                      (revalidate_legacy_attempt_entry io (gr_inventory gr) entry saved)) (\<lambda>l. case l of
                    Some v \<Rightarrow> bind_group (change_group (note_legacy (entry_index entry))) (\<lambda>_.
                      adopt io gr entry (recovered_update (gr_missing gr) v) v)
                  | None \<Rightarrow> redownload entry))))"

definition recover_receipt ::
  "('e, 'r, 'w) group_io \<Rightarrow> group_run \<Rightarrow> group_entry \<Rightarrow> bool \<Rightarrow> bool \<Rightarrow> (entry_flow, 'e, 'w) group_act" where
  "recover_receipt io gr entry should_lookup must =
     (if \<not> should_lookup \<or> must then ret_group (EntryOpen must)
      else bind_group (or_pause (group_title gr) (ask_world (gi_load_receipt io (gn_stable_media_id entry)
               (entry_profile io gr entry) (gr_namespace gr) (gr_folder gr)))) (\<lambda>found. case found of
          ReceiptMissing \<Rightarrow> ret_group (EntryOpen must)
        | ReceiptProfileMismatch \<Rightarrow> redownload entry
        | ReceiptFound receipt \<Rightarrow>
            bind_group (or_pause (group_title gr) (ask_world (gi_verify_receipt io (gn_download entry) receipt
                 (gr_namespace gr) (gr_folder gr)))) (\<lambda>r. case r of
              Some v \<Rightarrow> adopt io gr entry (recovered_update (gr_missing gr) v) v
            | None \<Rightarrow> redownload entry)))"

definition recover_legacy_receipt ::
  "('e, 'r, 'w) group_io \<Rightarrow> group_run \<Rightarrow> group_entry \<Rightarrow> bool \<Rightarrow> bool \<Rightarrow> (entry_flow, 'e, 'w) group_act" where
  "recover_legacy_receipt io gr entry should_lookup must =
     (if \<not> should_lookup \<or> must then ret_group (EntryOpen must)
      else bind_group (or_pause (group_title gr) (verify_legacy_season_receipt io (gr_inventory gr) entry
               (entry_profile io gr entry) (gr_namespace gr))) (\<lambda>r. case r of
          Some v \<Rightarrow> bind_group (change_group (note_legacy (entry_index entry))) (\<lambda>_.
            adopt io gr entry (recovered_update (gr_missing gr) v) v)
        | None \<Rightarrow> ret_group (EntryOpen must)))"

definition sibling_receipt :: "group_entry \<Rightarrow> ('e, 'w) group_state \<Rightarrow> attempt_entry option" where
  "sibling_receipt entry s = find (\<lambda>saved. ae_index saved \<noteq> entry_index entry \<and> ae_state saved = Verified
     \<and> \<not> ae_requires_redownload saved \<and> ae_stable_media_id saved = gn_stable_media_id entry)
     (sn_entries (gs_snapshot s))"

definition recover_sibling ::
  "('e, 'r, 'w) group_io \<Rightarrow> group_run \<Rightarrow> group_entry \<Rightarrow> bool \<Rightarrow> bool \<Rightarrow> (entry_flow, 'e, 'w) group_act" where
  "recover_sibling io gr entry should_recover must =
     (if \<not> gr_missing gr \<or> \<not> should_recover \<or> must then ret_group (EntryOpen must)
      else bind_group (read_group (sibling_receipt entry)) (\<lambda>found. case found of
          None \<Rightarrow> ret_group (EntryOpen must)
        | Some prior \<Rightarrow>
            bind_group (or_pause (group_title gr)
                (revalidate_group_snapshot_entry io (gn_download entry) prior (gr_folder gr))) (\<lambda>r. case r of
              Some v \<Rightarrow> adopt io gr entry (UVerified (vf_paths v) (vf_hashes v)) v
            | None \<Rightarrow> ret_group (EntryOpen must))))"

definition recover_existing ::
  "('e, 'r, 'w) group_io \<Rightarrow> group_run \<Rightarrow> group_entry \<Rightarrow> bool \<Rightarrow> bool \<Rightarrow> (entry_flow, 'e, 'w) group_act" where
  "recover_existing io gr entry should_recover must =
     (if \<not> gr_missing gr \<or> \<not> should_recover \<or> must then ret_group (EntryOpen must)
      else bind_group (or_pause (group_title gr) (ask_world (gi_find_existing io entry))) (\<lambda>found. case found of
          None \<Rightarrow> ret_group (EntryOpen must)
        | Some existing \<Rightarrow>
            bind_group (or_pause (group_title gr) (ask_world (gi_verify_outputs io (gn_download entry)
                [gi_evidence_path io existing] (Some [existing])))) (\<lambda>v.
              adopt io gr entry (recovered_update (gr_missing gr) v) v)))"

fun first_recovery :: "(bool \<Rightarrow> (entry_flow, 'e, 'w) group_act) list \<Rightarrow> bool \<Rightarrow> (entry_flow, 'e, 'w) group_act" where
  "first_recovery [] must = ret_group (EntryOpen must)"
| "first_recovery (attempt # others) must = bind_group (attempt must) (\<lambda>flow. case flow of
      EntryDone \<Rightarrow> ret_group EntryDone
    | EntryOpen must_now \<Rightarrow> first_recovery others must_now)"

definition recover_entry ::
  "('e, 'r, 'w) group_io \<Rightarrow> group_run \<Rightarrow> group_entry \<Rightarrow> attempt_entry \<Rightarrow> bool \<Rightarrow> (entry_flow, 'e, 'w) group_act" where
  \<comment> \<open>\<open>saved\<close> is the entry as it was before this run looked at it\<close>
  "recover_entry io gr entry saved must = (let
       missing_selection_check = (gr_missing gr \<and> ae_state saved \<noteq> Verified);
       recover_prior_publication = (\<not> gr_missing gr \<and> (ae_attempts saved > 0 \<or> ae_state saved \<noteq> Pending));
       should_recover = (missing_selection_check \<or> recover_prior_publication);
       should_lookup = (gr_namespace gr \<noteq> None \<or> (gr_missing gr \<and> (gr_had_previous gr \<or> should_recover)))
     in first_recovery [recover_saved io gr entry should_recover, recover_receipt io gr entry should_lookup,
          recover_legacy_receipt io gr entry should_lookup, recover_sibling io gr entry should_recover,
          recover_existing io gr entry should_recover] must)"

subsection \<open>One entry: downloading it\<close>

definition forward_child_event ::
  "u32 \<Rightarrow> string \<Rightarrow> string \<Rightarrow> group_event \<Rightarrow> ('e, 'w) group_state \<Rightarrow> ('e, 'w) group_state" where
  \<comment> \<open>the lifecycle branch of \<open>bridge_bilibili_group_child_progress\<close>\<close>
  "forward_child_event index media_id profile event s = (case event of
      EvStaging path \<Rightarrow> send_lifecycle (EvStaging path) s
    | EvEntry _ (Stage stage) \<Rightarrow> send_lifecycle (EvEntry index (Stage stage)) s
    | EvAttempt snapshot \<Rightarrow>
        (case find (\<lambda>e. ae_index e = index \<and> ae_stable_media_id e = media_id) (sn_entries snapshot) of
           None \<Rightarrow> s
         | Some receipt \<Rightarrow>
             if sn_media_profile snapshot \<noteq> Some profile \<or> ae_media_paths receipt = [] \<or> ae_media_hashes receipt = []
             then s
             else (case gs_sender s of
                 None \<Rightarrow> s
               | Some parent \<Rightarrow>
                   if list_ex (\<lambda>e. ae_index e = index \<and> ae_stable_media_id e = media_id) (sn_entries parent)
                   then send_lifecycle (EvAttempt (parent\<lparr>sn_entries :=
                     update_first (\<lambda>e. ae_index e = index \<and> ae_stable_media_id e = media_id)
                       (\<lambda>e. e\<lparr>ae_media_paths := ae_media_paths receipt, ae_media_hashes := ae_media_hashes receipt\<rparr>)
                       (sn_entries parent)\<rparr>)) s
                   else s))
    | _ \<Rightarrow> s)"

definition execute_entry ::
  "('e, 'r, 'w) group_io \<Rightarrow> group_run \<Rightarrow> group_entry \<Rightarrow> ('e, 'w) group_state
     \<Rightarrow> (any_error + string list) \<times> ('e, 'w) group_state" where
  \<comment> \<open>the child download, its events forwarded, and what the guard copies from the channel afterwards\<close>
  "execute_entry io gr entry s = (case gi_execute io entry (gs_world s) of (r, events, w) \<Rightarrow>
     let s = s\<lparr>gs_world := w\<rparr>;
         s = (if gs_progress s
              then fold (forward_child_event (entry_index entry) (gn_stable_media_id entry) (entry_profile io gr entry))
                     events s
              else s);
         s = copy_publication_receipt_from_progress (entry_index entry) s;
         s = copy_stage_from_progress (entry_index entry) s
     in (r, s))"

datatype attempt_step = EpisodeOver | TryAgain

definition upd :: "group_entry \<Rightarrow> attempt_update \<Rightarrow> (unit, 'e, 'w) group_act" where
  "upd entry update = change_group (send_group_entry_update (entry_index entry) update)"

definition finish_entry :: "(entry_flow, 'e, 'w) group_act \<Rightarrow> (attempt_step, 'e, 'w) group_act" where
  "finish_entry act = bind_group act (\<lambda>_. ret_group EpisodeOver)"

definition published_entry ::
  "('e, 'r, 'w) group_io \<Rightarrow> group_run \<Rightarrow> group_entry \<Rightarrow> string list \<Rightarrow> (attempt_step, 'e, 'w) group_act" where
  \<comment> \<open>the branch of a child download that returned a report\<close>
  "published_entry io gr entry primary_media_paths =
     bind_group (validate_paths_in_folder io (gr_folder gr) primary_media_paths) (\<lambda>_.
     bind_group (upd entry (Stage ''verify publication'')) (\<lambda>_.
       (\<lambda>s. case ask_world (gi_verify_outputs io (gn_download entry) primary_media_paths None) s of
            (Inl e, t) \<Rightarrow> pause_group (group_title gr) (with_context ''unsafe publication verification failed'' e) t
          | (Inr v, t) \<Rightarrow> finish_entry (adopt io gr entry (UVerified (vf_paths v) (vf_hashes v)) v) t)))"

definition retry_entry ::
  "('e, 'r, 'w) group_io \<Rightarrow> group_run \<Rightarrow> group_entry \<Rightarrow> nat \<Rightarrow> nat \<Rightarrow> string
     \<Rightarrow> (attempt_step, 'e, 'w) group_act" where
  \<comment> \<open>wait, look for what the failed child has published, otherwise note the next attempt\<close>
  "retry_entry io gr entry delay next_attempt safe_error =
     bind_group (change_group (\<lambda>s. s\<lparr>gs_world := gi_wait io delay (gs_world s)\<rparr>)) (\<lambda>_.
     bind_group (read_group (saved_entry (entry_index entry))) (\<lambda>found. case found of
         None \<Rightarrow> fail_group (msg_error ''retrying entry should remain in its group'')
       | Some saved \<Rightarrow>
           bind_group (or_pause (group_title gr) (recover_publication_before_retry io entry saved
               (entry_profile io gr entry) (gr_namespace gr) (gr_folder gr))) (\<lambda>recovered. case recovered of
             Some v \<Rightarrow> finish_entry (adopt io gr entry (UVerified (vf_paths v) (vf_hashes v)) v)
           | None \<Rightarrow> bind_group (upd entry (Retrying next_attempt safe_error)) (\<lambda>_. ret_group TryAgain))))"

definition episode_attempt ::
  "('e, 'r, 'w) group_io \<Rightarrow> group_run \<Rightarrow> group_entry \<Rightarrow> nat \<Rightarrow> nat \<Rightarrow> nat
     \<Rightarrow> (attempt_step, 'e, 'w) group_act" where
  \<comment> \<open>the body of the loop: \<open>made\<close> counts this attempt\<close>
  "episode_attempt io gr entry saved_attempts retries_used made =
     bind_group (upd entry (Stage ''refresh plan'')) (\<lambda>_.
       (\<lambda>s. case execute_entry io gr entry s of
            (Inr primary_media_paths, t) \<Rightarrow> published_entry io gr entry primary_media_paths t
          | (Inl error, t) \<Rightarrow>
              (let safe_error = redact_sensitive_text (display_chain error) in
               case classify_episode_failure (gi_disk_errnos io) error retries_used of
                 Retry delay _ \<Rightarrow>
                   retry_entry io gr entry delay (usat_add saved_attempts (made + 1)) safe_error t
               | FailEntry \<Rightarrow>
                   bind_group (upd entry (Failure safe_error (usat_add saved_attempts made)))
                     (\<lambda>_. ret_group EpisodeOver) t
               | PauseGroup \<Rightarrow> pause_group (group_title gr) (msg_error safe_error) t)))"

lemma retry_below_limit:
  "classify_episode_failure disk_errnos error used = Retry delay refresh \<Longrightarrow> used < MAX_ADDITIONAL_EPISODE_RETRIES"
  by (auto simp: classify_episode_failure_def classify_episode_failure_with_retry_after_def retry_or_fail_def Let_def
      not_le split: if_splits)

lemma group_act_simps [simp]:
  "ret_group x s = (Inr x, s)" "fail_group e s = (Inl e, s)" "change_group f s = (Inr (), f s)"
  "read_group g s = (Inr (g s), s)" "pause_group title e s =
    (Inl (msg_error (pause_message title (verified_entries (gs_snapshot s)) e)), finish_guard OInterrupted s)"
  by (simp_all add: ret_group_def fail_group_def change_group_def read_group_def pause_group_def)

lemma bind_group_simp:
  "bind_group act f s = (case act s of (Inl e, t) \<Rightarrow> (Inl e, t) | (Inr x, t) \<Rightarrow> f x t)"
  by (simp add: bind_group_def)

lemma adopt_done: "adopt io gr entry update v s = (Inr flow, t) \<Longrightarrow> flow = EntryDone"
  by (auto simp: adopt_def bind_group_simp split: prod.splits sum.splits)

lemma published_entry_over: "published_entry io gr entry paths s = (Inr step, t) \<Longrightarrow> step = EpisodeOver"
  by (auto simp: published_entry_def finish_entry_def bind_group_simp split: prod.splits sum.splits)

lemma try_again_below_limit:
  assumes "episode_attempt io gr entry saved used made s = (Inr TryAgain, t)"
  shows "used < MAX_ADDITIONAL_EPISODE_RETRIES"
proof -
  obtain r u where x: "execute_entry io gr entry (send_group_entry_update (entry_index entry) (Stage ''refresh plan'') s) = (r, u)"
    by (rule prod.exhaust)
  show ?thesis
  proof (cases r)
    case (Inr paths)
    then have "published_entry io gr entry paths u = (Inr TryAgain, t)"
      using assms x by (simp add: episode_attempt_def bind_group_simp upd_def)
    then show ?thesis using published_entry_over by blast
  next
    case (Inl e)
    then show ?thesis
      using assms x retry_below_limit[of "gi_disk_errnos io" e used]
      by (auto simp: episode_attempt_def bind_group_simp upd_def Let_def split: disposition.splits)
  qed
qed

function episode_loop ::
  "('e, 'r, 'w) group_io \<Rightarrow> group_run \<Rightarrow> group_entry \<Rightarrow> nat \<Rightarrow> nat \<Rightarrow> nat \<Rightarrow> (unit, 'e, 'w) group_act" where
  "episode_loop io gr entry saved_attempts retries_used made s =
     (case episode_attempt io gr entry saved_attempts retries_used (made + 1) s of
        (Inl e, t) \<Rightarrow> (Inl e, t)
      | (Inr EpisodeOver, t) \<Rightarrow> (Inr (), t)
      | (Inr TryAgain, t) \<Rightarrow> episode_loop io gr entry saved_attempts (retries_used + 1) (made + 1) t)"
  by pat_completeness auto
termination
  by (relation "measure (\<lambda>(_, _, _, _, used, _, _). MAX_ADDITIONAL_EPISODE_RETRIES - used)")
    (auto dest!: sym[THEN try_again_below_limit] try_again_below_limit)

declare episode_loop.simps [simp del]

definition download_entry_now ::
  "('e, 'r, 'w) group_io \<Rightarrow> group_run \<Rightarrow> group_entry \<Rightarrow> (unit, 'e, 'w) group_act" where
  \<comment> \<open>the part of the loop over the entries after everything that can be recovered\<close>
  "download_entry_now io gr entry =
     (if gr_plan gr \<noteq> None \<and> confirmed_for gr entry = None
      then bind_group (change_group (mark_requires_redownload (entry_index entry))) (\<lambda>_.
        pause_group (group_title gr) (msg_error (''Episode '' @ dec_digits (unat (entry_index entry)) @ '' (''
          @ de_title (gn_download entry)
          @ '') needs a confirmed stream plan; resume to review the updated plan before downloading'')))
      else bind_group (read_group (saved_entry (entry_index entry))) (\<lambda>found.
        let saved_attempts = (case found of None \<Rightarrow> 0 | Some saved \<Rightarrow> ae_attempts saved) in
        bind_group (upd entry (if saved_attempts = 0 then Started
                       else Retrying (usat_add saved_attempts 1) ''resuming this episode'')) (\<lambda>_.
        bind_group (change_group send_snapshot) (\<lambda>_.
          episode_loop io gr entry saved_attempts 0 0))))"

definition entry_selected :: "group_run \<Rightarrow> group_entry \<Rightarrow> bool" where
  "entry_selected gr entry =
     (case gr_scope gr of None \<Rightarrow> True | Some scope \<Rightarrow> entry_index entry \<in> set scope)"

definition run_entry ::
  "('e, 'r, 'w) group_io \<Rightarrow> group_run \<Rightarrow> group_entry \<Rightarrow> (unit, 'e, 'w) group_act" where
  "run_entry io gr entry =
     bind_group (read_group (saved_entry (entry_index entry))) (\<lambda>found. case found of
        None \<Rightarrow> fail_group (msg_error ''saved Bilibili group entry disappeared during execution'')
      | Some saved \<Rightarrow>
          bind_group (if ae_state saved = Verified then check_verified io gr entry saved
                      else ret_group (EntryOpen (ae_requires_redownload saved))) (\<lambda>flow. case flow of
             EntryDone \<Rightarrow> ret_group ()
           | EntryOpen must \<Rightarrow>
               if \<not> entry_selected gr entry then ret_group ()
               else bind_group (recover_entry io gr entry saved must) (\<lambda>flow. case flow of
                   EntryDone \<Rightarrow> ret_group ()
                 | EntryOpen _ \<Rightarrow> download_entry_now io gr entry)))"

fun run_entries ::
  "('e, 'r, 'w) group_io \<Rightarrow> group_run \<Rightarrow> group_entry list \<Rightarrow> (unit, 'e, 'w) group_act" where
  "run_entries io gr [] = ret_group ()"
| "run_entries io gr (entry # entries) =
     bind_group (run_entry io gr entry) (\<lambda>_. run_entries io gr entries)"

subsection \<open>Completing the group\<close>

record 'e group_report =
  gp_saved_location :: string
  gp_details :: string
  gp_paths :: "string list"
  gp_evidence :: "(download_entry \<times> 'e) list"
  gp_hashes :: hash_map

fun merge_receipt :: "hash_map \<Rightarrow> (string \<times> string) list \<Rightarrow> hash_map option" where
  \<comment> \<open>\<open>None\<close> when a path already has another hash\<close>
  "merge_receipt hashes [] = Some hashes"
| "merge_receipt hashes ((path, hash) # rest) =
     (if (case map_of hashes path of None \<Rightarrow> False | Some previous \<Rightarrow> previous \<noteq> hash) then None
      else merge_receipt (bt_insert path hash hashes) rest)"

definition changed_receipt_message :: "group_entry \<Rightarrow> string" where
  "changed_receipt_message entry =
     ''Bilibili published media receipt changed before group completion for entry ''
     @ dec_digits (unat (entry_index entry)) @ '': '' @ de_title (gn_download entry)"

fun confirm_entries ::
  "('e, 'r, 'w) group_io \<Rightarrow> group_run \<Rightarrow> group_entry list \<Rightarrow> hash_map \<Rightarrow> (hash_map, 'e, 'w) group_act" where
  \<comment> \<open>the last validation of every receipt, collecting the hashes of the report\<close>
  "confirm_entries io gr [] hashes = ret_group hashes"
| "confirm_entries io gr (entry # entries) hashes =
     bind_group (read_group (\<lambda>s. (saved_entry (entry_index entry) s, gs_legacy s))) (\<lambda>(found, legacy). case found of
        None \<Rightarrow> fail_group (msg_error ''verified Bilibili group entry disappeared before completion'')
      | Some saved \<Rightarrow>
          bind_group (or_pause (group_title gr) (revalidate_group_snapshot_entry io (gn_download entry) saved
              (if entry_index entry \<in> set legacy then None else gr_folder gr))) (\<lambda>r. case r of
            Some _ \<Rightarrow> (case merge_receipt hashes (ae_media_hashes saved) of
                None \<Rightarrow> pause_group (group_title gr)
                  (msg_error ''Bilibili group contains conflicting published media receipts'')
              | Some merged \<Rightarrow> confirm_entries io gr entries merged)
          | None \<Rightarrow>
              bind_group (change_group (mark_requires_redownload (entry_index entry))) (\<lambda>_.
              bind_group (upd entry (Failure (changed_receipt_message entry) (ae_attempts saved))) (\<lambda>_.
                pause_group (group_title gr) (msg_error (changed_receipt_message entry))))))"

definition path_set :: "string list \<Rightarrow> string list" where
  \<comment> \<open>a \<open>BTreeSet\<close> of paths, ordered by their components\<close>
  "path_set paths = map (join ''/'') (bt_set (map (split_on (CHR ''/'')) paths))"

fun first_evidence :: "('e \<Rightarrow> string) \<Rightarrow> string list \<Rightarrow> (download_entry \<times> 'e) list \<Rightarrow> (download_entry \<times> 'e) list" where
  \<comment> \<open>\<open>bilibili_report_evidence_from_entries\<close>: the first evidence of each path\<close>
  "first_evidence path seen [] = []"
| "first_evidence path seen ((d, e) # rest) =
     (if path e \<in> set seen then first_evidence path seen rest
      else (d, e) # first_evidence path (path e # seen) rest)"

definition bilibili_group_saved_location :: "string \<Rightarrow> group_inventory \<Rightarrow> string" where
  "bilibili_group_saved_location video_dir v = (case gv_output_folder v of
      Some folder \<Rightarrow> join_path video_dir [folder] | None \<Rightarrow> video_dir)"

definition unfinished_message :: "string \<Rightarrow> attempt_snapshot \<Rightarrow> string" where
  "unfinished_message title snapshot = redact_sensitive_text (''Bilibili group '' @ title @ '' has ''
     @ dec_digits (verified_entries snapshot) @ '' verified and ''
     @ dec_digits (count_where (\<lambda>e. ae_state e \<noteq> Verified) (sn_entries snapshot))
     @ '' unfinished entries; resume or retry failed episodes'')"

definition finish_unverified :: "group_run \<Rightarrow> ('a, 'e, 'w) group_act" where
  "finish_unverified gr s = (let
       outcome = (if verified_entries (gs_snapshot s) = 0 then OFailed else OPartiallyCompleted);
       t = finish_guard outcome s
     in (Inl (msg_error (unfinished_message (group_title gr) (gs_snapshot t))), t))"

definition build_report ::
  "('e, 'r, 'w) group_io \<Rightarrow> string \<Rightarrow> group_run \<Rightarrow> hash_map \<Rightarrow> ('e group_report, 'e, 'w) group_act" where
  "build_report io video_dir gr hashes =
     bind_group (read_group (\<lambda>s. (gs_paths s, gs_evidence s, gs_snapshot s))) (\<lambda>(paths, evidence, snapshot).
     bind_group (ask_world (gi_normalize io (first_evidence (gi_evidence_path io) [] evidence))) (\<lambda>normal.
     bind_group (change_group (finish_guard OVerified)) (\<lambda>_.
       ret_group \<lparr>gp_saved_location = bilibili_group_saved_location video_dir (gr_inventory gr),
         gp_details = ''Bilibili group completed: '' @ group_title gr @ '' ('' @ dec_digits (length (sn_entries snapshot))
           @ '' entries; '' @ dec_digits (sn_skipped_entries snapshot) @ '' already present)'',
         gp_paths = path_set paths, gp_evidence = normal, gp_hashes = hashes\<rparr>)))"

definition complete_group ::
  "('e, 'r, 'w) group_io \<Rightarrow> string \<Rightarrow> group_run \<Rightarrow> ('e group_report, 'e, 'w) group_act" where
  "complete_group io video_dir gr = (\<lambda>s.
     if \<not> list_all (\<lambda>e. ae_state e = Verified) (sn_entries (gs_snapshot s)) then finish_unverified gr s
     else bind_group (confirm_entries io gr (gv_entries (gr_inventory gr)) [])
            (build_report io video_dir gr) s)"

definition run_guarded ::
  "('e, 'r, 'w) group_io \<Rightarrow> string \<Rightarrow> group_run \<Rightarrow> ('e group_report, 'e, 'w) group_act" where
  \<comment> \<open>from the creation of the guard on\<close>
  "run_guarded io video_dir gr =
     bind_group (change_group send_snapshot) (\<lambda>_.
     bind_group (or_pause (group_title gr) (ask_world (gi_lock io))) (\<lambda>_.
     bind_group (run_entries io gr (gv_entries (gr_inventory gr))) (\<lambda>_. complete_group io video_dir gr)))"

subsection \<open>Preparing the run\<close>

definition collection_output_folder :: "group_inventory \<Rightarrow> any_error + string option" where
  "collection_output_folder v = (case gv_source v of
      SourceCollection \<Rightarrow> (case gv_storage_folder v of
          Some folder \<Rightarrow> Inr (Some folder)
        | None \<Rightarrow> Inl (msg_error ''Bilibili collection inventory omitted its selected output directory''))
    | SourceSeason \<Rightarrow>
        if gv_layout_version v = Some 1 then (case gv_storage_folder v of
            Some folder \<Rightarrow> Inr (Some folder)
          | None \<Rightarrow> Inl (msg_error ''Bilibili season inventory omitted its selected output directory''))
        else Inr None
    | SourceVideo \<Rightarrow> Inr None)"

definition given_namespace :: "string option \<Rightarrow> string option" where
  "given_namespace ns = (case ns of None \<Rightarrow> None | Some n \<Rightarrow> if trim n = [] then None else Some n)"

definition group_namespace ::
  "plan_snapshot option \<Rightarrow> attempt_snapshot option \<Rightarrow> any_error + string option" where
  "group_namespace plan previous = (let
       expected = given_namespace (case plan of None \<Rightarrow> None | Some p \<Rightarrow> pl_publication_namespace p);
       saved = given_namespace (case previous of None \<Rightarrow> None | Some p \<Rightarrow> sn_publication_namespace p)
     in if expected \<noteq> None \<and> saved \<noteq> None \<and> expected \<noteq> saved
        then Inl (msg_error ''Bilibili group publication namespace identity mismatch between the saved attempt and current plan'')
        else Inr (if expected \<noteq> None then expected else saved))"

definition stale_profile_entry :: "attempt_entry \<Rightarrow> attempt_entry" where
  \<comment> \<open>an entry of an attempt made for other media requirements\<close>
  "stale_profile_entry e =
     (if ae_state e = Verified then cleared_for_redownload e
      else if ae_attempts e > 0 \<or> ae_state e \<noteq> Pending then e\<lparr>ae_requires_redownload := True\<rparr>
      else e)"

definition prepared_snapshot ::
  "string \<Rightarrow> string option \<Rightarrow> group_inventory \<Rightarrow> attempt_snapshot option \<Rightarrow> attempt_snapshot" where
  "prepared_snapshot profile namespace v previous = (let
       snapshot = (case previous of
           Some p \<Rightarrow>
             if sn_media_profile p \<noteq> Some profile
             then count_already_present (p\<lparr>sn_entries := map stale_profile_entry (sn_entries p)\<rparr>)
             else p
         | None \<Rightarrow> new_independent (gv_title v)
             (map (\<lambda>e. (entry_index e, de_title (gn_download e), Some (gn_stable_media_id e))) (gv_entries v)) 0)
     in snapshot\<lparr>sn_publication_namespace := namespace, sn_media_profile := Some profile, sn_outcome := None\<rparr>)"

definition prepare_group ::
  "job_request \<Rightarrow> download_mode \<Rightarrow> string \<Rightarrow> group_inventory \<Rightarrow> attempt_snapshot option \<Rightarrow> plan_snapshot option
     \<Rightarrow> any_error + (group_run \<times> attempt_snapshot)" where
  \<comment> \<open>from the start of the function up to the creation of the guard\<close>
  "prepare_group job mode profile v previous plan = (case job of
      BilibiliJob _ selection \<Rightarrow>
        (case collection_output_folder v of Inl e \<Rightarrow> Inl e | Inr folder \<Rightarrow>
        (case group_namespace plan previous of Inl e \<Rightarrow> Inl e | Inr namespace \<Rightarrow>
        (case validate_group_inventory_snapshot v plan previous profile of Inl e \<Rightarrow> Inl e | Inr _ \<Rightarrow>
         let missing = (selection = Some SelMissing);
             snapshot = prepared_snapshot profile namespace v previous in
         if missing \<and> \<not> bilibili_missing_skip_mode_supported mode
         then Inl (msg_error ''Missing selection is unsupported for the configured Bilibili download mode'')
         else if \<not> sn_independent_entries snapshot
         then Inl (msg_error ''saved Bilibili attempt does not support independent episode recovery'')
         else (case validate_group_inventory_snapshot v None (Some snapshot) profile of Inl e \<Rightarrow> Inl e | Inr _ \<Rightarrow>
           if (case sn_retry_indices snapshot of None \<Rightarrow> False
               | Some indices \<Rightarrow> \<not> set indices \<subseteq> set (map ae_index (sn_entries snapshot)))
           then Inl (msg_error ''saved Bilibili retry scope does not match the reviewed group inventory'')
           else Inr (\<lparr>gr_inventory = v, gr_missing = missing, gr_media_profile = profile, gr_namespace = namespace,
             gr_folder = folder, gr_plan = plan, gr_had_previous = (previous \<noteq> None),
             gr_scope = sn_retry_indices snapshot\<rparr>, snapshot)))))
    | _ \<Rightarrow> Inl (msg_error ''grouped Bilibili execution requires a Bilibili job''))"

definition start_group :: "attempt_snapshot \<Rightarrow> bool \<Rightarrow> attempt_snapshot option \<Rightarrow> 'w \<Rightarrow> ('e, 'w) group_state" where
  "start_group snapshot progress copy w = \<lparr>gs_snapshot = snapshot, gs_terminal = False, gs_progress = progress,
     gs_sender = copy, gs_events = [], gs_paths = [], gs_evidence = [], gs_legacy = [], gs_world = w\<rparr>"

definition run_bilibili_episode_group_with_inventory ::
  "('e, 'r, 'w) group_io \<Rightarrow> string \<Rightarrow> job_request \<Rightarrow> download_mode \<Rightarrow> string \<Rightarrow> group_inventory
     \<Rightarrow> attempt_snapshot option \<Rightarrow> plan_snapshot option \<Rightarrow> bool \<Rightarrow> attempt_snapshot option \<Rightarrow> 'w
     \<Rightarrow> (any_error + 'e group_report) \<times> ('e, 'w) group_state option" where
  \<comment> \<open>the state is \<open>None\<close> when the function returns before the guard exists\<close>
  "run_bilibili_episode_group_with_inventory io video_dir job mode profile v previous plan progress copy w =
     (case prepare_group job mode profile v previous plan of
        Inl e \<Rightarrow> (Inl e, None)
      | Inr (gr, snapshot) \<Rightarrow>
          (case run_guarded io video_dir gr (start_group snapshot progress copy w) of
             (r, s) \<Rightarrow> (r, Some (drop_guard s))))"

end
