(* ===== verification/GroupGuarantees.thy ===== *)
theory GroupGuarantees
  imports GroupRun
begin

section \<open>What a run of a group guarantees\<close>

text \<open>
  Three facts about \<open>GroupRun\<close>, for every world and every behaviour of the file system and the network: the
  attempt is closed on every path and success means that everything was verified; a group downloads every selected
  episode at most three times; and what the receipts of the report say was checked at the end.
\<close>

subsection \<open>Every path closes the attempt\<close>

definition open_run :: "('e, 'w) group_state \<Rightarrow> bool" where
  "open_run s = (sn_outcome (gs_snapshot s) = None \<and> sn_independent_entries (gs_snapshot s) \<and> \<not> gs_terminal s)"

definition closed_run :: "('e, 'w) group_state \<Rightarrow> bool" where
  \<comment> \<open>the attempt has an outcome, nothing is left running, and the channel's last word is the whole attempt\<close>
  "closed_run s = (gs_terminal s \<and> sn_outcome (gs_snapshot s) \<noteq> None
     \<and> list_all (\<lambda>e. ae_state e \<noteq> Downloading) (sn_entries (gs_snapshot s))
     \<and> (gs_progress s \<longrightarrow> gs_events s \<noteq> [] \<and> last (gs_events s) = EvAttempt (gs_snapshot s)
          \<and> gs_sender s = Some (gs_snapshot s)))"

definition aborted_run :: "('e, 'w) group_state \<Rightarrow> bool" where
  "aborted_run s = (closed_run s \<and> sn_outcome (gs_snapshot s) \<noteq> Some OVerified)"

definition sound_act :: "('a, 'e, 'w) group_act \<Rightarrow> bool" where
  "sound_act act = (\<forall>s. open_run s \<longrightarrow> (case act s of
      (Inr _, t) \<Rightarrow> open_run t | (Inl _, t) \<Rightarrow> open_run t \<or> aborted_run t))"

lemma sound_actI:
  assumes "\<And>s x t. open_run s \<Longrightarrow> act s = (Inr x, t) \<Longrightarrow> open_run t"
    "\<And>s e t. open_run s \<Longrightarrow> act s = (Inl e, t) \<Longrightarrow> open_run t \<or> aborted_run t"
  shows "sound_act act"
  unfolding sound_act_def using assms by (auto split: prod.split sum.split)

lemma sound_act_ok: "sound_act act \<Longrightarrow> act s = (Inr x, t) \<Longrightarrow> open_run s \<Longrightarrow> open_run t"
  and sound_act_error: "sound_act act \<Longrightarrow> act s = (Inl e, t) \<Longrightarrow> open_run s \<Longrightarrow> open_run t \<or> aborted_run t"
  unfolding sound_act_def by (fastforce split: prod.splits sum.splits)+

named_theorems sound_intros \<open>actions that keep the attempt open or close it as not verified\<close>

lemma finish_open:
  "sn_outcome s = None \<Longrightarrow>
     finish oc s = s\<lparr>sn_entries := close_entries (effective_outcome s oc) s, sn_outcome := Some (effective_outcome s oc)\<rparr>"
  by (simp add: finish_def Let_def)

lemma finish_guard_closes: "open_run s \<Longrightarrow> closed_run (finish_guard oc s)"
  by (simp add: open_run_def closed_run_def finish_guard_def send_snapshot_def tell_def send_lifecycle_def heard_def
      finish_open close_entries_no_downloading)

lemma finish_guard_aborts: "open_run s \<Longrightarrow> oc \<noteq> OVerified \<Longrightarrow> aborted_run (finish_guard oc s)"
  using finish_guard_closes[of s oc]
  by (auto simp: aborted_run_def open_run_def finish_guard_def send_snapshot_def tell_def send_lifecycle_def
      finish_open effective_outcome_def Let_def)

lemma open_tell [simp]: "open_run (tell ev s) = open_run s"
  by (simp add: open_run_def tell_def send_lifecycle_def)

lemma open_send_snapshot [simp]: "open_run (send_snapshot s) = open_run s"
  by (simp add: send_snapshot_def)

lemma open_update [simp]: "open_run (send_group_entry_update i u s) = open_run s"
  by (simp add: send_group_entry_update_def) (simp add: open_run_def)

lemma open_world [simp]: "open_run (s\<lparr>gs_world := w\<rparr>) = open_run s"
  by (simp add: open_run_def)

lemma open_add_report [simp]: "open_run (add_report d v s) = open_run s"
  by (simp add: open_run_def add_report_def)

lemma open_note_legacy [simp]: "open_run (note_legacy i s) = open_run s"
  by (simp add: open_run_def note_legacy_def)

lemma open_mark [simp]: "open_run (mark_requires_redownload i s) = open_run s"
  by (simp add: mark_requires_redownload_def) (simp add: open_run_def count_already_present_def set_first_def)

lemma open_copy_receipt [simp]: "open_run (copy_publication_receipt_from_progress i s) = open_run s"
  by (auto simp: copy_publication_receipt_from_progress_def split: option.split)
    (auto simp: open_run_def set_first_def)

lemma open_copy_stage [simp]: "open_run (copy_stage_from_progress i s) = open_run s"
  by (auto simp: copy_stage_from_progress_def open_run_def stage_started_def update_entries_def split: option.split)

lemma open_forward [simp]: "open_run (forward_child_event i m p ev s) = open_run s"
  by (auto simp: forward_child_event_def open_run_def send_lifecycle_def split: group_event.split option.split attempt_update.split)

lemma open_forward_all [simp]: "open_run (fold (forward_child_event i m p) evs s) = open_run s"
  by (induction evs arbitrary: s) simp_all

lemma open_execute: "execute_entry io gr e s = (r, t) \<Longrightarrow> open_run t = open_run s"
  by (auto simp: execute_entry_def Let_def split: prod.splits if_splits)

lemma sound_ret [sound_intros]: "sound_act (ret_group x)"
  and sound_fail [sound_intros]: "sound_act (fail_group e)"
  and sound_read [sound_intros]: "sound_act (read_group g)"
  and sound_ask [sound_intros]: "sound_act (ask_world h)"
  and sound_pause [sound_intros]: "sound_act (pause_group title e)"
  by (auto simp: sound_act_def ask_world_def finish_guard_aborts split: prod.splits sum.split)

lemma sound_change [sound_intros]: "(\<And>s. open_run (f s) = open_run s) \<Longrightarrow> sound_act (change_group f)"
  by (simp add: sound_act_def)

lemma sound_bind [sound_intros]:
  assumes "sound_act act" "\<And>x. sound_act (f x)"
  shows "sound_act (bind_group act f)"
  unfolding sound_act_def
proof (intro allI impI)
  fix s :: "('a, 'b) group_state"
  assume o: "open_run s"
  obtain r t where rt: "act s = (r, t)" by (rule prod.exhaust)
  show "case bind_group act f s of (Inr _, t) \<Rightarrow> open_run t | (Inl _, t) \<Rightarrow> open_run t \<or> aborted_run t"
  proof (cases r)
    case (Inl e)
    then show ?thesis using assms(1) o rt unfolding sound_act_def by (fastforce simp: bind_group_simp)
  next
    case (Inr x)
    then have "open_run t" using assms(1) o rt unfolding sound_act_def by fastforce
    then show ?thesis using assms(2)[of x] rt Inr unfolding sound_act_def by (simp add: bind_group_simp)
  qed
qed

lemma sound_or_pause [sound_intros]:
  assumes "\<And>s. open_run s \<Longrightarrow> open_run (snd (act s))"
  shows "sound_act (or_pause title act)"
  using assms unfolding sound_act_def
  by (fastforce simp: or_pause_def finish_guard_aborts split: prod.splits sum.splits)

lemma sound_if [sound_intros]: "sound_act a \<Longrightarrow> sound_act b \<Longrightarrow> sound_act (if c then a else b)"
  by simp

lemma sound_option [sound_intros]:
  "sound_act a \<Longrightarrow> (\<And>x. sound_act (f x)) \<Longrightarrow> sound_act (case v of None \<Rightarrow> a | Some x \<Rightarrow> f x)"
  by (cases v) simp_all

lemma sound_flow [sound_intros]:
  "sound_act a \<Longrightarrow> (\<And>x. sound_act (f x)) \<Longrightarrow> sound_act (case v of EntryDone \<Rightarrow> a | EntryOpen x \<Rightarrow> f x)"
  by (cases v) simp_all

lemma sound_lookup [sound_intros]:
  "sound_act a \<Longrightarrow> sound_act b \<Longrightarrow> (\<And>x. sound_act (f x)) \<Longrightarrow>
     sound_act (case v of ReceiptMissing \<Rightarrow> a | ReceiptProfileMismatch \<Rightarrow> b | ReceiptFound x \<Rightarrow> f x)"
  by (cases v) simp_all

text \<open>The actions under \<open>or_pause\<close> only ask the world.\<close>

definition asks_only :: "('a, 'e, 'w) group_act \<Rightarrow> bool" where
  "asks_only act = (\<forall>s. \<exists>w. snd (act s) = s\<lparr>gs_world := w\<rparr>)"

lemma same_world: "\<exists>w. s = s\<lparr>gs_world := w\<rparr>"
  by (rule exI[of _ "gs_world s"]) simp

lemma asks_only_ret: "asks_only (ret_group x)"
  by (simp add: asks_only_def same_world)

lemma asks_only_ask: "asks_only (ask_world h)"
  by (auto simp: asks_only_def ask_world_def split: prod.split)

lemma asks_only_bind:
  assumes a: "asks_only act" "\<And>x. asks_only (f x)"
  shows "asks_only (bind_group act f)"
proof -
  show "asks_only (bind_group act f)" unfolding asks_only_def
  proof
    fix s
    obtain r t where rt: "act s = (r, t)" by (rule prod.exhaust)
    then obtain w where t: "t = s\<lparr>gs_world := w\<rparr>" using a(1) unfolding asks_only_def by (metis snd_conv)
    show "\<exists>w. snd (bind_group act f s) = s\<lparr>gs_world := w\<rparr>"
    proof (cases r)
      case Inl
      then show ?thesis using rt t by (auto simp: bind_group_simp)
    next
      case (Inr x)
      obtain w' where "snd (f x t) = t\<lparr>gs_world := w'\<rparr>" using a(2)[of x] unfolding asks_only_def by blast
      then show ?thesis using rt t Inr by (auto simp: bind_group_simp)
    qed
  qed
qed

lemmas asks_only_intros = asks_only_ret asks_only_ask asks_only_bind

lemma asks_only_after:
  assumes "asks_only act"
  shows "asks_only (\<lambda>s. case act s of
      (Inl e, t) \<Rightarrow> if P e then (Inr a, t) else (Inl e, t)
    | (Inr v, t) \<Rightarrow> if Q v then (Inr a, t) else (Inr (g v), t))"
proof -
  have "snd (case act s of (Inl e, t) \<Rightarrow> if P e then (Inr a, t) else (Inl e, t)
    | (Inr v, t) \<Rightarrow> if Q v then (Inr a, t) else (Inr (g v), t)) = snd (act s)" for s
    by (simp split: prod.split sum.split)
  then show ?thesis using assms by (simp add: asks_only_def)
qed

lemma asks_only_revalidate: "asks_only (revalidate_group_snapshot_entry io d saved folder)"
  by (auto simp: revalidate_group_snapshot_entry_def intro!: asks_only_intros asks_only_after)

lemma asks_only_receipts:
  "asks_only (revalidate_legacy_attempt_entry io v entry saved)"
  "asks_only (found_receipt io entry profile ns folder)"
  "asks_only (verify_legacy_season_receipt io v entry profile namespace)"
  "asks_only (recover_publication_before_retry io entry saved profile namespace folder)"
proof -
  show f: "asks_only (found_receipt io entry profile ns folder)" for profile ns folder
    by (auto simp: found_receipt_def intro!: asks_only_intros split: receipt_lookup.split)
  show "asks_only (revalidate_legacy_attempt_entry io v entry saved)"
    by (auto simp: revalidate_legacy_attempt_entry_def Let_def intro!: asks_only_intros asks_only_revalidate)
  show "asks_only (verify_legacy_season_receipt io v entry profile namespace)"
    by (auto simp: verify_legacy_season_receipt_def intro!: asks_only_intros f split: option.split)
  show "asks_only (recover_publication_before_retry io entry saved profile namespace folder)"
    by (auto simp: recover_publication_before_retry_def intro!: asks_only_intros asks_only_revalidate f split: option.split)
qed

lemmas asks_only_all = asks_only_intros(2) asks_only_revalidate asks_only_receipts

lemma sound_asking [sound_intros]: "asks_only act \<Longrightarrow> sound_act (or_pause title act)"
  by (rule sound_or_pause) (metis asks_only_def open_world)

lemma sound_send [sound_intros]:
  "sound_act (upd entry u)" "sound_act (change_group (mark_requires_redownload i))"
  "sound_act (change_group (add_report d v))" "sound_act (change_group (note_legacy i))"
  "sound_act (change_group send_snapshot)" "sound_act (change_group (send_group_entry_update i u))"
  by (simp_all add: upd_def sound_act_def)

lemma sound_adopt [sound_intros]: "sound_act (adopt io gr entry u v)"
  unfolding adopt_def by (intro sound_intros asks_only_all)

lemma sound_redownload [sound_intros]: "sound_act (redownload entry)"
  unfolding redownload_def by (intro sound_intros)

lemma sound_check_verified [sound_intros]: "sound_act (check_verified io gr entry saved)"
  unfolding check_verified_def by (intro sound_intros asks_only_all)

lemma sound_recoveries:
  "sound_act (recover_saved io gr entry c must)" "sound_act (recover_receipt io gr entry c must)"
  "sound_act (recover_legacy_receipt io gr entry c must)" "sound_act (recover_sibling io gr entry c must)"
  "sound_act (recover_existing io gr entry c must)"
  unfolding recover_saved_def recover_receipt_def recover_legacy_receipt_def recover_sibling_def recover_existing_def
  by (intro sound_intros asks_only_all)+

lemma sound_first_recovery:
  "(\<And>act m. act \<in> set acts \<Longrightarrow> sound_act (act m)) \<Longrightarrow> sound_act (first_recovery acts must)"
  by (induction acts arbitrary: must) (auto intro!: sound_intros)

lemma sound_recover_entry [sound_intros]: "sound_act (recover_entry io gr entry saved must)"
  unfolding recover_entry_def Let_def by (rule sound_first_recovery) (auto intro: sound_recoveries)

lemma sound_execute:
  assumes f: "\<And>paths. sound_act (f paths)" and g: "\<And>e. sound_act (g e)"
  shows "sound_act (\<lambda>s. case execute_entry io gr entry s of (Inr paths, t) \<Rightarrow> f paths t | (Inl e, t) \<Rightarrow> g e t)"
  by (rule sound_actI)
    (auto split: prod.splits sum.splits dest!: open_execute dest: sound_act_ok[OF f] sound_act_ok[OF g]
      sound_act_error[OF f] sound_act_error[OF g])

lemma sound_published [sound_intros]: "sound_act (published_entry io gr entry paths)"
proof -
  have "sound_act (\<lambda>s. case ask_world (gi_verify_outputs io (gn_download entry) paths None) s of
        (Inl e, t) \<Rightarrow> pause_group (group_title gr) (with_context c e) t
      | (Inr v, t) \<Rightarrow> finish_entry (adopt io gr entry (UVerified (vf_paths v) (vf_hashes v)) v) t)" for c
  proof -
    have f: "sound_act (finish_entry (adopt io gr entry (UVerified (vf_paths v) (vf_hashes v)) v))" for v
      unfolding finish_entry_def by (intro sound_intros)
    show ?thesis
      by (rule sound_actI)
        (auto simp: ask_world_def finish_guard_aborts split: prod.splits sum.splits
          dest: sound_act_ok[OF f] sound_act_error[OF f])
  qed
  then show ?thesis
    unfolding published_entry_def validate_paths_in_folder_def by (intro sound_intros)
qed

lemma sound_retry [sound_intros]: "sound_act (retry_entry io gr entry delay n err)"
  unfolding retry_entry_def finish_entry_def by (intro sound_intros asks_only_all) simp

lemma sound_disposition:
  "(\<And>d r. sound_act (f d r)) \<Longrightarrow> sound_act a \<Longrightarrow> sound_act b \<Longrightarrow>
     sound_act (\<lambda>s. case x of Retry d r \<Rightarrow> f d r s | FailEntry \<Rightarrow> a s | PauseGroup \<Rightarrow> b s)"
  by (cases x) simp_all

lemma sound_attempt [sound_intros]: "sound_act (episode_attempt io gr entry n used made)"
  unfolding episode_attempt_def Let_def
  by (intro sound_bind sound_send sound_execute sound_published sound_disposition sound_retry sound_pause sound_ret)

lemma sound_loop [sound_intros]: "sound_act (episode_loop io gr entry n used made)"
proof -
  have "open_run s \<Longrightarrow> (case episode_loop io gr entry n used made s of
      (Inr _, t) \<Rightarrow> open_run t | (Inl _, t) \<Rightarrow> open_run t \<or> aborted_run t)" for s
  proof (induction io gr entry n used made s rule: episode_loop.induct)
    case (1 io gr entry n used made s)
    obtain r t where rt: "episode_attempt io gr entry n used (made + 1) s = (r, t)" by (rule prod.exhaust)
    note a = sound_attempt[of io gr entry n used "made + 1"]
    show ?case
    proof (cases r)
      case (Inl e)
      then show ?thesis using rt sound_act_error[OF a] 1(2) by (subst episode_loop.simps) auto
    next
      case (Inr step)
      then have o: "open_run t" using rt sound_act_ok[OF a] 1(2) by blast
      show ?thesis
      proof (cases step)
        case EpisodeOver
        then show ?thesis using rt Inr o by (subst episode_loop.simps) simp
      next
        case TryAgain
        then show ?thesis using rt Inr 1(1)[of r t step] o by (subst episode_loop.simps) simp
      qed
    qed
  qed
  then show ?thesis by (simp add: sound_act_def)
qed

lemma sound_download [sound_intros]: "sound_act (download_entry_now io gr entry)"
  unfolding download_entry_now_def Let_def by (intro sound_intros)

lemma sound_run_entry [sound_intros]: "sound_act (run_entry io gr entry)"
  unfolding run_entry_def by (intro sound_intros)

lemma sound_run_entries [sound_intros]: "sound_act (run_entries io gr entries)"
  by (induction entries) (auto simp del: group_act_simps intro!: sound_intros)

lemma sound_confirm [sound_intros]: "sound_act (confirm_entries io gr entries hashes)"
proof (induction entries arbitrary: hashes)
  case (Cons entry entries)
  show ?case
    unfolding confirm_entries.simps case_prod_unfold
    by (intro sound_intros asks_only_all Cons)
qed (simp add: sound_intros)

subsection \<open>What a report rests on\<close>

definition checked_entry :: "('e, 'r, 'w) group_io \<Rightarrow> download_entry \<Rightarrow> attempt_entry \<Rightarrow> bool" where
  \<comment> \<open>the published files of the entry have been verified, with the hashes its receipt records\<close>
  "checked_entry io d saved = (\<exists>w w' v.
     gi_verify_outputs io d (ae_media_paths saved) None w = (Inr v, w') \<and> vf_hashes v = ae_media_hashes saved)"

definition report_backed ::
  "('e, 'r, 'w) group_io \<Rightarrow> group_entry list \<Rightarrow> ('e, 'w) group_state \<Rightarrow> hash_map \<Rightarrow> bool" where
  "report_backed io entries s hashes = (\<forall>entry\<in>set entries. \<exists>saved.
     saved_entry (entry_index entry) s = Some saved \<and> ae_state saved = Verified
     \<and> checked_entry io (gn_download entry) saved
     \<and> list_all (\<lambda>(path, hash). map_of hashes path = Some hash) (ae_media_hashes saved))"

lemma revalidate_checked:
  assumes "revalidate_group_snapshot_entry io d saved folder s = (Inr (Some v), t)"
  shows "checked_entry io d saved"
  using assms unfolding revalidate_group_snapshot_entry_def checked_entry_def
  by (auto simp: bind_group_simp ask_world_def split: prod.splits sum.splits if_splits)

lemma asks_only_snapshot:
  assumes "asks_only act" "act s = (r, t)"
  shows "gs_snapshot t = gs_snapshot s \<and> gs_legacy t = gs_legacy s"
proof -
  obtain w where "snd (act s) = s\<lparr>gs_world := w\<rparr>" using assms(1) unfolding asks_only_def by blast
  then show ?thesis using assms(2) by simp
qed

lemma merge_receipt_spec:
  "merge_receipt hashes l = Some merged \<Longrightarrow>
     map_of hashes \<subseteq>\<^sub>m map_of merged \<and> list_all (\<lambda>(path, hash). map_of merged path = Some hash) l"
proof (induction hashes l rule: merge_receipt.induct)
  case (2 hashes path hash rest)
  have c: "\<not> (case map_of hashes path of None \<Rightarrow> False | Some previous \<Rightarrow> previous \<noteq> hash)"
    "merge_receipt (bt_insert path hash hashes) rest = Some merged"
    using 2(2) by (auto split: if_splits)
  note IH = 2(1)[OF c]
  then have "(map_of hashes)(path \<mapsto> hash) \<subseteq>\<^sub>m map_of merged" by (simp add: fun_upd_def)
  moreover have "map_of hashes \<subseteq>\<^sub>m (map_of hashes)(path \<mapsto> hash)"
    using c(1) by (auto simp: map_le_def split: option.splits)
  moreover have "map_of merged path = Some hash"
    using calculation(1) by (auto simp: map_le_def dom_def dest: bspec[of _ _ path])
  ultimately show ?case using IH by (auto intro: map_le_trans)
qed simp

lemma list_all_map_le:
  "m \<subseteq>\<^sub>m n \<Longrightarrow> list_all (\<lambda>(path, hash). m path = Some hash) l \<Longrightarrow> list_all (\<lambda>(path, hash). n path = Some hash) l"
  by (fastforce simp: list_all_iff map_le_def dom_def)

lemma or_pause_ok: "or_pause title act s = (Inr x, t) \<Longrightarrow> act s = (Inr x, t)"
  by (auto simp: or_pause_def split: prod.splits sum.splits)

lemma bind_group_ok:
  assumes "bind_group act f s = (Inr y, t)"
  obtains x u where "act s = (Inr x, u)" "f x u = (Inr y, t)"
  using assms by (auto simp: bind_group_simp split: prod.splits sum.splits)

lemma confirm_entries_ok:
  assumes "confirm_entries io gr entries hashes s = (Inr merged, t)"
    "list_all (\<lambda>e. ae_state e = Verified) (sn_entries (gs_snapshot s))"
  shows "gs_snapshot t = gs_snapshot s \<and> map_of hashes \<subseteq>\<^sub>m map_of merged \<and> report_backed io entries s merged"
  using assms
proof (induction entries arbitrary: hashes s)
  case Nil
  then show ?case by (simp add: report_backed_def)
next
  case (Cons entry entries)
  let ?i = "entry_index entry"
  obtain saved where saved: "saved_entry ?i s = Some saved"
    using Cons.prems(1) by (auto simp: bind_group_simp split: option.splits)
  obtain r u where r: "or_pause (group_title gr) (revalidate_group_snapshot_entry io (gn_download entry) saved
      (if ?i \<in> set (gs_legacy s) then None else gr_folder gr)) s = (Inr r, u)"
    and rest: "(case r of Some _ \<Rightarrow> (case merge_receipt hashes (ae_media_hashes saved) of
          None \<Rightarrow> pause_group (group_title gr) (msg_error ''Bilibili group contains conflicting published media receipts'')
        | Some h \<Rightarrow> confirm_entries io gr entries h)
      | None \<Rightarrow> bind_group (change_group (mark_requires_redownload ?i)) (\<lambda>_.
          bind_group (upd entry (Failure (changed_receipt_message entry) (ae_attempts saved))) (\<lambda>_.
            pause_group (group_title gr) (msg_error (changed_receipt_message entry))))) u = (Inr merged, t)"
    using Cons.prems(1) saved by (auto simp: bind_group_simp[of "read_group _"] elim!: bind_group_ok)
  obtain v h where v: "r = Some v" and h: "merge_receipt hashes (ae_media_hashes saved) = Some h"
    and next_step: "confirm_entries io gr entries h u = (Inr merged, t)"
    using rest by (auto simp: bind_group_simp upd_def split: option.splits)
  note rev = or_pause_ok[OF r]
  note same = asks_only_snapshot[OF asks_only_revalidate rev]
  have IH: "gs_snapshot t = gs_snapshot u \<and> map_of h \<subseteq>\<^sub>m map_of merged \<and> report_backed io entries u merged"
    using Cons.IH[OF next_step] Cons.prems(2) same by simp
  have "ae_state saved = Verified"
    using saved Cons.prems(2) by (auto simp: saved_entry_def find_Some_iff list_all_iff)
  moreover note revalidate_checked[OF rev[unfolded v]]
  moreover have "list_all (\<lambda>(path, hash). map_of merged path = Some hash) (ae_media_hashes saved)"
    using list_all_map_le[of "map_of h" "map_of merged"] merge_receipt_spec[OF h] IH by blast
  ultimately show ?case
    using IH same saved merge_receipt_spec[OF h] map_le_trans
    by (auto simp: report_backed_def saved_entry_def)
qed

lemma complete_group_ok:
  assumes "complete_group io dir gr s = (Inr report, t)" "open_run s"
  shows "closed_run t \<and> sn_outcome (gs_snapshot t) = Some OVerified
    \<and> list_all (\<lambda>e. ae_state e = Verified) (sn_entries (gs_snapshot t))
    \<and> report_backed io (gv_entries (gr_inventory gr)) t (gp_hashes report)"
proof -
  have all: "list_all (\<lambda>e. ae_state e = Verified) (sn_entries (gs_snapshot s))"
    using assms(1) by (auto simp: complete_group_def finish_unverified_def Let_def split: if_splits)
  then have "bind_group (confirm_entries io gr (gv_entries (gr_inventory gr)) []) (build_report io dir gr) s = (Inr report, t)"
    using assms(1) by (simp add: complete_group_def)
  then obtain merged u where c: "confirm_entries io gr (gv_entries (gr_inventory gr)) [] s = (Inr merged, u)"
    "build_report io dir gr merged u = (Inr report, t)" by (rule bind_group_ok)
  note conf = confirm_entries_ok[OF c(1) all]
  have o: "open_run u" using sound_act_ok[OF sound_confirm c(1) assms(2)] .
  obtain w where t: "t = finish_guard OVerified (u\<lparr>gs_world := w\<rparr>)" and hashes: "gp_hashes report = merged"
    using c(2) by (auto simp: build_report_def bind_group_simp ask_world_def split: prod.splits sum.splits)
  have ind: "sn_independent_entries (gs_snapshot s)" "sn_outcome (gs_snapshot s) = None"
    using assms(2) by (simp_all add: open_run_def)
  have eff: "effective_outcome (gs_snapshot s) OVerified = OVerified"
    using all by (auto simp: effective_outcome_def Let_def list_ex_iff list_all_iff)
  have snap: "gs_snapshot t = (gs_snapshot s)\<lparr>sn_entries := close_entries OVerified (gs_snapshot s), sn_outcome := Some OVerified\<rparr>"
    using conf by (simp add: t finish_guard_def send_snapshot_def tell_def send_lifecycle_def finish_open ind eff)
  have same: "close_entries OVerified (gs_snapshot s) = sn_entries (gs_snapshot s)"
    using all ind by (auto simp: close_entries_def)
  have "report_backed io (gv_entries (gr_inventory gr)) t merged"
    using conf unfolding report_backed_def saved_entry_def by (simp add: snap same)
  moreover have "closed_run t" using finish_guard_closes[of "u\<lparr>gs_world := w\<rparr>" OVerified] o by (simp add: t)
  ultimately show ?thesis using all by (simp add: snap same hashes)
qed

lemma prepared_open:
  assumes "prepare_group job mode profile v previous plan = Inr (gr, snapshot)"
  shows "sn_outcome snapshot = None \<and> sn_independent_entries snapshot \<and> gr_inventory gr = v"
  using assms
  by (auto simp: prepare_group_def Let_def prepared_snapshot_def split: job_request.splits sum.splits if_splits)

lemma sound_finish_unverified: "sound_act (finish_unverified gr)"
  by (rule sound_actI) (auto simp: finish_unverified_def Let_def intro!: finish_guard_aborts)

lemma sound_complete_error:
  assumes "complete_group io dir gr s = (Inl e, t)" "open_run s"
  shows "open_run t \<or> aborted_run t"
proof (cases "list_all (\<lambda>e. ae_state e = Verified) (sn_entries (gs_snapshot s))")
  case False
  then show ?thesis
    using assms by (auto simp: complete_group_def dest: sound_act_error[OF sound_finish_unverified])
next
  case True
  then consider "confirm_entries io gr (gv_entries (gr_inventory gr)) [] s = (Inl e, t)"
    | merged u where "confirm_entries io gr (gv_entries (gr_inventory gr)) [] s = (Inr merged, u)"
      "build_report io dir gr merged u = (Inl e, t)"
    using assms(1) by (auto simp: complete_group_def bind_group_simp split: prod.splits sum.splits)
  then show ?thesis
  proof cases
    case 1
    then show ?thesis using sound_act_error[OF sound_confirm] assms(2) by blast
  next
    case 2
    have "open_run u" using sound_act_ok[OF sound_confirm 2(1) assms(2)] .
    then show ?thesis using 2(2)
      by (auto simp: build_report_def bind_group_simp ask_world_def split: prod.splits sum.splits)
  qed
qed

lemma drop_guard_aborts: "open_run s \<or> aborted_run s \<Longrightarrow> aborted_run (drop_guard s)"
  using finish_guard_aborts[of s OInterrupted]
  by (auto simp: drop_guard_def open_run_def aborted_run_def closed_run_def)

lemma drop_guard_closed: "closed_run s \<Longrightarrow> drop_guard s = s"
  by (simp add: drop_guard_def closed_run_def)

text \<open>
  C7: Whatever the file system, the network and the downloads do, a group run ends with its attempt closed. If it
  returns before it has an attempt, it returns an error. If it returns an error later, the attempt has an outcome
  other than verified, no entry is left as running, and the last event on the progress channel is the whole attempt.
  If it returns a report, the attempt is closed as verified, every entry is verified, the published files of every
  entry of the inventory have been checked against the hashes of its receipt, and the report holds those hashes.
\<close>
theorem group_run_outcome:
  "case run_bilibili_episode_group_with_inventory io dir job mode profile v previous plan progress copy w of
      (r, None) \<Rightarrow> (\<exists>e. r = Inl e)
    | (Inl e, Some s) \<Rightarrow> aborted_run s
    | (Inr report, Some s) \<Rightarrow> closed_run s \<and> sn_outcome (gs_snapshot s) = Some OVerified
        \<and> list_all (\<lambda>e. ae_state e = Verified) (sn_entries (gs_snapshot s))
        \<and> report_backed io (gv_entries v) s (gp_hashes report)"
proof (cases "prepare_group job mode profile v previous plan")
  case (Inl e)
  then show ?thesis by (simp add: run_bilibili_episode_group_with_inventory_def)
next
  case (Inr p)
  obtain gr snapshot where p: "p = (gr, snapshot)" by (rule prod.exhaust)
  note prep = prepared_open[OF Inr[unfolded p]]
  define s0 where "s0 = (start_group snapshot progress copy w :: ('a, 'b) group_state)"
  have o: "open_run s0" using prep by (simp add: s0_def start_group_def open_run_def)
  define before where "before = bind_group (change_group send_snapshot) (\<lambda>_.
     bind_group (or_pause (group_title gr) (ask_world (gi_lock io))) (\<lambda>_. run_entries io gr (gv_entries (gr_inventory gr))))"
  have b: "sound_act before" unfolding before_def by (intro sound_intros asks_only_all)
  obtain r t where rt: "run_guarded io dir gr s0 = (r, t)" by (rule prod.exhaust)
  have split: "run_guarded io dir gr s0 = (case before s0 of (Inl e, u) \<Rightarrow> (Inl e, u) | (Inr _, u) \<Rightarrow> complete_group io dir gr u)"
    by (auto simp: run_guarded_def before_def bind_group_simp split: prod.split sum.split)
  have res: "case r of Inl e \<Rightarrow> open_run t \<or> aborted_run t
      | Inr report \<Rightarrow> closed_run t \<and> sn_outcome (gs_snapshot t) = Some OVerified
        \<and> list_all (\<lambda>e. ae_state e = Verified) (sn_entries (gs_snapshot t))
        \<and> report_backed io (gv_entries v) t (gp_hashes report)"
  proof -
    obtain q u where q: "before s0 = (q, u)" by (rule prod.exhaust)
    show ?thesis
    proof (cases q)
      case (Inl e)
      then show ?thesis using rt split q sound_act_error[OF b] o by auto
    next
      case (Inr x)
      then have u: "open_run u" "complete_group io dir gr u = (r, t)"
        using rt split q sound_act_ok[OF b] o by auto
      then show ?thesis
        using complete_group_ok[of io dir gr u _ t] sound_complete_error[of io dir gr u _ t] prep
        by (cases r) auto
    qed
  qed
  have "run_bilibili_episode_group_with_inventory io dir job mode profile v previous plan progress copy w = (r, Some (drop_guard t))"
    using rt Inr by (simp add: run_bilibili_episode_group_with_inventory_def p s0_def)
  then show ?thesis
    using res by (cases r) (auto simp: drop_guard_aborts drop_guard_closed)
qed

subsection \<open>How often a group downloads\<close>



definition costs :: "('w \<Rightarrow> nat) \<Rightarrow> nat \<Rightarrow> ('a, 'e, 'w) group_act \<Rightarrow> bool" where
  "costs runs n act = (\<forall>s. runs (gs_world (snd (act s))) \<le> runs (gs_world s) + n)"

named_theorems cost_intros \<open>actions without a download\<close>

lemma world_simps [simp]:
  "gs_world (tell ev s) = gs_world s" "gs_world (send_snapshot s) = gs_world s"
  "gs_world (send_group_entry_update i u s) = gs_world s" "gs_world (finish_guard oc s) = gs_world s"
  "gs_world (drop_guard s) = gs_world s" "gs_world (mark_requires_redownload i s) = gs_world s"
  "gs_world (add_report d v s) = gs_world s" "gs_world (note_legacy i s) = gs_world s"
  "gs_world (copy_stage_from_progress i s) = gs_world s"
  by (simp_all add: tell_def send_lifecycle_def send_snapshot_def send_group_entry_update_def finish_guard_def
      drop_guard_def mark_requires_redownload_def add_report_def note_legacy_def copy_stage_from_progress_def
      split: option.split)

lemma world_copy_receipt [simp]: "gs_world (copy_publication_receipt_from_progress i s) = gs_world s"
  by (simp add: copy_publication_receipt_from_progress_def split: option.split)

lemma world_forward [simp]: "gs_world (fold (forward_child_event i m p) evs s) = gs_world s"
proof (induction evs arbitrary: s)
  case (Cons ev evs)
  have "gs_world (forward_child_event i m p ev s) = gs_world s"
    by (simp add: forward_child_event_def send_lifecycle_def split: group_event.split option.split attempt_update.split)
  then show ?case using Cons by simp
qed simp



lemma costs_change [cost_intros]: "(\<And>s. runs (gs_world (f s)) \<le> runs (gs_world s)) \<Longrightarrow> costs runs 0 (change_group f)"
  by (simp add: costs_def)

lemma costs_bind:
  assumes "costs runs n act" "\<And>x. costs runs m (f x)"
  shows "costs runs (n + m) (bind_group act f)"
  unfolding costs_def
proof
  fix s
  obtain r t where rt: "act s = (r, t)" by (rule prod.exhaust)
  then have n: "runs (gs_world t) \<le> runs (gs_world s) + n" using assms(1) unfolding costs_def by (metis snd_conv)
  show "runs (gs_world (snd (bind_group act f s))) \<le> runs (gs_world s) + (n + m)"
  proof (cases r)
    case (Inr x)
    have "runs (gs_world (snd (f x t))) \<le> runs (gs_world t) + m" using assms(2) by (simp add: costs_def)
    then show ?thesis using rt n Inr by (simp add: bind_group_simp)
  qed (use rt n in \<open>simp add: bind_group_simp\<close>)
qed

lemma costs_bind_free [cost_intros]:
  "costs runs 0 act \<Longrightarrow> (\<And>x. costs runs 0 (f x)) \<Longrightarrow> costs runs 0 (bind_group act f)"
  using costs_bind[of runs 0 act 0 f] by simp







lemma costs_lookup [cost_intros]:
  "costs runs n a \<Longrightarrow> costs runs n b \<Longrightarrow> (\<And>x. costs runs n (f x)) \<Longrightarrow>
     costs runs n (case v of ReceiptMissing \<Rightarrow> a | ReceiptProfileMismatch \<Rightarrow> b | ReceiptFound x \<Rightarrow> f x)"
  by (cases v) simp_all



lemma costs_after [cost_intros]:
  assumes "costs runs n act"
  shows "costs runs n (\<lambda>s. case act s of
      (Inl e, t) \<Rightarrow> if P e then (Inr a, t) else (Inl e, t)
    | (Inr v, t) \<Rightarrow> if Q v then (Inr a, t) else (Inr (g v), t))"
proof -
  have "snd (case act s of (Inl e, t) \<Rightarrow> if P e then (Inr a, t) else (Inl e, t)
    | (Inr v, t) \<Rightarrow> if Q v then (Inr a, t) else (Inr (g v), t)) = snd (act s)" for s
    by (simp split: prod.split sum.split)
  then show ?thesis using assms by (simp add: costs_def)
qed


















end
