(* ===== verification/FdRemap.thy ===== *)
theory FdRemap
  imports Prelude
begin

section \<open>Descriptors handed to a child process (\<open>downloader.rs\<close>)\<close>

text \<open>
  A child process gets open files under descriptor numbers the parent has chosen. The parent computes a list of
  \<open>dup2\<close>, \<open>fcntl\<close> and \<open>close\<close> calls, the child runs them between \<open>fork\<close> and \<open>exec\<close>. Sources and targets may overlap
  and form cycles; one scratch descriptor breaks them. A descriptor table maps a number to the open file behind it and
  the close-on-exec flag; a call on a descriptor that is not open fails.
\<close>

type_synonym fd = int

type_synonym 'f fd_table = "fd \<Rightarrow> ('f \<times> bool) option"

datatype remap_op = Duplicate fd fd | ClearCloseOnExec fd | CloseFd fd

fun apply_child_fd_remap_operation :: "remap_op \<Rightarrow> 'f fd_table \<Rightarrow> 'f fd_table option" where
  "apply_child_fd_remap_operation (Duplicate source target) tbl = (case tbl source of
      None \<Rightarrow> None
    | Some (open_file, flag) \<Rightarrow>
        Some (if source = target then tbl else tbl(target \<mapsto> (open_file, False))))"
| "apply_child_fd_remap_operation (ClearCloseOnExec fd) tbl = (case tbl fd of
      None \<Rightarrow> None | Some (open_file, _) \<Rightarrow> Some (tbl(fd \<mapsto> (open_file, False))))"
| "apply_child_fd_remap_operation (CloseFd fd) tbl = (case tbl fd of
      None \<Rightarrow> None | Some _ \<Rightarrow> Some (tbl(fd := None)))"

fun apply_all_operations :: "remap_op list \<Rightarrow> 'f fd_table \<Rightarrow> 'f fd_table option" where
  "apply_all_operations [] tbl = Some tbl"
| "apply_all_operations (operation # operations) tbl = (case apply_child_fd_remap_operation operation tbl of
      None \<Rightarrow> None | Some changed \<Rightarrow> apply_all_operations operations changed)"

subsection \<open>Planning the calls\<close>

definition mapping_ready :: "(fd \<times> fd) list \<Rightarrow> fd \<times> fd \<Rightarrow> bool" where
  \<comment> \<open>nothing pending still reads the target, or the file is already there\<close>
  "mapping_ready pending mapping = (case mapping of (source, target) \<Rightarrow>
     source = target \<or> \<not> list_ex (\<lambda>(candidate_source, _). candidate_source = target) pending)"

definition remove_at :: "nat \<Rightarrow> 'a list \<Rightarrow> 'a list" where
  "remove_at i xs = take i xs @ drop (Suc i) xs"

lemma find_ready_Some:
  assumes "find_pred P xs = Some i"
  shows "i < length xs" "P (xs ! i)" "length (remove_at i xs) = length xs - 1"
proof -
  from find_pred_SomeD[OF assms] show i: "i < length xs" "P (xs ! i)" by auto
  then show "length (remove_at i xs) = length xs - 1" by (simp add: remove_at_def)
qed

function child_fd_remap_requires_scratch :: "(fd \<times> fd) list \<Rightarrow> bool" where
  "child_fd_remap_requires_scratch pending =
     (if pending = [] then False
      else case find_pred (mapping_ready pending) pending of
          None \<Rightarrow> True
        | Some i \<Rightarrow> child_fd_remap_requires_scratch (remove_at i pending))"
  by pat_completeness auto
termination
  by (relation "measure length") (auto simp: find_ready_Some dest: find_ready_Some(1))

declare child_fd_remap_requires_scratch.simps [simp del]

definition no_scratch_error :: string where
  "no_scratch_error = ''command descriptor remapping needs a scratch descriptor but none was reserved''"

definition ready_operation :: "fd \<times> fd \<Rightarrow> remap_op" where
  "ready_operation mapping = (case mapping of (source, target) \<Rightarrow>
     if source = target then ClearCloseOnExec source else Duplicate source target)"

definition replace_source :: "fd \<Rightarrow> fd \<Rightarrow> (fd \<times> fd) list \<Rightarrow> (fd \<times> fd) list" where
  "replace_source source scratch =
     map (\<lambda>(candidate_source, target). (if candidate_source = source then scratch else candidate_source, target))"

partial_function (option) remap_loop ::
  "fd option \<Rightarrow> (fd \<times> fd) list \<Rightarrow> remap_op list \<Rightarrow> bool \<Rightarrow> (string + (remap_op list \<times> bool)) option" where
  "remap_loop scratch pending operations used_scratch =
     (if pending = [] then Some (Inr (operations, used_scratch))
      else case find_pred (mapping_ready pending) pending of
          Some i \<Rightarrow> remap_loop scratch (remove_at i pending) (operations @ [ready_operation (pending ! i)]) used_scratch
        | None \<Rightarrow> (case scratch of
            None \<Rightarrow> Some (Inl no_scratch_error)
          | Some fd \<Rightarrow> remap_loop scratch (replace_source (fst (hd pending)) fd pending)
              (operations @ [Duplicate (fst (hd pending)) fd]) True))"

definition build_child_fd_remap_plan ::
  "(fd \<times> fd) list \<Rightarrow> fd option \<Rightarrow> (string + remap_op list) option" where
  \<comment> \<open>\<open>None\<close> when the loop does not end\<close>
  "build_child_fd_remap_plan mappings scratch = (case remap_loop scratch mappings [] False of
      None \<Rightarrow> None
    | Some (Inl e) \<Rightarrow> Some (Inl e)
    | Some (Inr (operations, used_scratch)) \<Rightarrow>
        Some (Inr (operations @ (if used_scratch then [CloseFd (the scratch)] else []))))"

subsection \<open>Preparing the descriptors\<close>

definition I32_MAX :: int where "I32_MAX = 2 ^ 31 - 1"

partial_function (option) avoid_targets ::
  "(fd \<Rightarrow> string + fd) \<Rightarrow> fd list \<Rightarrow> fd \<Rightarrow> (string + fd) option" where
  "avoid_targets duplicate_at_least targets minimum = (case duplicate_at_least minimum of
      Inl e \<Rightarrow> Some (Inl e)
    | Inr descriptor \<Rightarrow>
        if descriptor \<notin> set targets then Some (Inr descriptor)
        else if descriptor + 1 > I32_MAX then Some (Inl ''inherited command descriptor range is exhausted'')
        else avoid_targets duplicate_at_least targets (descriptor + 1))"

definition STDERR_FILENO :: fd where "STDERR_FILENO = 2"

definition duplicate_command_fd_avoiding_targets ::
  "(fd \<Rightarrow> string + fd) \<Rightarrow> fd list \<Rightarrow> (string + fd) option" where
  "duplicate_command_fd_avoiding_targets duplicate_at_least targets =
     avoid_targets duplicate_at_least targets (STDERR_FILENO + 1)"

fun file_targets :: "fd option \<Rightarrow> nat \<Rightarrow> nat \<Rightarrow> fd list \<Rightarrow> string + fd list" where
  \<comment> \<open>the loop over the inherited files: \<open>n\<close> files are left, \<open>index\<close> is the next one\<close>
  "file_targets base index 0 targets = Inr targets"
| "file_targets base index (Suc n) targets =
     (if int index > I32_MAX then Inl ''too many inherited command files''
      else case base of
          None \<Rightarrow> Inl ''inherited descriptor base is present for non-empty files''
        | Some b \<Rightarrow>
            if b + int index > I32_MAX then Inl ''too many inherited command files''
            else if b + int index \<le> STDERR_FILENO \<or> b + int index \<in> set targets
            then Inl ''inherited command descriptor target is duplicated''
            else file_targets base (Suc index) n ((b + int index) # targets))"

fun additional_targets :: "fd list \<Rightarrow> fd list \<Rightarrow> string + fd list" where
  "additional_targets [] targets = Inr targets"
| "additional_targets (target # rest) targets =
     (if target \<le> STDERR_FILENO \<or> target \<in> set targets
      then Inl ''inherited command descriptor target is invalid or duplicated''
      else additional_targets rest (target # targets))"

definition validate_within_limit :: "nat \<Rightarrow> fd list \<Rightarrow> string + unit" where
  \<comment> \<open>the soft limit on open files is a parameter; \<open>u128::try_from\<close> of a negative number gives 0\<close>
  "validate_within_limit soft_limit targets =
     (if targets = [] then Inr ()
      else if nat (Max (set targets)) \<ge> soft_limit
      then Inl ''inherited command descriptor exceeds the process file descriptor limit''
      else Inr ())"

definition inherited_targets :: "nat \<Rightarrow> fd option \<Rightarrow> nat \<Rightarrow> fd list \<Rightarrow> string + fd list" where
  \<comment> \<open>the targets \<open>prepare_command_inherited_fds\<close> accepts, for a number of files and the additional targets\<close>
  "inherited_targets soft_limit base files additional =
     (if files > 0 \<and> base = None then Inl ''command with inherited files has no descriptor base''
      else case file_targets base 0 files [] of
          Inl e \<Rightarrow> Inl e
        | Inr targets \<Rightarrow> (case additional_targets additional targets of
            Inl e \<Rightarrow> Inl e
          | Inr all_targets \<Rightarrow> (case validate_within_limit soft_limit all_targets of
              Inl e \<Rightarrow> Inl e | Inr _ \<Rightarrow> Inr all_targets)))"

subsection \<open>The targets are distinct and above the standard descriptors\<close>

definition targets_ok :: "fd list \<Rightarrow> bool" where
  "targets_ok targets = (distinct targets \<and> list_all (\<lambda>t. STDERR_FILENO < t) targets)"

lemma file_targets_ok:
  "file_targets base index n targets = Inr found \<Longrightarrow> targets_ok targets \<Longrightarrow> targets_ok found"
  by (induction base index n targets rule: file_targets.induct)
    (auto simp: targets_ok_def split: if_splits option.splits)

lemma additional_targets_ok:
  "additional_targets rest targets = Inr found \<Longrightarrow> targets_ok targets \<Longrightarrow> targets_ok found"
  by (induction rest targets rule: additional_targets.induct) (auto simp: targets_ok_def split: if_splits)

lemma inherited_targets_ok: "inherited_targets soft base files additional = Inr targets \<Longrightarrow> targets_ok targets"
  unfolding inherited_targets_def
  by (auto split: if_splits sum.splits dest!: file_targets_ok additional_targets_ok simp: targets_ok_def)

subsection \<open>The plan\<close>

definition sources :: "(fd \<times> fd) list \<Rightarrow> fd set" where "sources pending = fst ` set pending"

definition targets :: "(fd \<times> fd) list \<Rightarrow> fd set" where "targets pending = snd ` set pending"

lemma mapping_ready_iff: "mapping_ready pending (s, t) \<longleftrightarrow> s = t \<or> t \<notin> sources pending"
  by (force simp: mapping_ready_def list_ex_iff sources_def)

lemma remove_at_split:
  assumes "i < length xs"
  obtains us vs where "xs = us @ xs ! i # vs" "remove_at i xs = us @ vs"
  using assms id_take_nth_drop[of i xs] by (auto simp: remove_at_def)

lemma stuck_cycle:
  assumes "find_pred (mapping_ready pending) pending = None" "distinct (map snd pending)"
  shows "targets pending = sources pending" "\<forall>(s, t)\<in>set pending. s \<noteq> t"
proof -
  have n: "\<not> mapping_ready pending m" if "m \<in> set pending" for m
    using assms(1) that by (simp add: find_pred_None)
  have ne: "s \<noteq> t \<and> t \<in> sources pending" if "(s, t) \<in> set pending" for s t
    using n[OF that] by (simp add: mapping_ready_iff)
  then show "\<forall>(s, t)\<in>set pending. s \<noteq> t" by blast
  have sub: "targets pending \<subseteq> sources pending"
  proof
    fix t assume "t \<in> targets pending"
    then obtain s where "(s, t) \<in> set pending" unfolding targets_def by force
    then show "t \<in> sources pending" using ne by blast
  qed
  have "card (targets pending) = length pending"
    using assms(2) distinct_card[of "map snd pending"] by (simp add: targets_def)
  moreover have "card (sources pending) \<le> length pending"
    using card_length[of "map fst pending"] by (simp add: sources_def)
  moreover have "finite (sources pending)" by (simp add: sources_def)
  ultimately show "targets pending = sources pending" by (intro card_seteq sub) simp_all
qed

definition pending_files :: "(fd \<Rightarrow> 'f) \<Rightarrow> (fd \<times> fd) list \<Rightarrow> 'f fd_table \<Rightarrow> bool" where
  \<comment> \<open>every pending source still holds the file its target is to get\<close>
  "pending_files want pending tbl = (\<forall>(s, t)\<in>set pending. \<exists>flag. tbl s = Some (want t, flag))"

lemma pending_filesD: "pending_files want pending tbl \<Longrightarrow> (s, t) \<in> set pending \<Longrightarrow> \<exists>flag. tbl s = Some (want t, flag)"
  by (auto simp: pending_files_def)

lemma apply_all_append:
  "apply_all_operations (xs @ ys) tbl = (case apply_all_operations xs tbl of
     None \<Rightarrow> None | Some changed \<Rightarrow> apply_all_operations ys changed)"
  by (induction xs arbitrary: tbl) (auto split: option.split)

lemma ready_step:
  assumes "i < length pending" "mapping_ready pending (pending ! i)" "distinct (map snd pending)"
    "pending_files want pending tbl"
  shows "\<exists>changed. apply_child_fd_remap_operation (ready_operation (pending ! i)) tbl = Some changed
    \<and> changed (snd (pending ! i)) = Some (want (snd (pending ! i)), False)
    \<and> (\<forall>fd. fd \<noteq> snd (pending ! i) \<longrightarrow> changed fd = tbl fd)
    \<and> pending_files want (remove_at i pending) changed"
proof -
  obtain s t where st: "pending ! i = (s, t)" by (rule prod.exhaust)
  obtain us vs where p: "pending = us @ (s, t) # vs" "remove_at i pending = us @ vs"
    using remove_at_split[OF assms(1)] st by metis
  obtain flag where f: "tbl s = Some (want t, flag)" using pending_filesD[OF assms(4), of s t] p(1) by auto
  let ?changed = "tbl(t \<mapsto> (want t, False))"
  have op: "apply_child_fd_remap_operation (ready_operation (pending ! i)) tbl = Some ?changed"
    using f by (cases "s = t") (simp_all add: st ready_operation_def)
  have "pending_files want (us @ vs) ?changed"
    unfolding pending_files_def
  proof (intro ballI, clarify)
    fix a b assume ab: "(a, b) \<in> set (us @ vs)"
    obtain flag' where a: "tbl a = Some (want b, flag')" using pending_filesD[OF assms(4), of a b] p(1) ab by auto
    show "\<exists>flag. ?changed a = Some (want b, flag)"
    proof (cases "a = t")
      case True
      then have "t \<in> sources pending" using ab p(1) by (force simp: sources_def)
      then have "s = t" using assms(2) st by (simp add: mapping_ready_iff)
      then show ?thesis using True a f by (intro exI[of _ False]) simp
    qed (use a in simp)
  qed
  then show ?thesis using op p(2) by (auto simp: st)
qed

definition stuck :: "(fd \<times> fd) list \<Rightarrow> bool" where
  "stuck pending = (pending \<noteq> [] \<and> find_pred (mapping_ready pending) pending = None)"

lemma replace_source_facts:
  assumes "stuck pending" "distinct (map snd pending)" "c \<notin> targets pending"
  defines "s \<equiv> fst (hd pending)"
  shows "\<not> stuck (replace_source s c pending)" "map snd (replace_source s c pending) = map snd pending"
    "length (replace_source s c pending) = length pending" "targets (replace_source s c pending) = targets pending"
    "c \<notin> sources pending"
proof -
  show m: "map snd (replace_source s c pending) = map snd pending"
    by (simp add: replace_source_def case_prod_unfold comp_def)
  then show t: "targets (replace_source s c pending) = targets pending"
    unfolding targets_def by (metis list.set_map)
  show "length (replace_source s c pending) = length pending" by (simp add: replace_source_def)
  have cyc: "targets pending = sources pending" using stuck_cycle assms(1,2) by (auto simp: stuck_def)
  then show c: "c \<notin> sources pending" using assms(3) by simp
  show "\<not> stuck (replace_source s c pending)"
  proof
    assume st: "stuck (replace_source s c pending)"
    then have "targets (replace_source s c pending) = sources (replace_source s c pending)"
      using stuck_cycle(1)[of "replace_source s c pending"] assms(2) m by (auto simp: stuck_def)
    then have "targets pending = sources (replace_source s c pending)" using t by simp
    moreover have "c \<in> sources (replace_source s c pending)"
      using assms(1) by (cases pending) (auto simp: stuck_def s_def sources_def replace_source_def)
    ultimately show False using assms(3) by simp
  qed
qed

lemma scratch_step:
  assumes "stuck pending" "distinct (map snd pending)" "c \<notin> targets pending" "pending_files want pending tbl"
  defines "s \<equiv> fst (hd pending)"
  shows "\<exists>changed. apply_child_fd_remap_operation (Duplicate s c) tbl = Some changed \<and> changed c \<noteq> None
    \<and> (\<forall>fd. fd \<noteq> c \<longrightarrow> changed fd = tbl fd) \<and> pending_files want (replace_source s c pending) changed"
proof -
  have c: "c \<notin> sources pending" using replace_source_facts(5)[OF assms(1-3)] .
  obtain t rest where p: "pending = (s, t) # rest"
    using assms(1) by (cases pending) (auto simp: stuck_def s_def)
  obtain flag where f: "tbl s = Some (want t, flag)" using pending_filesD[OF assms(4), of s t] p by auto
  have ne: "s \<noteq> c" using c p by (auto simp: sources_def)
  let ?changed = "tbl(c \<mapsto> (want t, False))"
  have "pending_files want (replace_source s c pending) ?changed"
    unfolding pending_files_def
  proof (intro ballI, clarify)
    fix a b assume "(a, b) \<in> set (replace_source s c pending)"
    then obtain a0 where a0: "(a0, b) \<in> set pending" "a = (if a0 = s then c else a0)"
      by (auto simp: replace_source_def)
    then obtain flag' where fa: "tbl a0 = Some (want b, flag')" using pending_filesD[OF assms(4)] by blast
    have "a0 \<noteq> c" using c a0(1) by (force simp: sources_def)
    then show "\<exists>flag. ?changed a = Some (want b, flag)" using a0 fa f by auto
  qed
  then show ?thesis using f ne by auto
qed

subsection \<open>The calls realise the mapping\<close>

definition remap_result ::
  "fd option \<Rightarrow> (fd \<times> fd) list \<Rightarrow> (fd \<Rightarrow> 'f) \<Rightarrow> fd \<Rightarrow> 'f fd_table \<Rightarrow> remap_op list \<Rightarrow> bool \<Rightarrow> bool" where
  "remap_result scratch pending want c tbl acc used = (\<exists>operations u changed.
     remap_loop scratch pending acc used = Some (Inr (acc @ operations, u))
     \<and> apply_all_operations operations tbl = Some changed
     \<and> (\<forall>t\<in>targets pending. changed t = Some (want t, False))
     \<and> (\<forall>fd. fd \<notin> targets pending \<and> fd \<noteq> c \<longrightarrow> changed fd = tbl fd)
     \<and> (used \<longrightarrow> u) \<and> (u \<longrightarrow> used \<or> child_fd_remap_requires_scratch pending)
     \<and> (child_fd_remap_requires_scratch pending \<longrightarrow> u \<and> changed c \<noteq> None)
     \<and> (\<not> child_fd_remap_requires_scratch pending \<longrightarrow> changed c = tbl c))"

lemma targets_remove_at:
  assumes "i < length pending" "distinct (map snd pending)"
  shows "targets pending = insert (snd (pending ! i)) (targets (remove_at i pending))"
    "snd (pending ! i) \<notin> targets (remove_at i pending)" "distinct (map snd (remove_at i pending))"
proof -
  obtain us vs where p: "pending = us @ pending ! i # vs" "remove_at i pending = us @ vs"
    using remove_at_split[OF assms(1)] by metis
  have d: "distinct (map snd (us @ pending ! i # vs))" using assms(2) p(1) by metis
  have "targets (us @ pending ! i # vs) = insert (snd (pending ! i)) (targets (us @ vs))"
    by (simp add: targets_def)
  then show "targets pending = insert (snd (pending ! i)) (targets (remove_at i pending))" using p by metis
  show "snd (pending ! i) \<notin> targets (remove_at i pending)" "distinct (map snd (remove_at i pending))"
    using d by (auto simp: p(2) targets_def)
qed

lemma remap_loop_ready:
  assumes "pending \<noteq> []" "find_pred (mapping_ready pending) pending = Some i" "distinct (map snd pending)"
    "c \<notin> targets pending" "pending_files want pending tbl"
    "\<And>changed. pending_files want (remove_at i pending) changed \<Longrightarrow>
       remap_result scratch (remove_at i pending) want c changed (acc @ [ready_operation (pending ! i)]) used"
  shows "remap_result scratch pending want c tbl acc used"
proof -
  note i = find_ready_Some[OF assms(2)]
  let ?t = "snd (pending ! i)"
  obtain first where f: "apply_child_fd_remap_operation (ready_operation (pending ! i)) tbl = Some first"
    "first ?t = Some (want ?t, False)" "\<forall>fd. fd \<noteq> ?t \<longrightarrow> first fd = tbl fd"
    "pending_files want (remove_at i pending) first"
    using ready_step[OF i(1,2) assms(3,5)] by blast
  obtain operations u changed where r:
    "remap_loop scratch (remove_at i pending) (acc @ [ready_operation (pending ! i)]) used
       = Some (Inr ((acc @ [ready_operation (pending ! i)]) @ operations, u))"
    "apply_all_operations operations first = Some changed"
    "\<forall>t\<in>targets (remove_at i pending). changed t = Some (want t, False)"
    "\<forall>fd. fd \<notin> targets (remove_at i pending) \<and> fd \<noteq> c \<longrightarrow> changed fd = first fd"
    "used \<longrightarrow> u" "u \<longrightarrow> used \<or> child_fd_remap_requires_scratch (remove_at i pending)"
    "child_fd_remap_requires_scratch (remove_at i pending) \<longrightarrow> u \<and> changed c \<noteq> None"
    "\<not> child_fd_remap_requires_scratch (remove_at i pending) \<longrightarrow> changed c = first c"
    using assms(6)[OF f(4)] unfolding remap_result_def by blast
  note T = targets_remove_at[OF i(1) assms(3)]
  have req: "child_fd_remap_requires_scratch pending = child_fd_remap_requires_scratch (remove_at i pending)"
    using assms(1,2) by (subst child_fd_remap_requires_scratch.simps) simp
  have tc: "?t \<noteq> c" using T(1) assms(4) by auto
  have "remap_loop scratch pending acc used = Some (Inr (acc @ ready_operation (pending ! i) # operations, u))"
    using r(1) assms(1,2) by (subst remap_loop.simps) simp
  moreover have "apply_all_operations (ready_operation (pending ! i) # operations) tbl = Some changed"
    using f(1) r(2) by simp
  moreover have "changed ?t = Some (want ?t, False)" using r(4) T(2) tc f(2) by simp
  ultimately show ?thesis
    unfolding remap_result_def req
    using r(3-8) f(3) T(1) tc
    by (intro exI[of _ "ready_operation (pending ! i) # operations"] exI[of _ u] exI[of _ changed]) simp
qed

lemma remap_loop_stuck:
  assumes "stuck pending" "distinct (map snd pending)" "c \<notin> targets pending" "pending_files want pending tbl"
    "\<And>changed. pending_files want (replace_source (fst (hd pending)) c pending) changed \<Longrightarrow>
       remap_result (Some c) (replace_source (fst (hd pending)) c pending) want c changed
         (acc @ [Duplicate (fst (hd pending)) c]) True"
  shows "remap_result (Some c) pending want c tbl acc used"
proof -
  let ?op = "Duplicate (fst (hd pending)) c" and ?next = "replace_source (fst (hd pending)) c pending"
  obtain first where f: "apply_child_fd_remap_operation ?op tbl = Some first" "first c \<noteq> None"
    "\<forall>fd. fd \<noteq> c \<longrightarrow> first fd = tbl fd" "pending_files want ?next first"
    using scratch_step[OF assms(1-4)] by blast
  obtain operations u changed where r:
    "remap_loop (Some c) ?next (acc @ [?op]) True = Some (Inr ((acc @ [?op]) @ operations, u))"
    "apply_all_operations operations first = Some changed"
    "\<forall>t\<in>targets ?next. changed t = Some (want t, False)"
    "\<forall>fd. fd \<notin> targets ?next \<and> fd \<noteq> c \<longrightarrow> changed fd = first fd" "u"
    "child_fd_remap_requires_scratch ?next \<longrightarrow> changed c \<noteq> None"
    "\<not> child_fd_remap_requires_scratch ?next \<longrightarrow> changed c = first c"
    using assms(5)[OF f(4)] unfolding remap_result_def by blast
  have none: "pending \<noteq> []" "find_pred (mapping_ready pending) pending = None"
    using assms(1) by (simp_all add: stuck_def)
  then have req: "child_fd_remap_requires_scratch pending" by (subst child_fd_remap_requires_scratch.simps) simp
  have "remap_loop (Some c) pending acc used = Some (Inr (acc @ ?op # operations, u))"
    using r(1) none by (subst remap_loop.simps) simp
  moreover have "apply_all_operations (?op # operations) tbl = Some changed" using f(1) r(2) by simp
  moreover have "changed c \<noteq> None" using r(6,7) f(2) by (cases "child_fd_remap_requires_scratch ?next") simp_all
  ultimately show ?thesis
    unfolding remap_result_def
    using r(3-5) f(3) req replace_source_facts(4)[OF assms(1-3)]
    by (intro exI[of _ "?op # operations"] exI[of _ u] exI[of _ changed]) simp
qed

lemma remap_loop_correct:
  assumes "distinct (map snd pending)" "c \<notin> targets pending" "pending_files want pending tbl"
    "scratch = Some c \<or> (scratch = None \<and> \<not> child_fd_remap_requires_scratch pending)"
  shows "remap_result scratch pending want c tbl acc used"
  using assms
proof (induction "2 * length pending + (if stuck pending then 1 else 0)" arbitrary: pending tbl acc used rule: less_induct)
  case less
  show ?case
  proof (cases "pending = []")
    case True
    then show ?thesis
      unfolding remap_result_def
      by (subst remap_loop.simps) (simp add: targets_def child_fd_remap_requires_scratch.simps)
  next
    case False
    show ?thesis
    proof (cases "find_pred (mapping_ready pending) pending")
      case (Some i)
      note i = find_ready_Some[OF Some] and T = targets_remove_at[OF find_ready_Some(1)[OF Some] less.prems(1)]
      have small: "2 * length (remove_at i pending) + (if stuck (remove_at i pending) then 1 else 0)
          < 2 * length pending + (if stuck pending then 1 else 0)"
      proof -
        have l: "length pending = Suc (length (remove_at i pending))" using i(1,3) by simp
        show ?thesis unfolding l by simp
      qed
      have req: "child_fd_remap_requires_scratch pending = child_fd_remap_requires_scratch (remove_at i pending)"
        using False Some by (subst child_fd_remap_requires_scratch.simps) simp
      show ?thesis
        by (rule remap_loop_ready[OF False Some less.prems(1-3)], rule less.hyps[OF small T(3)])
          (use T(1) less.prems(2,4) req in auto)
    next
      case None
      then have st: "stuck pending" using False by (simp add: stuck_def)
      have "child_fd_remap_requires_scratch pending"
        using None False by (subst child_fd_remap_requires_scratch.simps) simp
      then have c: "scratch = Some c" using less.prems(4) by simp
      note R = replace_source_facts[OF st less.prems(1,2)]
      have small: "2 * length (replace_source (fst (hd pending)) c pending)
          + (if stuck (replace_source (fst (hd pending)) c pending) then 1 else 0)
          < 2 * length pending + (if stuck pending then 1 else 0)"
        using R(1,3) st by simp
      show ?thesis
        unfolding c
        by (rule remap_loop_stuck[OF st less.prems(1-3)], rule less.hyps[OF small, unfolded c])
          (use R(2,4) less.prems(1,2) in auto)
    qed
  qed
qed

text \<open>
  C20: The child ends up with exactly the descriptors the parent asked for. Let the parent have accepted the targets,
  let every source be open and let the scratch descriptor be none of the targets. Then the planning ends with a
  plan, with the scratch descriptor reserved only if the test for it says so; every call of the plan succeeds in the
  child; afterwards every target refers to the open file its source referred to at the start and stays open across
  \<open>exec\<close>, however sources and targets overlap; the scratch descriptor is closed again when it was used; and no other
  descriptor has changed.
\<close>
theorem child_fds_remapped:
  assumes "inherited_targets soft base files additional = Inr accepted" "map snd mappings = rev accepted"
    "list_all (\<lambda>(source, _). tbl source \<noteq> None) mappings" "scratch \<notin> set accepted"
  defines "needed \<equiv> child_fd_remap_requires_scratch mappings"
  shows "\<exists>operations changed.
      build_child_fd_remap_plan mappings (if needed then Some scratch else None) = Some (Inr operations)
    \<and> apply_all_operations operations tbl = Some changed
    \<and> list_all (\<lambda>(source, target). changed target = map_option (\<lambda>(f, _). (f, False)) (tbl source)) mappings
    \<and> (\<forall>fd. fd \<notin> set accepted \<longrightarrow> changed fd = (if needed \<and> fd = scratch then None else tbl fd))"
proof -
  define want where "want t = fst (the (tbl (the (map_of (map prod.swap mappings) t))))" for t
  have d: "distinct (map snd mappings)"
    using inherited_targets_ok[OF assms(1)] assms(2) by (simp add: targets_ok_def)
  have T: "targets mappings = set accepted" using assms(2) unfolding targets_def by (metis list.set_map set_rev)
  have c: "scratch \<notin> targets mappings" using T assms(4) by simp
  have w: "\<exists>flag. tbl s = Some (want t, flag)" if m: "(s, t) \<in> set mappings" for s t
  proof -
    have "distinct (map fst (map prod.swap mappings))" using d by (simp add: comp_def)
    then have "map_of (map prod.swap mappings) t = Some s"
      using m by (simp add: map_of_eq_Some_iff image_iff) (metis swap_simp)
    moreover obtain f flag where "tbl s = Some (f, flag)" using bspec[OF assms(3)[unfolded list_all_iff] m] by auto
    ultimately show ?thesis by (simp add: want_def)
  qed
  then have p: "pending_files want mappings tbl" by (auto simp: pending_files_def)
  have "remap_result (if needed then Some scratch else None) mappings want scratch tbl [] False"
    by (rule remap_loop_correct[OF d c p]) (simp add: needed_def)
  then obtain operations u changed where raw:
    "remap_loop (if needed then Some scratch else None) mappings [] False = Some (Inr ([] @ operations, u))"
    "apply_all_operations operations tbl = Some changed" "\<forall>t\<in>targets mappings. changed t = Some (want t, False)"
    "\<forall>fd. fd \<notin> targets mappings \<and> fd \<noteq> scratch \<longrightarrow> changed fd = tbl fd" "False \<longrightarrow> u"
    "u \<longrightarrow> False \<or> child_fd_remap_requires_scratch mappings"
    "child_fd_remap_requires_scratch mappings \<longrightarrow> u \<and> changed scratch \<noteq> None"
    "\<not> child_fd_remap_requires_scratch mappings \<longrightarrow> changed scratch = tbl scratch"
    unfolding remap_result_def by blast
  have "u \<longleftrightarrow> needed" "needed \<longrightarrow> changed scratch \<noteq> None" "\<not> needed \<longrightarrow> changed scratch = tbl scratch"
    using raw(6-8) unfolding needed_def by blast+
  note r = raw(1)[unfolded append_Nil] raw(2-4) this
  define final where "final = (if needed then changed(scratch := None) else changed)"
  have plan: "build_child_fd_remap_plan mappings (if needed then Some scratch else None)
      = Some (Inr (operations @ (if needed then [CloseFd scratch] else [])))"
    unfolding build_child_fd_remap_plan_def r(1) using r(5) by simp
  have run: "apply_all_operations (operations @ (if needed then [CloseFd scratch] else [])) tbl = Some final"
    unfolding apply_all_append r(2) using r(6) by (auto simp: final_def)
  have "final t = map_option (\<lambda>(f, _). (f, False)) (tbl s)" if "(s, t) \<in> set mappings" for s t
  proof -
    have t: "t \<in> targets mappings" using that unfolding targets_def by force
    then have "final t = Some (want t, False)" using r(3) c by (auto simp: final_def)
    then show ?thesis using w[OF that] by auto
  qed
  moreover have "final fd = (if needed \<and> fd = scratch then None else tbl fd)" if "fd \<notin> set accepted" for fd
    using r(4,7) that T by (cases "fd = scratch") (auto simp: final_def)
  ultimately show ?thesis
    using plan run by (intro exI[of _ "operations @ (if needed then [CloseFd scratch] else [])"] exI[of _ final])
      (auto simp: list_all_iff)
qed

theorem child_fds_remapped_witness:
  "\<exists>operations changed.
      build_child_fd_remap_plan [(5, 6), (6, 5)] (Some 9) = Some (Inr operations)
    \<and> apply_all_operations operations [5 \<mapsto> (''a'', True), 6 \<mapsto> (''b'', True)] = Some changed
    \<and> changed 6 = Some (''a'', False) \<and> changed 5 = Some (''b'', False) \<and> changed 9 = None"
proof -
  let ?m = "[(5, 6), (6, 5)] :: (fd \<times> fd) list"
  have ok: "inherited_targets 256 None 0 [6, 5] = Inr [5, 6]"
    by (simp add: inherited_targets_def validate_within_limit_def STDERR_FILENO_def)
  have need: "child_fd_remap_requires_scratch ?m"
    by (subst child_fd_remap_requires_scratch.simps) (simp add: mapping_ready_def)
  show ?thesis
proof -
    let ?t = "[5 \<mapsto> (''a'', True), 6 \<mapsto> (''b'', True)]"
    have open_all: "list_all (\<lambda>(source, _). ?t source \<noteq> None) ?m" by (simp del: not_None_eq)
    have order: "map snd ?m = rev [5, 6]" and free: "9 \<notin> set [5, 6 :: fd]" by simp_all
    obtain operations changed where
      "build_child_fd_remap_plan ?m (Some 9) = Some (Inr operations)" "apply_all_operations operations ?t = Some changed"
      "list_all (\<lambda>(source, target). changed target = map_option (\<lambda>(f, _). (f, False)) (?t source)) ?m"
      "\<forall>fd. fd \<notin> set [5, 6] \<longrightarrow> changed fd = (if True \<and> fd = 9 then None else ?t fd)"
      using child_fds_remapped[OF ok order open_all free, unfolded eqTrueI[OF need] if_True] by blast
    then show ?thesis by (intro exI[of _ operations] exI[of _ changed]) simp
  qed
qed

text \<open>
  A duplicate that avoids the targets is found whenever the system hands out descriptors not below the requested
  minimum; the search then ends.
\<close>

lemma avoid_targets_returns:
  assumes "\<And>m d. duplicate m = Inr d \<Longrightarrow> m \<le> d"
  shows "\<exists>r. avoid_targets duplicate taken minimum = Some r \<and> (\<forall>d. r = Inr d \<longrightarrow> d \<notin> set taken \<and> minimum \<le> d)"
proof (induction "nat (I32_MAX + 1 - minimum)" arbitrary: minimum rule: less_induct)
  case less
  show ?case
  proof (cases "duplicate minimum")
    case (Inr d)
    then have m: "minimum \<le> d" using assms by blast
    show ?thesis
    proof (cases "d \<in> set taken \<and> d + 1 \<le> I32_MAX")
      case True
      then have "nat (I32_MAX + 1 - (d + 1)) < nat (I32_MAX + 1 - minimum)" using m by auto
      from less[OF this] obtain r where "avoid_targets duplicate taken (d + 1) = Some r"
        "\<forall>x. r = Inr x \<longrightarrow> x \<notin> set taken \<and> d + 1 \<le> x" by blast
      then show ?thesis using Inr True m by (subst avoid_targets.simps) auto
    next
      case False
      then show ?thesis using Inr m by (subst avoid_targets.simps) auto
    qed
  qed (subst avoid_targets.simps, simp)
qed

end
