(* ===== verification/CloudState.thy ===== *)
theory CloudState
  imports BTree "HOL-Library.Product_Lexorder"
begin

section \<open>The cloud state and its chunks (\<open>cloud.rs\<close>)\<close>

text \<open>
  The local service publishes its state to a cloud worker as two JSON partitions, cut into chunks of at most 32 KiB
  that are addressed by their SHA-256, and a manifest that lists the chunks. Values of \<open>serde_json\<close> are a datatype,
  an object the bindings of its \<open>BTreeMap\<close>. SHA-256 and \<open>serde_json::to_vec\<close> are parameters.
\<close>

subsection \<open>JSON values and errors\<close>

datatype json =
    JNull
  | JBool bool
  | JUnsigned u64
  | JNegative i64
  | JFloat string                              \<comment> \<open>by its text\<close>
  | JString string
  | JArray "json list"
  | JObject "(string \<times> json) list"

datatype cloud_error =
    CloudStateComplexityExceeded
  | CloudStateVersionExhausted
  | CloudInboxRecoveryIncomplete
  | CloudDatabaseEpochChanged string string    \<comment> \<open>expected, actual\<close>
  | CloudInboxSequenceConflict u64
  | CloudError string

primrec bind_result :: "'e + 'a \<Rightarrow> ('a \<Rightarrow> 'e + 'b) \<Rightarrow> 'e + 'b" where
  "bind_result (Inl e) f = Inl e"
| "bind_result (Inr x) f = f x"

lemma bind_result_Inr_iff: "bind_result r f = Inr y \<longleftrightarrow> (\<exists>x. r = Inr x \<and> f x = Inr y)"
  by (cases r) simp_all

lemma bind_result_Inl_iff: "bind_result r f = Inl e \<longleftrightarrow> r = Inl e \<or> (\<exists>x. r = Inr x \<and> f x = Inl e)"
  by (cases r) simp_all

definition guard_result :: "bool \<Rightarrow> 'e \<Rightarrow> 'e + unit" where
  "guard_result b e = (if b then Inr () else Inl e)"

lemma guard_result_Inr_iff [simp]: "guard_result b e = Inr u \<longleftrightarrow> b"
  by (simp add: guard_result_def)

lemma guard_result_Inl_iff [simp]: "guard_result b e = Inl e' \<longleftrightarrow> \<not> b \<and> e' = e"
  by (auto simp: guard_result_def)

definition json_object :: "(string \<times> json) list \<Rightarrow> json" where
  "json_object fields = JObject (bt_collect fields)"

definition json_get :: "json \<Rightarrow> string \<Rightarrow> json option" where
  "json_get v k = (case v of JObject fields \<Rightarrow> map_of fields k | _ \<Rightarrow> None)"

definition as_str :: "json \<Rightarrow> string option" where
  "as_str v = (case v of JString s \<Rightarrow> Some s | _ \<Rightarrow> None)"

definition as_u64 :: "json \<Rightarrow> u64 option" where
  "as_u64 v = (case v of JUnsigned n \<Rightarrow> Some n | _ \<Rightarrow> None)"

definition as_array :: "json \<Rightarrow> json list option" where
  "as_array v = (case v of JArray xs \<Rightarrow> Some xs | _ \<Rightarrow> None)"

definition as_object :: "json \<Rightarrow> (string \<times> json) list option" where
  "as_object v = (case v of JObject fields \<Rightarrow> Some fields | _ \<Rightarrow> None)"

definition get_str :: "json \<Rightarrow> string \<Rightarrow> string option" where
  "get_str v k = Option.bind (json_get v k) as_str"

subsection \<open>The complexity check\<close>

definition MAX_CLOUD_STATE_JSON_DEPTH :: nat where "MAX_CLOUD_STATE_JSON_DEPTH = 48"
definition MAX_CLOUD_STATE_JSON_NODES :: nat where "MAX_CLOUD_STATE_JSON_NODES = 1000000"

definition json_children :: "json \<Rightarrow> json list" where
  "json_children v = (case v of JArray xs \<Rightarrow> xs | JObject fields \<Rightarrow> map snd fields | _ \<Rightarrow> [])"

lemma size_json_child: "x \<in> set (json_children v) \<Longrightarrow> size x < size v"
proof (cases v)
  case (JArray xs)
  assume "x \<in> set (json_children v)"
  then show ?thesis using JArray size_list_estimation'[of x xs "size x" size] by (simp add: json_children_def)
next
  case (JObject fields)
  assume "x \<in> set (json_children v)"
  then obtain k where kx: "(k, x) \<in> set fields" by (auto simp: json_children_def JObject)
  have "size x \<le> size_prod (\<lambda>x. 0) size (k, x)" by simp
  from size_list_estimation'[OF kx, of "size x" "size_prod (\<lambda>x. 0) size"] this
  show ?thesis by (simp add: JObject)
qed (simp_all add: json_children_def)

function json_nodes :: "json \<Rightarrow> nat" where
  \<comment> \<open>the number of values, the value itself included\<close>
  "json_nodes v = Suc (sum_list (map json_nodes (json_children v)))"
  by auto
termination by (relation "measure size") (auto simp: size_json_child)

function json_depth :: "json \<Rightarrow> nat" where
  "json_depth v = fold max (map (\<lambda>x. Suc (json_depth x)) (json_children v)) 0"
  by auto
termination by (relation "measure size") (auto simp: size_json_child)

declare json_nodes.simps [simp del] json_depth.simps [simp del]

definition push_children :: "json \<Rightarrow> nat \<Rightarrow> (json \<times> nat) list \<Rightarrow> (json \<times> nat) list" where
  \<comment> \<open>the stack is a list with its top first, so the last child comes first\<close>
  "push_children v depth pending = rev (map (\<lambda>item. (item, depth + 1)) (json_children v)) @ pending"

definition pending_nodes :: "(json \<times> nat) list \<Rightarrow> nat" where
  "pending_nodes pending = sum_list (map (\<lambda>(v, _). json_nodes v) pending)"

lemma pending_nodes_push:
  "pending_nodes ((v, d) # pending) = Suc (pending_nodes (push_children v d pending))"
proof -
  have "sum_list (map json_nodes (json_children v))
      = sum_list (map ((\<lambda>(v, _). json_nodes v) \<circ> (\<lambda>item. (item, d + 1))) (rev (json_children v)))"
    by (simp add: comp_def rev_map[symmetric])
  then show ?thesis
    by (simp add: pending_nodes_def push_children_def json_nodes.simps[of v] rev_map)
qed

function complexity_loop :: "(json \<times> nat) list \<Rightarrow> nat \<Rightarrow> cloud_error + unit" where
  "complexity_loop [] nodes = Inr ()"
| "complexity_loop ((current, depth) # pending) nodes =
     (let nodes = usat_add nodes 1
      in if MAX_CLOUD_STATE_JSON_NODES < nodes then Inl CloudStateComplexityExceeded
         else if MAX_CLOUD_STATE_JSON_DEPTH < depth then Inl CloudStateComplexityExceeded
         else complexity_loop (push_children current depth pending) nodes)"
  by pat_completeness auto
termination by (relation "measure (\<lambda>(pending, _). pending_nodes pending)") (auto simp: pending_nodes_push)

declare complexity_loop.simps [simp del]

definition validate_cloud_json_complexity :: "json \<Rightarrow> cloud_error + unit" where
  "validate_cloud_json_complexity v = complexity_loop [(v, 0)] 0"

lemma fold_max_le: "fold max xs a \<le> (n :: nat) \<longleftrightarrow> a \<le> n \<and> (\<forall>x\<in>set xs. x \<le> n)"
  by (induction xs arbitrary: a) auto

lemma json_depth_le:
  "d + json_depth v \<le> n \<longleftrightarrow> d \<le> n \<and> (\<forall>x\<in>set (json_children v). Suc d + json_depth x \<le> n)"
proof -
  have "d + json_depth v \<le> n \<longleftrightarrow> d \<le> n \<and> json_depth v \<le> n - d" by linarith
  also have "\<dots> \<longleftrightarrow> d \<le> n \<and> (\<forall>x\<in>set (json_children v). Suc (json_depth x) \<le> n - d)"
    by (subst json_depth.simps) (simp add: fold_max_le)
  also have "\<dots> \<longleftrightarrow> d \<le> n \<and> (\<forall>x\<in>set (json_children v). Suc d + json_depth x \<le> n)"
    by (rule conj_cong[OF refl]) (simp add: le_diff_conv2 add.commute)
  finally show ?thesis .
qed

lemma complexity_loop_exact:
  "nodes \<le> MAX_CLOUD_STATE_JSON_NODES \<Longrightarrow>
   complexity_loop pending nodes
     = (if nodes + pending_nodes pending \<le> MAX_CLOUD_STATE_JSON_NODES
           \<and> (\<forall>(v, d)\<in>set pending. d + json_depth v \<le> MAX_CLOUD_STATE_JSON_DEPTH)
        then Inr () else Inl CloudStateComplexityExceeded)"
proof (induction pending nodes rule: complexity_loop.induct)
  case (1 nodes)
  then show ?case by (simp add: complexity_loop.simps pending_nodes_def)
next
  case (2 v d pending nodes)
  have s: "usat_add nodes 1 = Suc nodes"
    using 2(2) usat_add_exact[of nodes 1] by (simp add: MAX_CLOUD_STATE_JSON_NODES_def usize_max_def)
  have deep: "(\<forall>(v, d)\<in>set ((v, d) # pending). d + json_depth v \<le> MAX_CLOUD_STATE_JSON_DEPTH)
      \<longleftrightarrow> d \<le> MAX_CLOUD_STATE_JSON_DEPTH
        \<and> (\<forall>(v, d)\<in>set (push_children v d pending). d + json_depth v \<le> MAX_CLOUD_STATE_JSON_DEPTH)"
    by (simp add: push_children_def json_depth_le[of d v] ball_Un)
  show ?case
  proof (cases "Suc nodes \<le> MAX_CLOUD_STATE_JSON_NODES \<and> d \<le> MAX_CLOUD_STATE_JSON_DEPTH")
    case True
    have "complexity_loop ((v, d) # pending) nodes = complexity_loop (push_children v d pending) (Suc nodes)"
      using True by (simp add: complexity_loop.simps(2) s[unfolded One_nat_def])
    also note 2(1)[OF s[symmetric]]
    finally show ?thesis
      using True by (simp only: deep pending_nodes_push add_Suc_right add_Suc) (simp add: not_less)
  next
    case False
    have "complexity_loop ((v, d) # pending) nodes = Inl CloudStateComplexityExceeded"
      using False by (auto simp add: complexity_loop.simps(2) s[unfolded One_nat_def])
    moreover have "\<not> (nodes + pending_nodes ((v, d) # pending) \<le> MAX_CLOUD_STATE_JSON_NODES
        \<and> (\<forall>(v, d)\<in>set ((v, d) # pending). d + json_depth v \<le> MAX_CLOUD_STATE_JSON_DEPTH))"
      using False unfolding deep pending_nodes_push
      by (metis add_Suc add_Suc_right add_leD1)
    ultimately show ?thesis by simp
  qed
qed

text \<open>
  C19: The complexity check, an iterative walk with a stack and two early exits, accepts a JSON value exactly when it
  consists of at most a million values nested at most 48 levels deep, both defined by recursion over the value; it
  rejects every other value with the error that the client reports as too large.
\<close>

theorem complexity_check_exact:
  "validate_cloud_json_complexity v =
     (if json_nodes v \<le> MAX_CLOUD_STATE_JSON_NODES \<and> json_depth v \<le> MAX_CLOUD_STATE_JSON_DEPTH
      then Inr () else Inl CloudStateComplexityExceeded)"
  using complexity_loop_exact[of 0 "[(v, 0)]"]
  by (simp add: validate_cloud_json_complexity_def pending_nodes_def)

subsection \<open>Cutting a partition into chunks\<close>

definition CLOUD_STATE_CHUNK_BYTES :: nat where "CLOUD_STATE_CHUNK_BYTES = 32 * 1024"

definition utf8_continuation :: "nat \<Rightarrow> bool" where
  "utf8_continuation a = (128 \<le> a \<and> a < 192)"

definition valid_utf8_char :: "string \<Rightarrow> bool" where
  "valid_utf8_char u = (case map byte u of
      [a] \<Rightarrow> a < 128
    | [a, b] \<Rightarrow> 194 \<le> a \<and> a \<le> 223 \<and> utf8_continuation b
    | [a, b, c] \<Rightarrow> (if a = 224 then 160 \<le> b \<and> b \<le> 191
                   else if a = 237 then 128 \<le> b \<and> b \<le> 159
                   else 225 \<le> a \<and> a \<le> 239 \<and> utf8_continuation b) \<and> utf8_continuation c
    | [a, b, c, d] \<Rightarrow> (if a = 240 then 144 \<le> b \<and> b \<le> 191
                      else if a = 244 then 128 \<le> b \<and> b \<le> 143
                      else 241 \<le> a \<and> a \<le> 243 \<and> utf8_continuation b)
                     \<and> utf8_continuation c \<and> utf8_continuation d
    | _ \<Rightarrow> False)"

definition valid_utf8 :: "string \<Rightarrow> bool" where
  \<comment> \<open>\<open>str::from_utf8\<close> succeeds\<close>
  "valid_utf8 s = list_all valid_utf8_char (chars s)"

type_synonym chunk_map = "(string \<times> string) list"          \<comment> \<open>digest to bytes\<close>

definition chunk_reference :: "string \<Rightarrow> string \<Rightarrow> json" where
  "chunk_reference sha256 chunk =
     json_object [(''sha256'', JString sha256), (''bytes'', JUnsigned (of_nat (length chunk)))]"

function chunk_loop ::
  "(string \<Rightarrow> string) \<Rightarrow> string \<Rightarrow> nat \<Rightarrow> chunk_map \<Rightarrow> json list \<Rightarrow> cloud_error + json list \<times> chunk_map"
where
  "chunk_loop sha256 t start unique_chunks references =
     (if start < length t then
        (let stop = floor_char_boundary t (min (usat_add start CLOUD_STATE_CHUNK_BYTES) (length t))
         in if \<not> start < stop then
              Inl (CloudError ''failed to split UTF-8 cloud state at a character boundary'')
            else
              (let chunk = take (stop - start) (drop start t);
                   key = sha256 chunk;
                   references' = references @ [chunk_reference key chunk]
               in case map_of unique_chunks key of
                    Some existing \<Rightarrow>
                      if existing \<noteq> chunk then
                        Inl (CloudError ''cloud state SHA-256 collision detected while preparing chunks'')
                      else chunk_loop sha256 t stop unique_chunks references'
                  | None \<Rightarrow> chunk_loop sha256 t stop (bt_insert key chunk unique_chunks) references'))
      else Inr (references, unique_chunks))"
  by pat_completeness auto
termination by (relation "measure (\<lambda>(_, t, start, _, _). length t - start)") auto

declare chunk_loop.simps [simp del]

definition chunk_cloud_partition ::
  "(string \<Rightarrow> string) \<Rightarrow> string \<Rightarrow> chunk_map \<Rightarrow> cloud_error + json list \<times> chunk_map" where
  "chunk_cloud_partition sha256 bytes unique_chunks =
     (if \<not> valid_utf8 bytes then Inl (CloudError ''serialized cloud state must be UTF-8'')
      else chunk_loop sha256 bytes 0 unique_chunks [])"

subsection \<open>A chunk is never empty\<close>

lemma valid_utf8_first:
  assumes "valid_utf8 (c # s)" shows "\<not> utf8_continuation (byte c)"
proof -
  have "valid_utf8_char (c # take (utf8_width c - 1) s)"
    using assms by (simp add: valid_utf8_def)
  then show ?thesis
    by (auto simp: valid_utf8_char_def utf8_continuation_def split: list.splits if_splits)
qed

lemma utf8_width_bounds: "0 < utf8_width c" "utf8_width c \<le> 4"
  by (simp_all add: utf8_width_def)

lemma valid_utf8_boundary_near:
  "valid_utf8 s \<Longrightarrow> i + 3 < length s \<Longrightarrow> \<exists>j \<ge> i. j \<le> i + 3 \<and> is_char_boundary s j"
proof (induction s arbitrary: i rule: chars.induct)
  case 1
  then show ?case by simp
next
  case (2 c cs)
  define w where "w = utf8_width c"
  define t where "t = drop (w - 1) cs"
  have w: "0 < w" "w \<le> 4" using utf8_width_bounds[of c] by (simp_all add: w_def)
  have vt: "valid_utf8 t" using 2(2) by (simp add: valid_utf8_def t_def w_def)
  have nth: "(c # cs) ! (w + k) = t ! k" if "w + k < length (c # cs)" for k
    using that w by (simp add: t_def nth_Cons')
  have len: "length (c # cs) = w + length t" if "w < length (c # cs)"
    using that w by (simp add: t_def)
  consider "i = 0" | "0 < i" "i \<le> w" | "w < i" by linarith
  then show ?case
  proof cases
    case 1
    then show ?thesis by (intro exI[of _ 0]) (simp add: is_char_boundary_def)
  next
    case 2
    have lt: "w < length (c # cs)" using 2 w \<open>i + 3 < length (c # cs)\<close> by linarith
    then obtain d u where t: "t = d # u" using len by (cases t) auto
    have "is_char_boundary (c # cs) w"
      using valid_utf8_first[of d u] vt nth[of 0] lt
      by (simp add: is_char_boundary_def t utf8_continuation_def)
    then show ?thesis using 2 w by (intro exI[of _ w]) simp
  next
    case 3
    have lt: "w < length (c # cs)" using 3 \<open>i + 3 < length (c # cs)\<close> by linarith
    have "i - w + 3 < length t" using len[OF lt] 3 \<open>i + 3 < length (c # cs)\<close> by linarith
    from "2.IH"[folded w_def, folded t_def, OF vt this] obtain j where
      j: "i - w \<le> j" "j \<le> i - w + 3" "is_char_boundary t j" by blast
    have "is_char_boundary (c # cs) (w + j)"
    proof (cases "j < length t")
      case True
      then have "w + j < length (c # cs)" using len[OF lt] by simp
      then show ?thesis
        using j(3) nth[of j] True valid_utf8_first[of "hd t" "tl t"] vt
        by (cases "j = 0"; cases t) (auto simp: is_char_boundary_def utf8_continuation_def)
    next
      case False
      then show ?thesis using j(3) len[OF lt] w by (auto simp: is_char_boundary_def)
    qed
    then show ?thesis using j(1,2) 3 by (intro exI[of _ "w + j"] conjI) linarith+
  qed
qed

lemma floor_char_boundary_greatest:
  "j \<le> n \<Longrightarrow> is_char_boundary s j \<Longrightarrow> j \<le> floor_char_boundary s n"
  by (induction n) (auto simp: le_Suc_eq)

lemma chunk_stop_advances:
  assumes "valid_utf8 t" "start < length t" "length t \<le> usize_max"
  shows "start < floor_char_boundary t (min (usat_add start CLOUD_STATE_CHUNK_BYTES) (length t))"
proof -
  define m where "m = min (usat_add start CLOUD_STATE_CHUNK_BYTES) (length t)"
  have m: "m = min (start + CLOUD_STATE_CHUNK_BYTES) (length t)"
    using assms by (auto simp: m_def usat_add_def)
  have "\<exists>j. start < j \<and> j \<le> m \<and> is_char_boundary t j"
  proof (cases "m = length t")
    case True
    then show ?thesis using assms by (intro exI[of _ m]) (simp add: is_char_boundary_def)
  next
    case False
    then have "m = start + CLOUD_STATE_CHUNK_BYTES" "m < length t" using m by auto
    then have far: "start < m - 3" "m - 3 + 3 = m" by (simp_all add: CLOUD_STATE_CHUNK_BYTES_def)
    then obtain j where "m - 3 \<le> j" "j \<le> m" "is_char_boundary t j"
      using valid_utf8_boundary_near[OF assms(1), of "m - 3"] \<open>m < length t\<close> by auto
    then show ?thesis using far by (intro exI[of _ j]) simp
  qed
  then show ?thesis unfolding m_def[symmetric] using floor_char_boundary_greatest by fastforce
qed


subsection \<open>The chunks give the partition back\<close>

definition chunks_keyed :: "(string \<Rightarrow> string) \<Rightarrow> chunk_map \<Rightarrow> bool" where
  "chunks_keyed sha256 m = (bt_wf m \<and> list_all (\<lambda>(key, chunk). key = sha256 chunk) m)"

definition referenced_chunk :: "chunk_map \<Rightarrow> json \<Rightarrow> string option" where
  \<comment> \<open>the bytes a reference of the manifest stands for\<close>
  "referenced_chunk m reference = Option.bind (get_str reference ''sha256'') (map_of m)"

definition restored :: "chunk_map \<Rightarrow> json list \<Rightarrow> string option" where
  "restored m references =
     (if list_all (\<lambda>r. referenced_chunk m r \<noteq> None) references
      then Some (concat (map (the \<circ> referenced_chunk m) references)) else None)"

lemma get_str_chunk_reference [simp]: "get_str (chunk_reference key chunk) ''sha256'' = Some key"
  by (simp add: get_str_def json_get_def chunk_reference_def json_object_def map_of_bt_collect as_str_def)

lemma chunks_keyed_insert:
  "chunks_keyed sha256 m \<Longrightarrow> map_of m (sha256 c) = None \<Longrightarrow> chunks_keyed sha256 (bt_insert (sha256 c) c m)"
proof -
  assume k: "chunks_keyed sha256 m" and n: "map_of m (sha256 c) = None"
  have "set (bt_insert (sha256 c) c m) \<subseteq> insert (sha256 c, c) (set m)"
    by (induction m) (auto split: if_splits)
  then show ?thesis using k by (auto simp: chunks_keyed_def bt_wf_insert list_all_iff)
qed

definition chunks_fit :: "chunk_map \<Rightarrow> json list \<Rightarrow> bool" where
  "chunks_fit m references = list_all (\<lambda>r. case referenced_chunk m r of
      None \<Rightarrow> False | Some c \<Rightarrow> c \<noteq> [] \<and> length c \<le> CLOUD_STATE_CHUNK_BYTES) references"

lemma referenced_chunk_mono:
  "map_of m \<subseteq>\<^sub>m map_of m' \<Longrightarrow> referenced_chunk m r = Some c \<Longrightarrow> referenced_chunk m' r = Some c"
  unfolding referenced_chunk_def
  by (cases "get_str r ''sha256''") (simp_all add: map_le_def, metis domI)

lemma restored_mono:
  assumes "map_of m \<subseteq>\<^sub>m map_of m'" "restored m refs = Some t"
  shows "restored m' refs = Some t"
proof -
  have "referenced_chunk m' r = referenced_chunk m r" if "r \<in> set refs" for r
    using assms referenced_chunk_mono[OF assms(1), of r] that
    by (auto simp: restored_def list_all_iff split: if_splits)
  then show ?thesis using assms(2)
    by (auto simp: restored_def list_all_iff cong: map_cong split: if_splits)
qed

lemma chunks_fit_mono: "map_of m \<subseteq>\<^sub>m map_of m' \<Longrightarrow> chunks_fit m refs \<Longrightarrow> chunks_fit m' refs"
proof -
  assume le: "map_of m \<subseteq>\<^sub>m map_of m'" and fit: "chunks_fit m refs"
  have "referenced_chunk m' r = referenced_chunk m r" if "r \<in> set refs" for r
    using fit referenced_chunk_mono[OF le, of r] that
    by (auto simp: chunks_fit_def list_all_iff split: option.splits)
  then show ?thesis using fit by (simp add: chunks_fit_def list_all_iff)
qed

lemma restored_snoc:
  "restored m refs = Some t \<Longrightarrow> referenced_chunk m r = Some c \<Longrightarrow> restored m (refs @ [r]) = Some (t @ c)"
  by (auto simp: restored_def split: if_splits)

lemma chunks_fit_snoc:
  "chunks_fit m refs \<Longrightarrow> referenced_chunk m r = Some c \<Longrightarrow> c \<noteq> [] \<Longrightarrow> length c \<le> CLOUD_STATE_CHUNK_BYTES
   \<Longrightarrow> chunks_fit m (refs @ [r])"
  by (simp add: chunks_fit_def)

definition chunked_to ::
  "(string \<Rightarrow> string) \<Rightarrow> chunk_map \<Rightarrow> string \<Rightarrow> nat \<Rightarrow> chunk_map \<Rightarrow> json list \<Rightarrow> bool" where
  \<comment> \<open>the references stand for the first \<open>n\<close> bytes, over a map that extends the one at the start\<close>
  "chunked_to sha256 known t n m refs = (chunks_keyed sha256 m \<and> map_of known \<subseteq>\<^sub>m map_of m
     \<and> restored m refs = Some (take n t) \<and> chunks_fit m refs)"

lemma chunked_to_step:
  assumes a: "chunked_to sha256 known t start m refs"
    and "start < stop" "stop \<le> length t" "stop \<le> start + CLOUD_STATE_CHUNK_BYTES"
    and c: "c = take (stop - start) (drop start t)"
    and m': "m' = (if map_of m (sha256 c) = None then bt_insert (sha256 c) c m else m)"
    and same: "map_of m (sha256 c) = None \<or> map_of m (sha256 c) = Some c"
  shows "chunked_to sha256 known t stop m' (refs @ [chunk_reference (sha256 c) c])"
proof -
  have le: "map_of m \<subseteq>\<^sub>m map_of m'" unfolding m' map_le_def by auto
  have r: "referenced_chunk m' (chunk_reference (sha256 c) c) = Some c"
    using same unfolding m' referenced_chunk_def by auto
  have k: "chunks_keyed sha256 m'"
    using a chunks_keyed_insert unfolding m' chunked_to_def by auto
  have lc: "c \<noteq> []" "length c \<le> CLOUD_STATE_CHUNK_BYTES" using assms(2-4) unfolding c by auto
  have t: "take start t @ c = take stop t" using assms(2) unfolding c by (metis le_add_diff_inverse less_imp_le take_add)
  have rs: "restored m' refs = Some (take start t)" "chunks_fit m' refs"
    using a restored_mono[OF le] chunks_fit_mono[OF le] unfolding chunked_to_def by auto
  have "map_of known \<subseteq>\<^sub>m map_of m'" using a le map_le_trans unfolding chunked_to_def by blast
  then show ?thesis
    unfolding chunked_to_def
    using k restored_snoc[OF rs(1) r] chunks_fit_snoc[OF rs(2) r lc] t by simp
qed

lemma chunk_stop_far:
  assumes "valid_utf8 t" "start < length t" "length t \<le> usize_max"
    and s: "stop = floor_char_boundary t (min (usat_add start CLOUD_STATE_CHUNK_BYTES) (length t))"
  shows "stop = length t \<or> start + 32765 \<le> stop" "stop \<le> length t" "stop \<le> start + CLOUD_STATE_CHUNK_BYTES"
proof -
  define m where "m = min (start + CLOUD_STATE_CHUNK_BYTES) (length t)"
  have "min (usat_add start CLOUD_STATE_CHUNK_BYTES) (length t) = m"
    using assms(3) by (auto simp: m_def usat_add_def min_def)
  then have sm: "stop = floor_char_boundary t m" by (simp add: s)
  show "stop \<le> length t" "stop \<le> start + CLOUD_STATE_CHUNK_BYTES"
    using floor_char_boundary_le[of t m] by (auto simp: sm m_def)
  show "stop = length t \<or> start + 32765 \<le> stop"
  proof (cases "m = length t")
    case True
    then show ?thesis using floor_char_boundary_id[of t m] by (simp add: sm is_char_boundary_def)
  next
    case False
    then have far: "start + 32765 = m - 3" "m - 3 + 3 = m" "m < length t"
      by (auto simp: m_def CLOUD_STATE_CHUNK_BYTES_def)
    then obtain j where "m - 3 \<le> j" "j \<le> m" "is_char_boundary t j"
      using valid_utf8_boundary_near[OF assms(1), of "m - 3"] by auto
    then show ?thesis using far floor_char_boundary_greatest[of j m t] by (simp add: sm)
  qed
qed


lemma chunk_loop_correct:
  assumes "valid_utf8 t" "length t \<le> usize_max" "chunked_to sha256 known t start m refs" "start \<le> length t"
    and "length refs * 32765 \<le> start \<or> (start = length t \<and> length refs \<le> length t div 32765 + 1)"
  shows "case chunk_loop sha256 t start m refs of
      Inr (refs', m') \<Rightarrow> chunked_to sha256 known t (length t) m' refs' \<and> length refs' \<le> length t div 32765 + 1
    | Inl e \<Rightarrow> \<exists>a b. a \<noteq> b \<and> sha256 a = sha256 b"
  using assms(3-)
proof (induction "length t - start" arbitrary: start m refs rule: less_induct)
  case less
  define stop where "stop = floor_char_boundary t (min (usat_add start CLOUD_STATE_CHUNK_BYTES) (length t))"
  show ?case
  proof (cases "start < length t")
    case False
    then have "chunk_loop sha256 t start m refs = Inr (refs, m)" by (simp add: chunk_loop.simps)
    then show ?thesis using less.prems False by (auto simp: div_le_mono le_Suc_eq less_eq_div_iff_mult_less_eq)
  next
    case True
    have adv: "start < stop" unfolding stop_def by (rule chunk_stop_advances[OF assms(1) True assms(2)])
    note far = chunk_stop_far[OF assms(1) True assms(2) stop_def]
    define c where "c = take (stop - start) (drop start t)"
    define r where "r = chunk_reference (sha256 c) c"
    define m' where "m' = (if map_of m (sha256 c) = None then bt_insert (sha256 c) c m else m)"
    show ?thesis
    proof (cases "map_of m (sha256 c) = None \<or> map_of m (sha256 c) = Some c")
      case False
      then obtain existing where ex: "map_of m (sha256 c) = Some existing" "existing \<noteq> c" by auto
      then have "sha256 c = sha256 existing"
        using less.prems(1) unfolding chunked_to_def chunks_keyed_def list_all_iff by (auto dest!: map_of_SomeD)
      then have collision: "\<exists>a b. a \<noteq> b \<and> sha256 a = sha256 b" using ex(2) by metis
      have "\<exists>e. chunk_loop sha256 t start m refs = Inl e"
        using True adv ex by (simp add: chunk_loop.simps Let_def stop_def[symmetric] c_def[symmetric])
      then obtain e where "chunk_loop sha256 t start m refs = Inl e" ..
      then show ?thesis using collision by (simp only: sum.case)
    next
      case same: True
      have eq: "chunk_loop sha256 t start m refs = chunk_loop sha256 t stop m' (refs @ [r])"
        using True adv same
        by (subst chunk_loop.simps)
          (auto simp: Let_def stop_def[symmetric] c_def[symmetric] r_def[symmetric] m'_def)
      have "length (refs @ [r]) * 32765 \<le> stop
          \<or> (stop = length t \<and> length (refs @ [r]) \<le> length t div 32765 + 1)"
      proof (cases "stop = length t")
        case True
        have "length refs * 32765 \<le> length t" using less.prems(3) \<open>start < length t\<close> by auto
        then show ?thesis using True by (simp add: less_eq_div_iff_mult_less_eq)
      next
        case False
        then show ?thesis using less.prems(3) \<open>start < length t\<close> far(1) by auto
      qed
      then show ?thesis
        unfolding eq
        using less.hyps[of stop m' "refs @ [r]"] adv far(2) True
          chunked_to_step[OF less.prems(1) adv far(2,3) c_def m'_def same] by (simp add: r_def)
    qed
  qed
qed

definition partitioned :: "(string \<Rightarrow> string) \<Rightarrow> chunk_map \<Rightarrow> string \<Rightarrow> json list \<Rightarrow> chunk_map \<Rightarrow> bool" where
  \<comment> \<open>what a successful cut promises\<close>
  "partitioned sha256 known bytes refs m = (chunks_keyed sha256 m \<and> map_of known \<subseteq>\<^sub>m map_of m
     \<and> restored m refs = Some bytes \<and> chunks_fit m refs \<and> length refs \<le> length bytes div 32765 + 1)"

lemma chunk_cloud_partition_correct:
  assumes "valid_utf8 bytes" "length bytes \<le> usize_max" "chunks_keyed sha256 known"
  shows "case chunk_cloud_partition sha256 bytes known of
      Inr (refs, m) \<Rightarrow> partitioned sha256 known bytes refs m
    | Inl e \<Rightarrow> \<exists>a b. a \<noteq> b \<and> sha256 a = sha256 b"
proof -
  have "chunked_to sha256 known bytes 0 known []"
    using assms(3) by (simp add: chunked_to_def restored_def chunks_fit_def)
  from chunk_loop_correct[OF assms(1,2) this] show ?thesis
    by (auto simp: chunk_cloud_partition_def assms(1) chunked_to_def partitioned_def split: sum.splits)
qed

subsection \<open>The snapshot of a state\<close>

record cloud_settings =
  se_download_dir :: string
  se_applied :: "json option"

record cloud_state =
  cs_state_version :: u64
  cs_revision :: "string option"
  cs_reported_at :: u64
  cs_library :: json
  cs_previews :: "json list"
  cs_operations :: "json list"
  cs_tasks :: "json list"
  cs_settings :: cloud_settings

type_synonym json_encoder = "json \<Rightarrow> cloud_error + string"     \<comment> \<open>\<open>serde_json::to_vec\<close>\<close>

record prepared_state =
  pr_manifest :: string
  pr_chunks :: chunk_map
  pr_total_partition_bytes :: nat
  pr_total_chunk_references :: nat
  pr_wire_size :: nat

definition settings_json :: "cloud_settings \<Rightarrow> json" where
  "settings_json s = json_object ((''download_dir'', JString (se_download_dir s))
     # (case se_applied s of None \<Rightarrow> [] | Some v \<Rightarrow> [(''applied'', v)]))"

definition state_contents :: "cloud_state \<Rightarrow> json" where
  "state_contents st = json_object
     ([(''operations'', JArray (cs_operations st)), (''previews'', JArray (cs_previews st)),
       (''settings'', settings_json (cs_settings st)), (''tasks'', JArray (cs_tasks st))]
      @ (case cs_revision st of None \<Rightarrow> [] | Some revision \<Rightarrow> [(''revision'', JString revision)]))"

definition partition_entry :: "string \<Rightarrow> json list \<Rightarrow> json" where
  "partition_entry bytes refs =
     json_object [(''bytes'', JUnsigned (of_nat (length bytes))), (''chunks'', JArray refs)]"

definition manifest_json ::
  "cloud_state \<Rightarrow> string \<Rightarrow> string \<Rightarrow> json list \<Rightarrow> string \<Rightarrow> json list \<Rightarrow> json" where
  "manifest_json st library_revision library_bytes library_refs state_bytes state_refs = json_object
     [(''format'', JString ''chunked-v1''), (''state_version'', JUnsigned (cs_state_version st)),
      (''reported_at'', JUnsigned (cs_reported_at st)), (''library_revision'', JString library_revision),
      (''library'', partition_entry library_bytes library_refs), (''state'', partition_entry state_bytes state_refs)]"

definition enforced :: "bool \<Rightarrow> json \<Rightarrow> cloud_error + unit" where
  "enforced enforce v = (if enforce then validate_cloud_json_complexity v else Inr ())"

definition library_revision_of :: "bool \<Rightarrow> cloud_state \<Rightarrow> cloud_error + string" where
  "library_revision_of enforce st = (case get_str (cs_library st) ''revision'' of
      Some revision \<Rightarrow> Inr revision
    | None \<Rightarrow> if \<not> enforce then Inr [] else Inl (CloudError ''cloud library revision must be a string''))"

definition chunked_snapshot ::
  "(string \<Rightarrow> string) \<Rightarrow> json_encoder \<Rightarrow> bool \<Rightarrow> cloud_state \<Rightarrow> cloud_error + prepared_state" where
  "chunked_snapshot sha256 encode enforce st =
     bind_result (enforced enforce (cs_library st)) (\<lambda>_.
     bind_result (encode (cs_library st)) (\<lambda>library_bytes.
     bind_result (enforced enforce (state_contents st)) (\<lambda>_.
     bind_result (encode (state_contents st)) (\<lambda>state_bytes.
     bind_result (library_revision_of enforce st) (\<lambda>library_revision.
     bind_result (chunk_cloud_partition sha256 library_bytes []) (\<lambda>(library_refs, m).
     bind_result (chunk_cloud_partition sha256 state_bytes m) (\<lambda>(state_refs, m).
     bind_result (encode (manifest_json st library_revision library_bytes library_refs state_bytes state_refs))
       (\<lambda>manifest.
     let total_partition_bytes = usat_add (length library_bytes) (length state_bytes)
     in Inr \<lparr>pr_manifest = manifest, pr_chunks = m, pr_total_partition_bytes = total_partition_bytes,
             pr_total_chunk_references = usat_add (length library_refs) (length state_refs),
             pr_wire_size = usat_add total_partition_bytes (length manifest)\<rparr>))))))))"

definition encoded_wire_size :: "(string \<Rightarrow> string) \<Rightarrow> json_encoder \<Rightarrow> cloud_state \<Rightarrow> cloud_error + nat" where
  "encoded_wire_size sha256 encode st =
     bind_result (chunked_snapshot sha256 encode False st) (\<lambda>p. Inr (pr_wire_size p))"

definition MAX_CLOUD_STATE_CHUNKS :: nat where "MAX_CLOUD_STATE_CHUNKS = 386"
definition MAX_CLOUD_STATE_PARTITION_BYTES :: nat where
  "MAX_CLOUD_STATE_PARTITION_BYTES = 12 * 1024 * 1024"

definition encoder_bounded :: "json_encoder \<Rightarrow> bool" where
  \<comment> \<open>the length of an encoding is a \<open>usize\<close>\<close>
  "encoder_bounded encode = (\<forall>v bytes. encode v = Inr bytes \<longrightarrow> length bytes \<le> usize_max)"

lemma partition_InrD:
  assumes "chunk_cloud_partition sha256 bytes m = Inr (refs, m')" "length bytes \<le> usize_max" "chunks_keyed sha256 m"
  shows "partitioned sha256 m bytes refs m'"
proof -
  have "valid_utf8 bytes" using assms(1) by (auto simp: chunk_cloud_partition_def split: if_splits)
  then show ?thesis using chunk_cloud_partition_correct[OF _ assms(2,3)] assms(1) by auto
qed

definition snapshot_of ::
  "(string \<Rightarrow> string) \<Rightarrow> json_encoder \<Rightarrow> cloud_state \<Rightarrow> prepared_state \<Rightarrow> string \<Rightarrow> json list \<Rightarrow> string \<Rightarrow> json list \<Rightarrow> bool"
where
  \<comment> \<open>the prepared chunks and manifest stand for the encodings of both partitions\<close>
  "snapshot_of sha256 encode st p library_bytes library_refs state_bytes state_refs =
     (encode (cs_library st) = Inr library_bytes \<and> encode (state_contents st) = Inr state_bytes
      \<and> (\<exists>revision. encode (manifest_json st revision library_bytes library_refs state_bytes state_refs)
            = Inr (pr_manifest p))
      \<and> chunks_keyed sha256 (pr_chunks p)
      \<and> restored (pr_chunks p) library_refs = Some library_bytes \<and> chunks_fit (pr_chunks p) library_refs
      \<and> restored (pr_chunks p) state_refs = Some state_bytes \<and> chunks_fit (pr_chunks p) state_refs
      \<and> pr_total_partition_bytes p = usat_add (length library_bytes) (length state_bytes)
      \<and> pr_total_chunk_references p = usat_add (length library_refs) (length state_refs)
      \<and> length library_refs \<le> length library_bytes div 32765 + 1
      \<and> length state_refs \<le> length state_bytes div 32765 + 1)"

lemma chunked_snapshotD:
  assumes "chunked_snapshot sha256 encode enforce st = Inr p" "encoder_bounded encode"
  obtains library_bytes library_refs state_bytes state_refs where
    "snapshot_of sha256 encode st p library_bytes library_refs state_bytes state_refs"
proof -
  obtain library_bytes state_bytes revision library_refs m state_refs where
    e: "encode (cs_library st) = Inr library_bytes" "encode (state_contents st) = Inr state_bytes"
    and c: "chunk_cloud_partition sha256 library_bytes [] = Inr (library_refs, m)"
      "chunk_cloud_partition sha256 state_bytes m = Inr (state_refs, pr_chunks p)"
    and man: "encode (manifest_json st revision library_bytes library_refs state_bytes state_refs) = Inr (pr_manifest p)"
    and tot: "pr_total_partition_bytes p = usat_add (length library_bytes) (length state_bytes)"
      "pr_total_chunk_references p = usat_add (length library_refs) (length state_refs)"
    using assms(1) by (auto simp: chunked_snapshot_def bind_result_Inr_iff Let_def)
  have b: "length library_bytes \<le> usize_max" "length state_bytes \<le> usize_max"
    using assms(2) e by (auto simp: encoder_bounded_def)
  have p1: "partitioned sha256 [] library_bytes library_refs m"
    by (rule partition_InrD[OF c(1) b(1)]) (simp add: chunks_keyed_def)
  have p2: "partitioned sha256 m state_bytes state_refs (pr_chunks p)"
    by (rule partition_InrD[OF c(2) b(2)]) (use p1 in \<open>simp add: partitioned_def\<close>)
  have le: "map_of m \<subseteq>\<^sub>m map_of (pr_chunks p)" using p2 by (simp add: partitioned_def)
  have "restored (pr_chunks p) library_refs = Some library_bytes" "chunks_fit (pr_chunks p) library_refs"
    using p1 restored_mono[OF le] chunks_fit_mono[OF le] by (simp_all add: partitioned_def)
  then have "snapshot_of sha256 encode st p library_bytes library_refs state_bytes state_refs"
    using e man tot p1 p2 unfolding snapshot_of_def partitioned_def by blast
  then show thesis by (rule that)
qed

lemma snapshot_chunk_count:
  assumes "snapshot_of sha256 encode st p library_bytes library_refs state_bytes state_refs"
    "pr_total_partition_bytes p \<le> MAX_CLOUD_STATE_PARTITION_BYTES"
  shows "pr_total_chunk_references p \<le> MAX_CLOUD_STATE_CHUNKS"
proof -
  have sum: "length library_bytes + length state_bytes \<le> 12 * 1024 * 1024"
    using assms by (auto simp: snapshot_of_def usat_add_def usize_max_def MAX_CLOUD_STATE_PARTITION_BYTES_def)
  have "pr_total_chunk_references p \<le> length library_refs + length state_refs"
    using assms(1) usat_add_le by (simp add: snapshot_of_def)
  also have "\<dots> \<le> length library_bytes div 32765 + length state_bytes div 32765 + 2"
    using assms(1) by (simp add: snapshot_of_def)
  also have "\<dots> \<le> 386" using sum by linarith
  finally show ?thesis by (simp add: MAX_CLOUD_STATE_CHUNKS_def)
qed

subsection \<open>Snapshots can be read back, and the chunk limit never rejects alone\<close>

definition sample_state :: cloud_state where
  "sample_state = \<lparr>cs_state_version = 7, cs_revision = None, cs_reported_at = 9,
     cs_library = json_object [(''revision'', JString ''r1'')], cs_previews = [], cs_operations = [], cs_tasks = [],
     cs_settings = \<lparr>se_download_dir = ''/d'', se_applied = None\<rparr>\<rparr>"

definition sample_encoder :: json_encoder where
  "sample_encoder v = Inr (if json_get v ''format'' = None then ''{}'' else ''[]'')"

lemma sample_encoder_bounded: "encoder_bounded sample_encoder"
  by (auto simp: encoder_bounded_def sample_encoder_def usize_max_def)

lemma chars_braces: "chars ''{}'' = [''{'', ''}'']"
  by (simp add: utf8_width_def byte_def)

lemma sample_utf8: "valid_utf8 ''{}''"
  unfolding valid_utf8_def chars_braces by (simp add: valid_utf8_char_def byte_def)

lemma sample_chunk:
  "chunk_cloud_partition id ''{}'' [] = Inr ([chunk_reference ''{}'' ''{}''], [(''{}'', ''{}'')])"
  "chunk_cloud_partition id ''{}'' [(''{}'', ''{}'')] = Inr ([chunk_reference ''{}'' ''{}''], [(''{}'', ''{}'')])"
proof -
  have f: "floor_char_boundary ''{}'' (min (usat_add 0 CLOUD_STATE_CHUNK_BYTES) (length ''{}'')) = 2"
  proof -
    have "min (usat_add 0 CLOUD_STATE_CHUNK_BYTES) (length ''{}'') = length ''{}''"
      by (simp add: usat_add_def usize_max_def CLOUD_STATE_CHUNK_BYTES_def)
    then show ?thesis using floor_char_boundary_id[of "''{}''" "length ''{}''"]
      by (simp add: is_char_boundary_def)
  qed
  have "chunk_loop id ''{}'' 2 m r = Inr (r, m)" for m r by (simp add: chunk_loop.simps)
  then show "chunk_cloud_partition id ''{}'' [] = Inr ([chunk_reference ''{}'' ''{}''], [(''{}'', ''{}'')])"
    "chunk_cloud_partition id ''{}'' [(''{}'', ''{}'')] = Inr ([chunk_reference ''{}'' ''{}''], [(''{}'', ''{}'')])"
    unfolding chunk_cloud_partition_def by (simp_all add: sample_utf8 chunk_loop.simps[of _ _ 0] f[simplified] Let_def)
qed

lemma sample_get: "json_get (cs_library sample_state) ''format'' = None"
  "json_get (state_contents sample_state) ''format'' = None"
  "get_str (cs_library sample_state) ''revision'' = Some ''r1''"
  by (simp_all add: sample_state_def state_contents_def json_get_def json_object_def map_of_bt_collect get_str_def as_str_def)

lemma sample_manifest: "json_get (manifest_json st r b rs c cs) ''format'' = Some (JString ''chunked-v1'')"
  by (simp add: manifest_json_def json_get_def json_object_def map_of_bt_collect)

lemma sample_encode:
  "sample_encoder (cs_library sample_state) = Inr ''{}''" "sample_encoder (state_contents sample_state) = Inr ''{}''"
  "sample_encoder (manifest_json st r b rs c cs) = Inr ''[]''"
  by (simp_all only: sample_encoder_def sample_get sample_manifest option.distinct if_True if_False simp_thms)

lemma sample_snapshot:
  "chunked_snapshot id sample_encoder False sample_state
     = Inr \<lparr>pr_manifest = ''[]'', pr_chunks = [(''{}'', ''{}'')], pr_total_partition_bytes = 4,
           pr_total_chunk_references = 2, pr_wire_size = 6\<rparr>"
proof -
  have r: "library_revision_of False sample_state = Inr ''r1''"
    by (simp add: library_revision_of_def sample_get)
  show ?thesis
    unfolding chunked_snapshot_def enforced_def sample_encode r if_False bind_result.simps sample_chunk prod.case
    by (simp add: Let_def usat_add_def usize_max_def)
qed

text \<open>
  C17: Whenever a snapshot is prepared, looking up the digests listed in its manifest among its chunks and
  concatenating what they stand for gives back exactly the encoded library and the encoded state; every chunk is
  nonempty and at most 32 KiB long and is stored under its own digest, also where the two partitions share chunks.
\<close>

theorem snapshot_restores:
  assumes "chunked_snapshot sha256 encode enforce st = Inr p" "encoder_bounded encode"
  shows "\<exists>library_bytes library_refs state_bytes state_refs.
     snapshot_of sha256 encode st p library_bytes library_refs state_bytes state_refs"
  by (rule chunked_snapshotD[OF assms]) blast

theorem snapshot_restores_witness:
  "chunked_snapshot id sample_encoder False sample_state = Inr \<lparr>pr_manifest = ''[]'', pr_chunks = [(''{}'', ''{}'')],
     pr_total_partition_bytes = 4, pr_total_chunk_references = 2, pr_wire_size = 6\<rparr>
   \<and> (\<exists>library_bytes library_refs state_bytes state_refs.
     snapshot_of id sample_encoder sample_state \<lparr>pr_manifest = ''[]'', pr_chunks = [(''{}'', ''{}'')],
       pr_total_partition_bytes = 4, pr_total_chunk_references = 2, pr_wire_size = 6\<rparr>
       library_bytes library_refs state_bytes state_refs)"
  by (rule conjI[OF sample_snapshot snapshot_restores[OF sample_snapshot sample_encoder_bounded]])

text \<open>
  C18: The limit on the number of chunks (386) never rejects a snapshot on its own. Cuts fall on character boundaries,
  so a chunk other than the last of its partition has at least 32765 bytes, and a snapshot within the limit of
  12 MiB has at most 386 references, whatever the split between its two partitions.
\<close>

theorem chunk_limit_implied:
  assumes "chunked_snapshot sha256 encode enforce st = Inr p" "encoder_bounded encode"
    "pr_total_partition_bytes p \<le> MAX_CLOUD_STATE_PARTITION_BYTES"
  shows "pr_total_chunk_references p \<le> MAX_CLOUD_STATE_CHUNKS"
  by (rule chunked_snapshotD[OF assms(1,2)]) (rule snapshot_chunk_count[OF _ assms(3)])

theorem chunk_limit_implied_witness:
  "chunked_snapshot id sample_encoder False sample_state = Inr \<lparr>pr_manifest = ''[]'', pr_chunks = [(''{}'', ''{}'')],
     pr_total_partition_bytes = 4, pr_total_chunk_references = 2, pr_wire_size = 6\<rparr>
   \<and> (2::nat) \<le> MAX_CLOUD_STATE_CHUNKS"
  using chunk_limit_implied[OF sample_snapshot sample_encoder_bounded] sample_snapshot
  by (simp add: MAX_CLOUD_STATE_PARTITION_BYTES_def)

end
