(* ===== verification/CloudRequests.thy ===== *)
theory CloudRequests
  imports CloudState
begin

section \<open>Requests and control frames of the cloud (\<open>cloud.rs\<close>)\<close>

text \<open>
  The worker queues requests for the local service and sends control frames over a WebSocket. Each is checked when it
  arrives. The parsers of \<open>serde_json\<close> and the encoding of a request are parameters.
\<close>

subsection \<open>Data\<close>

record cloud_request =
  rq_seq :: u64
  rq_kind :: string
  rq_payload :: json
  rq_created_at :: u64
  rq_extra :: "(string \<times> json) list"

datatype snapshot_refresh_reason = RefreshOpen | RefreshManual | RefreshReference

datatype snapshot_refresh_scope = ScopeLibrary | ScopeSettings | ScopeOperations | ScopeDownload

datatype cloud_viewer_surface = SurfaceFile | SurfaceSettings

record cloud_viewer_interest =
  vi_viewer_id :: string
  vi_surface :: cloud_viewer_surface
  vi_watch :: bool
  vi_expires_at :: u64

record snapshot_refresh_request =
  sr_viewer_id :: string
  sr_request_id :: string
  sr_database_epoch :: string
  sr_reason :: snapshot_refresh_reason
  sr_scope :: snapshot_refresh_scope
  sr_library_id :: "string option"
  sr_expires_at :: u64

datatype cloud_snapshot_control =
    ViewerInterest string "cloud_viewer_interest list"
  | SnapshotRefresh snapshot_refresh_request

datatype cloud_websocket_message =
    RequestMessage cloud_request
  | ControlMessage cloud_snapshot_control

record cloud_refresh_result =
  rr_message_type :: string
  rr_viewer_id :: string
  rr_request_id :: string
  rr_database_epoch :: string
  rr_status :: string
  rr_state_version :: "u64 option"
  rr_reported_at :: "u64 option"
  rr_error_code :: "string option"

definition new_refresh_result ::
  "snapshot_refresh_request \<Rightarrow> string \<Rightarrow> u64 option \<Rightarrow> u64 option \<Rightarrow> string option \<Rightarrow> cloud_refresh_result" where
  "new_refresh_result request status state_version reported_at error_code =
     \<lparr>rr_message_type = ''refresh_result'', rr_viewer_id = sr_viewer_id request,
      rr_request_id = sr_request_id request, rr_database_epoch = sr_database_epoch request,
      rr_status = status, rr_state_version = state_version, rr_reported_at = reported_at, rr_error_code = error_code\<rparr>"

definition MAX_JS_SAFE_INTEGER :: u64 where "MAX_JS_SAFE_INTEGER = 9007199254740991"
definition MAX_CLOUD_STATE_VERSION :: u64 where "MAX_CLOUD_STATE_VERSION = MAX_JS_SAFE_INTEGER"
definition MAX_REQUEST_BYTES :: nat where "MAX_REQUEST_BYTES = 1024 * 1024"
definition MAX_CLOUD_CONTROL_FRAME_BYTES :: nat where "MAX_CLOUD_CONTROL_FRAME_BYTES = 4 * 1024"
definition MAX_CLOUD_CONTROL_VIEWERS :: nat where "MAX_CLOUD_CONTROL_VIEWERS = 32"
definition MAX_CLOUD_CLOCK_SKEW_MILLIS :: u64 where "MAX_CLOUD_CLOCK_SKEW_MILLIS = 60000"
definition MAX_SNAPSHOT_REFRESH_LIFETIME_MILLIS :: u64 where "MAX_SNAPSHOT_REFRESH_LIFETIME_MILLIS = 120000"
definition MAX_VIEWER_INTEREST_LIFETIME_MILLIS :: u64 where
  "MAX_VIEWER_INTEREST_LIFETIME_MILLIS = 6 * 60 * 60 * 1000 + MAX_CLOUD_CLOCK_SKEW_MILLIS"
definition MAX_LEGACY_IMPORT_BYTES :: nat where "MAX_LEGACY_IMPORT_BYTES = 256 * 1024"

subsection \<open>Checks\<close>

definition saturating_sub :: "u64 \<Rightarrow> u64 \<Rightarrow> u64" where
  "saturating_sub a b = (if b \<le> a then a - b else 0)"

definition is_lower_hex :: "char \<Rightarrow> bool" where
  "is_lower_hex c = (is_ascii_digit c \<or> (97 \<le> byte c \<and> byte c \<le> 102))"

definition is_ascii_hexdigit :: "char \<Rightarrow> bool" where
  "is_ascii_hexdigit c = (is_lower_hex c \<or> (65 \<le> byte c \<and> byte c \<le> 70))"

definition valid_database_epoch :: "string \<Rightarrow> bool" where
  "valid_database_epoch epoch = (length epoch = 32 \<and> list_all is_lower_hex epoch)"

definition is_sha256_hex :: "string \<Rightarrow> bool" where
  "is_sha256_hex s = (length s = 64 \<and> list_all is_lower_hex s)"

definition is_uuid :: "string \<Rightarrow> bool" where
  "is_uuid s = (length s = 36
     \<and> list_all (\<lambda>(i, c). if i \<in> {8, 13, 18, 23} then c = CHR ''-'' else is_ascii_hexdigit c) (enumerate 0 s))"

definition validate_request :: "(cloud_request \<Rightarrow> cloud_error + string) \<Rightarrow> cloud_request \<Rightarrow> cloud_error + unit" where
  "validate_request encode r =
     (if rq_seq r = 0 \<or> MAX_JS_SAFE_INTEGER < rq_seq r then
        Inl (CloudError ''cloud request sequence is outside JavaScript's safe integer range'')
      else if as_object (rq_payload r) = None then Inl (CloudError ''cloud request payload must be an object'')
      else bind_result
        (if rq_kind r = ''legacy_import'' then
           (case get_str (rq_payload r) ''text'' of
              None \<Rightarrow> Inl (CloudError ''legacy_import payload must contain text'')
            | Some t \<Rightarrow> guard_result (length t \<le> MAX_LEGACY_IMPORT_BYTES)
                (CloudError ''legacy_import payload exceeds the 256 KiB limit''))
         else Inr ()) (\<lambda>_.
        bind_result (encode r) (\<lambda>bytes.
          guard_result (length bytes \<le> MAX_REQUEST_BYTES)
            (CloudError ''cloud request exceeds the local persistence limit''))))"

definition validate_refresh_structure :: "snapshot_refresh_request \<Rightarrow> cloud_error + unit" where
  "validate_refresh_structure r =
     (if \<not> valid_database_epoch (sr_database_epoch r) then
        Inl (CloudError ''snapshot-refresh control frame has an invalid database epoch'')
      else if \<not> is_uuid (sr_viewer_id r) \<or> \<not> is_uuid (sr_request_id r) then
        Inl (CloudError ''snapshot-refresh control frame requires UUID viewer and request IDs'')
      else if (case sr_library_id r of None \<Rightarrow> False
               | Some library_id \<Rightarrow> library_id = [] \<or> 256 < length library_id \<or> list_ex is_control (chars library_id)) then
        Inl (CloudError ''snapshot-refresh library ID has an invalid shape'')
      else if \<not> (sr_scope r = ScopeLibrary \<or> sr_scope r = ScopeDownload) \<and> sr_library_id r \<noteq> None then
        Inl (CloudError ''snapshot-refresh library ID is only valid for library or download scope'')
      else Inr ())"

definition validate_refresh_at :: "string \<Rightarrow> u64 \<Rightarrow> snapshot_refresh_request \<Rightarrow> cloud_error + unit" where
  "validate_refresh_at expected_epoch now r =
     bind_result (validate_refresh_structure r) (\<lambda>_.
       if sr_database_epoch r \<noteq> expected_epoch then
         Inl (CloudError ''snapshot-refresh control frame is bound to a different database epoch'')
       else if sr_expires_at r \<le> now
         \<or> MAX_SNAPSHOT_REFRESH_LIFETIME_MILLIS + MAX_CLOUD_CLOCK_SKEW_MILLIS < saturating_sub (sr_expires_at r) now then
         Inl (CloudError ''snapshot-refresh control frame is expired or exceeds its deadline limit'')
       else Inr ())"

definition validate_viewer_at :: "u64 \<Rightarrow> cloud_viewer_interest \<Rightarrow> cloud_error + bool" where
  "validate_viewer_at now v =
     (if \<not> is_uuid (vi_viewer_id v) then Inl (CloudError ''viewer-interest control frame has an invalid viewer ID'')
      else if vi_expires_at v \<le> now then Inr False
      else if MAX_VIEWER_INTEREST_LIFETIME_MILLIS < saturating_sub (vi_expires_at v) now then
        Inl (CloudError ''viewer-interest lease exceeds its expiry limit'')
      else Inr True)"

fun check_viewers :: "string list \<Rightarrow> cloud_viewer_interest list \<Rightarrow> cloud_error + unit" where
  "check_viewers unique [] = Inr ()"
| "check_viewers unique (v # vs) =
     (if \<not> is_uuid (vi_viewer_id v) \<or> vi_viewer_id v \<in> set unique then
        Inl (CloudError ''viewer-interest control frame has an invalid or duplicate viewer ID'')
      else check_viewers (vi_viewer_id v # unique) vs)"

definition validate_control :: "cloud_snapshot_control \<Rightarrow> cloud_error + unit" where
  "validate_control control = (case control of
      ViewerInterest database_epoch viewers \<Rightarrow>
        if \<not> valid_database_epoch database_epoch then
          Inl (CloudError ''viewer-interest control frame has an invalid database epoch'')
        else if MAX_CLOUD_CONTROL_VIEWERS < length viewers then
          Inl (CloudError ''viewer-interest control frame exceeds the visible-viewer limit'')
        else check_viewers [] viewers
    | SnapshotRefresh request \<Rightarrow> validate_refresh_structure request)"

record websocket_codec =
  wc_parse :: "string \<Rightarrow> cloud_error + json"
  wc_control :: "json \<Rightarrow> cloud_error + cloud_snapshot_control"
  wc_request :: "json \<Rightarrow> cloud_error + cloud_request"
  wc_encode :: "cloud_request \<Rightarrow> cloud_error + string"

definition decode_cloud_websocket_json :: "websocket_codec \<Rightarrow> string \<Rightarrow> cloud_error + cloud_websocket_message" where
  "decode_cloud_websocket_json wc bytes =
     (if MAX_REQUEST_BYTES < length bytes then
        Inl (CloudError ''local cloud WebSocket frame exceeds the existing request limit'')
      else bind_result (wc_parse wc bytes) (\<lambda>v.
        if get_str v ''type'' = Some ''viewer_interest'' \<or> get_str v ''type'' = Some ''snapshot_refresh'' then
          (if MAX_CLOUD_CONTROL_FRAME_BYTES < length bytes then
             Inl (CloudError ''cloud control frame exceeds the 4 KiB limit'')
           else bind_result (wc_control wc v) (\<lambda>control.
             bind_result (validate_control control) (\<lambda>_. Inr (ControlMessage control))))
        else bind_result (wc_request wc v) (\<lambda>request.
          bind_result (validate_request (wc_encode wc) request) (\<lambda>_. Inr (RequestMessage request)))))"

lemma check_viewers_iff:
  "check_viewers unique vs = Inr u \<longleftrightarrow>
     (\<forall>v\<in>set vs. is_uuid (vi_viewer_id v)) \<and> distinct (map vi_viewer_id vs)
     \<and> set (map vi_viewer_id vs) \<inter> set unique = {}"
  by (induction vs arbitrary: unique) auto

end
