(* ===== verification/CloudClient.thy ===== *)
theory CloudClient
  imports CloudRequests
begin

section \<open>The cloud client (\<open>cloud.rs\<close>)\<close>

text \<open>
  \<open>CloudClient\<close> uploads the chunks of a state, up to four at a time, then posts the manifest. A cache remembers which
  chunks the worker has acknowledged under the current database epoch, so that they are not sent again. The network
  and the clock belong to a world of any type (\<open>cloud_env\<close>); a reply is what the code reads of it. Which of the
  active uploads goes on next is a list of choices. The state keeps a trace, newest event first, of what was sent,
  what the worker accepted and when the cache was emptied; no operation reads it. One operation runs at a time.
\<close>

subsection \<open>Acknowledged chunks\<close>

definition CLOUD_STATE_CHUNK_ACK_CACHE_ENTRIES :: nat where "CLOUD_STATE_CHUNK_ACK_CACHE_ENTRIES = 768"
definition CLOUD_STATE_CHUNK_ACK_CACHE_TTL :: nat where
  "CLOUD_STATE_CHUNK_ACK_CACHE_TTL = 60 * 60 * 1000000000"     \<comment> \<open>instants count nanoseconds\<close>

type_synonym staged_chunks = "((string \<times> string) \<times> nat) list"

record committed_chunks =
  cm_database_epoch :: string
  cm_state_version :: u64
  cm_hashes :: "string list"

record ack_chunks =
  ac_database_epoch :: "string option"
  ac_staged :: staged_chunks
  ac_committed :: "committed_chunks option"

definition ack_default :: ack_chunks where
  "ack_default = \<lparr>ac_database_epoch = None, ac_staged = [], ac_committed = None\<rparr>"

definition ack_clear :: "ack_chunks \<Rightarrow> ack_chunks" where
  "ack_clear c = c\<lparr>ac_staged := [], ac_committed := None\<rparr>"

definition set_epoch :: "string \<Rightarrow> ack_chunks \<Rightarrow> ack_chunks" where
  "set_epoch database_epoch c =
     (if ac_database_epoch c \<noteq> Some database_epoch
      then (ack_clear c)\<lparr>ac_database_epoch := Some database_epoch\<rparr> else c)"

definition other_epoch :: "string \<Rightarrow> ack_chunks \<Rightarrow> bool" where
  "other_epoch database_epoch c =
     (case ac_database_epoch c of None \<Rightarrow> False | Some current \<Rightarrow> current \<noteq> database_epoch)"

definition expire_staged_at :: "nat \<Rightarrow> ack_chunks \<Rightarrow> ack_chunks" where
  "expire_staged_at now c =
     c\<lparr>ac_staged := filter (\<lambda>(_, acknowledged_at). now - acknowledged_at < CLOUD_STATE_CHUNK_ACK_CACHE_TTL) (ac_staged c)\<rparr>"

definition in_committed :: "string \<Rightarrow> string \<Rightarrow> ack_chunks \<Rightarrow> bool" where
  "in_committed database_epoch sha256 c = (case ac_committed c of None \<Rightarrow> False
     | Some m \<Rightarrow> cm_database_epoch m = database_epoch \<and> sha256 \<in> set (cm_hashes m))"

definition in_staged :: "string \<times> string \<Rightarrow> staged_chunks \<Rightarrow> bool" where
  "in_staged key staged = (map_of staged key \<noteq> None)"

definition contains_at :: "string \<Rightarrow> string \<Rightarrow> nat \<Rightarrow> ack_chunks \<Rightarrow> bool \<times> ack_chunks" where
  "contains_at database_epoch sha256 now c =
     (if other_epoch database_epoch c then (False, c)
      else let c = expire_staged_at now c
           in (in_committed database_epoch sha256 c \<or> in_staged (database_epoch, sha256) (ac_staged c), c))"

fun oldest_staged :: "staged_chunks \<Rightarrow> ((string \<times> string) \<times> nat) option" where
  \<comment> \<open>\<open>min_by_key\<close>: the first of the entries with the least time\<close>
  "oldest_staged [] = None"
| "oldest_staged ((k, t) # m) =
     (case oldest_staged m of None \<Rightarrow> Some (k, t)
      | Some (k', t') \<Rightarrow> if t \<le> t' then Some (k, t) else Some (k', t'))"

lemma oldest_staged_in: "oldest_staged m = Some e \<Longrightarrow> e \<in> set m"
  by (induction m arbitrary: e rule: oldest_staged.induct) (auto split: option.splits if_splits)

lemma staged_remove_less: "(k, v) \<in> set m \<Longrightarrow> length (bt_remove k m) < length m"
  unfolding bt_remove_def by (rule length_filter_less[of "(k, v)"]) auto

function make_room :: "string \<times> string \<Rightarrow> staged_chunks \<Rightarrow> staged_chunks" where
  "make_room key staged =
     (if \<not> in_staged key staged \<and> CLOUD_STATE_CHUNK_ACK_CACHE_ENTRIES \<le> length staged
      then (case oldest_staged staged of None \<Rightarrow> staged
            | Some (oldest, _) \<Rightarrow> make_room key (bt_remove oldest staged))
      else staged)"
  by auto
termination
  by (relation "measure (\<lambda>(_, staged). length staged)") (auto intro: staged_remove_less oldest_staged_in)

declare make_room.simps [simp del]

definition adopt_epoch :: "string \<Rightarrow> ack_chunks \<Rightarrow> ack_chunks" where
  "adopt_epoch database_epoch c =
     (if ac_database_epoch c = None then c\<lparr>ac_database_epoch := Some database_epoch\<rparr> else c)"

definition remember_staged_at :: "string \<Rightarrow> string \<Rightarrow> nat \<Rightarrow> ack_chunks \<Rightarrow> ack_chunks" where
  "remember_staged_at database_epoch sha256 now c =
     (if other_epoch database_epoch c then c
      else let c = expire_staged_at now (adopt_epoch database_epoch c)
           in if in_committed database_epoch sha256 c then c
              else c\<lparr>ac_staged := bt_insert (database_epoch, sha256) now
                       (make_room (database_epoch, sha256) (ac_staged c))\<rparr>)"

definition pin_committed :: "string \<Rightarrow> u64 \<Rightarrow> string list \<Rightarrow> ack_chunks \<Rightarrow> ack_chunks" where
  "pin_committed database_epoch state_version hashes c =
     (if MAX_CLOUD_STATE_CHUNKS < length hashes then c
      else if other_epoch database_epoch c then c
      else let c = adopt_epoch database_epoch c
           in if (case ac_committed c of None \<Rightarrow> False
                  | Some m \<Rightarrow> cm_database_epoch m = database_epoch \<and> state_version \<le> cm_state_version m) then c
              else c\<lparr>ac_staged := filter (\<lambda>((cached_epoch, hash), _).
                        cached_epoch \<noteq> database_epoch \<or> hash \<notin> set hashes) (ac_staged c),
                     ac_committed := Some \<lparr>cm_database_epoch = database_epoch, cm_state_version = state_version,
                                           cm_hashes = hashes\<rparr>\<rparr>)"

definition clear_epoch :: "string \<Rightarrow> ack_chunks \<Rightarrow> ack_chunks" where
  "clear_epoch database_epoch c =
     c\<lparr>ac_staged := filter (\<lambda>((cached_epoch, _), _). cached_epoch \<noteq> database_epoch) (ac_staged c),
       ac_committed := (case ac_committed c of None \<Rightarrow> None
          | Some m \<Rightarrow> if cm_database_epoch m = database_epoch then None else Some m)\<rparr>"

subsection \<open>What the cache holds\<close>

definition remembered :: "ack_chunks \<Rightarrow> (string \<times> string) set" where
  "remembered c = fst ` set (ac_staged c) \<union>
     (case ac_committed c of None \<Rightarrow> {} | Some m \<Rightarrow> {cm_database_epoch m} \<times> set (cm_hashes m))"

definition cache_ok :: "ack_chunks \<Rightarrow> bool" where
  "cache_ok c = (length (ac_staged c) \<le> CLOUD_STATE_CHUNK_ACK_CACHE_ENTRIES
     \<and> (case ac_committed c of None \<Rightarrow> True | Some m \<Rightarrow> length (cm_hashes m) \<le> MAX_CLOUD_STATE_CHUNKS)
     \<and> bt_wf (ac_staged c)
     \<and> list_all (\<lambda>((e, _), _). ac_database_epoch c = Some e) (ac_staged c)
     \<and> (case ac_committed c of None \<Rightarrow> True | Some m \<Rightarrow> ac_database_epoch c = Some (cm_database_epoch m)))"

lemma cache_ok_default [simp]: "cache_ok ack_default" "remembered ack_default = {}"
  by (simp_all add: cache_ok_def ack_default_def remembered_def)

lemma cache_ok_clear [simp]: "cache_ok (ack_clear c)" "remembered (ack_clear c) = {}"
  by (simp_all add: cache_ok_def ack_clear_def remembered_def)

lemma set_epoch_effect:
  "cache_ok c \<Longrightarrow> cache_ok (set_epoch e c)" "remembered (set_epoch e c) \<subseteq> remembered c"
  by (auto simp: set_epoch_def cache_ok_def ack_clear_def remembered_def)

lemma expire_effect:
  "cache_ok c \<Longrightarrow> cache_ok (expire_staged_at now c)" "remembered (expire_staged_at now c) \<subseteq> remembered c"
  "ac_database_epoch (expire_staged_at now c) = ac_database_epoch c"
  "ac_committed (expire_staged_at now c) = ac_committed c"
  by (auto simp: cache_ok_def expire_staged_at_def remembered_def bt_wf_filter list_all_iff split: option.splits
      intro: order_trans[OF length_filter_le])

lemma adopt_effect:
  "cache_ok c \<Longrightarrow> cache_ok (adopt_epoch e c)" "remembered (adopt_epoch e c) = remembered c"
  "ac_staged (adopt_epoch e c) = ac_staged c" "ac_committed (adopt_epoch e c) = ac_committed c"
  "\<not> other_epoch e c \<Longrightarrow> ac_database_epoch (adopt_epoch e c) = Some e"
  by (auto simp: adopt_epoch_def cache_ok_def remembered_def other_epoch_def list_all_iff split: option.splits)

lemma in_staged_iff: "in_staged k m \<longleftrightarrow> k \<in> fst ` set m"
  by (simp add: in_staged_def dom_map_of_conv_image_fst[symmetric] domIff)

lemma oldest_staged_None: "oldest_staged m = None \<longleftrightarrow> m = []"
  by (cases m rule: oldest_staged.cases) (auto split: option.splits)

lemma set_bt_remove: "set (bt_remove k m) \<subseteq> set m" "length (bt_remove k m) \<le> length m"
  by (auto simp: bt_remove_def)

lemma make_room_keeps:
  assumes "P m" "\<And>k m. P m \<Longrightarrow> P (bt_remove k m)"
  shows "P (make_room key m)"
  using assms(1)
proof (induction key m rule: make_room.induct)
  case (1 key m)
  show ?case
  proof (cases "\<not> in_staged key m \<and> CLOUD_STATE_CHUNK_ACK_CACHE_ENTRIES \<le> length m")
    case True
    then obtain x t where x: "oldest_staged m = Some (x, t)"
      using oldest_staged_None[of m] by (cases "oldest_staged m") (auto simp: CLOUD_STATE_CHUNK_ACK_CACHE_ENTRIES_def)
    have "P (make_room key (bt_remove x m))"
      by (rule 1(1)[OF True x refl assms(2)[OF 1(2)]])
    then show ?thesis using True x by (simp add: make_room.simps[of key m])
  next
    case False
    then show ?thesis using 1(2) by (auto simp: make_room.simps[of key m])
  qed
qed

lemma make_room_subset: "set (make_room k m) \<subseteq> set m"
  using make_room_keeps[of "\<lambda>x. set x \<subseteq> set m" m k] set_bt_remove(1) by (meson order_refl order_trans)

lemma make_room_wf: "bt_wf m \<Longrightarrow> bt_wf (make_room k m)"
  by (rule make_room_keeps) (auto intro: bt_wf_remove)

lemma length_make_room:
  "length m \<le> CLOUD_STATE_CHUNK_ACK_CACHE_ENTRIES \<Longrightarrow>
   length (make_room k m) \<le> CLOUD_STATE_CHUNK_ACK_CACHE_ENTRIES
   \<and> (in_staged k (make_room k m) \<or> length (make_room k m) < CLOUD_STATE_CHUNK_ACK_CACHE_ENTRIES)"
proof (induction k m rule: make_room.induct)
  case (1 k m)
  have le: "length (bt_remove x m) \<le> CLOUD_STATE_CHUNK_ACK_CACHE_ENTRIES" for x
    using set_bt_remove(2)[of x m] 1(2) by linarith
  have ne: "CLOUD_STATE_CHUNK_ACK_CACHE_ENTRIES \<le> length m \<Longrightarrow> oldest_staged m \<noteq> None"
    by (auto simp: oldest_staged_None CLOUD_STATE_CHUNK_ACK_CACHE_ENTRIES_def)
  show ?case
    using 1 le ne by (subst (1 2 3) make_room.simps) (auto split: option.splits)
qed

lemma length_bt_insert: "length (bt_insert k v m) \<le> Suc (length m)"
  by (induction m) auto

lemma length_bt_insert_present: "k \<in> fst ` set m \<Longrightarrow> bt_wf m \<Longrightarrow> length (bt_insert k v m) = length m"
proof (induction m)
  case (Cons p m)
  obtain k' v' where p: "p = (k', v')" by (cases p)
  have "k \<in> fst ` set m \<Longrightarrow> k' < k" using Cons.prems(2) by (auto simp: bt_wf_def p)
  then show ?case using Cons by (auto simp: bt_wf_def p)
qed simp

lemma set_bt_insert: "set (bt_insert k v m) \<subseteq> insert (k, v) (set m)"
  by (induction m) (auto split: if_splits)


lemma remember_effect:
  assumes "cache_ok c"
  shows "cache_ok (remember_staged_at e h now c)"
    and "remembered (remember_staged_at e h now c) \<subseteq> insert (e, h) (remembered c)"
proof -
  define c' where "c' = expire_staged_at now (adopt_epoch e c)"
  define staged where "staged = bt_insert (e, h) now (make_room (e, h) (ac_staged c'))"
  have ok: "cache_ok c'" unfolding c'_def by (intro expire_effect adopt_effect assms)
  have sub: "remembered c' \<subseteq> remembered c"
    unfolding c'_def using expire_effect(2)[of now "adopt_epoch e c"] by (simp add: adopt_effect)
  have mem: "set staged \<subseteq> insert ((e, h), now) (set (ac_staged c'))"
    unfolding staged_def using set_bt_insert make_room_subset by fastforce
  have wf: "bt_wf staged" "bt_wf (make_room (e, h) (ac_staged c'))"
    using ok unfolding staged_def by (simp_all add: cache_ok_def bt_wf_insert make_room_wf)
  define room where "room = make_room (e, h) (ac_staged c')"
  have room: "length room \<le> CLOUD_STATE_CHUNK_ACK_CACHE_ENTRIES"
      "in_staged (e, h) room \<or> length room < CLOUD_STATE_CHUNK_ACK_CACHE_ENTRIES" "bt_wf room"
    using length_make_room[of "ac_staged c'" "(e, h)"] ok wf(2) by (simp_all add: room_def cache_ok_def)
  have "in_staged (e, h) room \<Longrightarrow> length staged = length room"
    unfolding staged_def room_def[symmetric] in_staged_iff by (rule length_bt_insert_present[OF _ room(3)])
  then have "length staged \<le> CLOUD_STATE_CHUNK_ACK_CACHE_ENTRIES"
    using room length_bt_insert[of "(e, h)" now room] unfolding staged_def room_def[symmetric] by linarith
  moreover have "ac_database_epoch c' = Some e" if "\<not> other_epoch e c"
    using that by (simp add: c'_def expire_effect adopt_effect)
  ultimately have "cache_ok (c'\<lparr>ac_staged := staged\<rparr>)" if "\<not> other_epoch e c"
    using that ok wf(1) mem by (auto simp: cache_ok_def list_all_iff split: option.splits)
  then show "cache_ok (remember_staged_at e h now c)"
    using ok assms by (simp add: remember_staged_at_def Let_def c'_def[symmetric] staged_def)
  have "remembered (c'\<lparr>ac_staged := staged\<rparr>) \<subseteq> insert (e, h) (remembered c')"
    using mem by (force simp: remembered_def)
  then show "remembered (remember_staged_at e h now c) \<subseteq> insert (e, h) (remembered c)"
    using sub by (auto simp: remember_staged_at_def Let_def c'_def[symmetric] staged_def)
qed

lemma pin_committed_cases:
  obtains "pin_committed e v hs c = c" | "pin_committed e v hs c = adopt_epoch e c"
  | "\<not> other_epoch e c" "length hs \<le> MAX_CLOUD_STATE_CHUNKS"
    "pin_committed e v hs c = (adopt_epoch e c)\<lparr>ac_staged := filter (\<lambda>((cached_epoch, hash), _).
         cached_epoch \<noteq> e \<or> hash \<notin> set hs) (ac_staged c),
       ac_committed := Some \<lparr>cm_database_epoch = e, cm_state_version = v, cm_hashes = hs\<rparr>\<rparr>"
proof -
  let ?old = "case ac_committed c of None \<Rightarrow> False
     | Some m \<Rightarrow> cm_database_epoch m = e \<and> v \<le> cm_state_version m"
  consider "MAX_CLOUD_STATE_CHUNKS < length hs \<or> other_epoch e c"
    | "\<not> other_epoch e c" "length hs \<le> MAX_CLOUD_STATE_CHUNKS" ?old
    | "\<not> other_epoch e c" "length hs \<le> MAX_CLOUD_STATE_CHUNKS" "\<not> ?old" by linarith
  then show thesis
  proof cases
    case 1
    then show ?thesis by (intro that(1)) (auto simp: pin_committed_def)
  next
    case 2
    then show ?thesis by (intro that(2)) (simp add: pin_committed_def Let_def adopt_effect)
  next
    case 3
    show ?thesis by (rule that(3)[OF 3(1,2)]) (use 3 in \<open>simp add: pin_committed_def Let_def adopt_effect\<close>)
  qed
qed

lemma pin_effect:
  assumes "cache_ok c"
  shows "cache_ok (pin_committed e v hs c)"
    and "remembered (pin_committed e v hs c) \<subseteq> {e} \<times> set hs \<union> remembered c"
proof -
  note a = adopt_effect[where c = c and e = e]
  have "cache_ok (pin_committed e v hs c) \<and> remembered (pin_committed e v hs c) \<subseteq> {e} \<times> set hs \<union> remembered c"
  proof (cases rule: pin_committed_cases[of e v hs c])
    case 3
    have "cache_ok (pin_committed e v hs c)"
      unfolding 3(3) using assms a(1)[OF assms] a(5)[OF 3(1)] 3(2)
      by (auto simp: cache_ok_def a(3) bt_wf_filter list_all_iff intro: order_trans[OF length_filter_le])
    then show ?thesis unfolding 3(3) by (auto simp: remembered_def)
  qed (use assms a in auto)
  then show "cache_ok (pin_committed e v hs c)"
    "remembered (pin_committed e v hs c) \<subseteq> {e} \<times> set hs \<union> remembered c" by blast+
qed

lemma clear_epoch_effect:
  "cache_ok c \<Longrightarrow> cache_ok (clear_epoch e c)" "remembered (clear_epoch e c) \<subseteq> {x \<in> remembered c. fst x \<noteq> e}"
  by (auto simp: clear_epoch_def cache_ok_def remembered_def bt_wf_filter list_all_iff split: option.splits
      intro: order_trans[OF length_filter_le])

lemma contains_effect:
  assumes "contains_at e h now c = (b, c')"
  shows "cache_ok c \<Longrightarrow> cache_ok c'" "remembered c' \<subseteq> remembered c" "b \<Longrightarrow> (e, h) \<in> remembered c"
proof -
  consider "c' = c" "\<not> b" | "c' = expire_staged_at now c"
      "b = (in_committed e h c' \<or> in_staged (e, h) (ac_staged c'))"
    using assms by (auto simp: contains_at_def Let_def split: if_splits)
  then show "cache_ok c \<Longrightarrow> cache_ok c'" "remembered c' \<subseteq> remembered c" "b \<Longrightarrow> (e, h) \<in> remembered c"
    using expire_effect[where c = c and now = now]
    by (cases; auto simp: remembered_def in_committed_def in_staged_iff split: option.splits)+
qed

subsection \<open>Replies, the world and the client\<close>

record request_list =
  rl_database_epoch :: string
  rl_requests :: "cloud_request list"

record epoch_rotation_response =
  er_rotated :: bool
  er_database_epoch :: string

record http_reply =
  hr_status :: nat
  hr_epoch_header :: "string option"
  hr_version_header :: "string option"
  hr_sequence_header :: "string option"
  hr_request_list :: "cloud_error + request_list"               \<comment> \<open>the body, decoded\<close>
  hr_rotation :: "cloud_error + epoch_rotation_response"

record ack_receipt =
  ar_seq :: u64
  ar_request_id :: string
  ar_payload_hash :: string
  ar_kind :: string
  ar_created_at :: u64

type_synonym 'w exchange = "'w \<Rightarrow> (cloud_error + http_reply) \<times> 'w"

record 'w cloud_env =
  nv_sha256 :: "string \<Rightarrow> string"
  nv_encode :: json_encoder
  nv_encode_request :: "cloud_request \<Rightarrow> cloud_error + string"
  nv_url :: "string \<Rightarrow> cloud_error + string"                    \<comment> \<open>\<open>api_url\<close>\<close>
  nv_now :: "'w \<Rightarrow> nat \<times> 'w"
  nv_post_chunk :: "string \<Rightarrow> string \<Rightarrow> string \<Rightarrow> 'w exchange"     \<comment> \<open>URL, epoch, body\<close>
  nv_post_manifest :: "string \<Rightarrow> string \<Rightarrow> bool option \<Rightarrow> string \<Rightarrow> 'w exchange"
  nv_get_requests :: "string \<Rightarrow> string \<Rightarrow> string option \<Rightarrow> 'w exchange"
  nv_post_ack :: "string \<Rightarrow> string \<Rightarrow> ack_receipt list \<Rightarrow> 'w exchange"
  nv_post_rotation :: "string \<Rightarrow> string \<Rightarrow> ack_receipt \<Rightarrow> 'w exchange"

datatype post_error =
    Transport cloud_error
  | HttpStatus nat
  | Conflict u64
  | DatabaseEpochChanged string string

datatype cloud_event =
    ChunkSent string string string              \<comment> \<open>epoch, digest, bytes\<close>
  | ChunkAccepted string string                 \<comment> \<open>the worker answered with success\<close>
  | ManifestSent string "string list" string    \<comment> \<open>epoch, digests, manifest\<close>
  | EpochForgotten string
  | AllForgotten

record 'w cloud_client =
  cc_database_epoch :: "string option"
  cc_cache :: ack_chunks
  cc_world :: 'w
  cc_trace :: "cloud_event list"

subsection \<open>Statuses and headers\<close>

definition is_success :: "nat \<Rightarrow> bool" where "is_success status = (200 \<le> status \<and> status < 300)"
definition is_server_error :: "nat \<Rightarrow> bool" where "is_server_error status = (500 \<le> status \<and> status < 600)"
definition error_for_status :: "string \<Rightarrow> http_reply \<Rightarrow> cloud_error + unit" where
  "error_for_status message r = guard_result (\<not> (400 \<le> hr_status r \<and> hr_status r < 600)) (CloudError message)"

definition is_retryable :: "post_error \<Rightarrow> bool" where
  "is_retryable e = (case e of
      Transport _ \<Rightarrow> True
    | Conflict _ \<Rightarrow> True
    | DatabaseEpochChanged _ _ \<Rightarrow> False
    | HttpStatus status \<Rightarrow> status \<in> {401, 403, 409, 408, 428, 429} \<or> is_server_error status)"

definition is_payload_too_large :: "post_error \<Rightarrow> bool" where
  "is_payload_too_large e = (e = HttpStatus 413)"

definition stored_version_hint :: "post_error \<Rightarrow> u64 option" where
  "stored_version_hint e = (case e of Conflict stored_version \<Rightarrow> Some stored_version | _ \<Rightarrow> None)"

definition database_epoch_from_header :: "http_reply \<Rightarrow> string option" where
  "database_epoch_from_header r = (case hr_epoch_header r of
      None \<Rightarrow> None | Some epoch \<Rightarrow> if valid_database_epoch epoch then Some epoch else None)"

definition changed_epoch :: "string \<Rightarrow> http_reply \<Rightarrow> string option" where
  \<comment> \<open>a conflict that names another epoch\<close>
  "changed_epoch expected r = (if hr_status r = 409 then
      (case database_epoch_from_header r of None \<Rightarrow> None
       | Some actual \<Rightarrow> if actual \<noteq> expected then Some actual else None) else None)"

definition parse_decimal :: "string \<Rightarrow> u64 option" where
  \<comment> \<open>\<open>parse::<u64>\<close> on a nonempty string of digits\<close>
  "parse_decimal digits =
     (let n = foldl (\<lambda>n c. 10 * n + (byte c - 48)) 0 digits in if n < 2 ^ 64 then Some (of_nat n) else None)"

definition parse_cloud_state_version_hint :: "string \<Rightarrow> u64 option" where
  "parse_cloud_state_version_hint bytes =
     (if bytes = [] \<or> hd bytes = CHR ''0'' \<or> \<not> list_all is_ascii_digit bytes then None
      else case parse_decimal bytes of None \<Rightarrow> None
        | Some version \<Rightarrow> if version \<le> MAX_CLOUD_STATE_VERSION then Some version else None)"

definition parse_u64 :: "string \<Rightarrow> u64 option" where
  \<comment> \<open>\<open>str::parse::<u64>\<close>: an optional plus sign, then digits\<close>
  "parse_u64 s = (let digits = (case s of [] \<Rightarrow> [] | c # cs \<Rightarrow> if c = CHR ''+'' then cs else s)
     in if digits = [] \<or> \<not> list_all is_ascii_digit digits then None else parse_decimal digits)"

definition header_value_ok :: "string \<Rightarrow> bool" where
  "header_value_ok s = list_all (\<lambda>c. byte c = 9 \<or> (32 \<le> byte c \<and> byte c < 127)) s"

subsection \<open>The cache of the client\<close>

definition logged :: "cloud_event \<Rightarrow> 'w cloud_client \<Rightarrow> 'w cloud_client" where
  "logged ev c = c\<lparr>cc_trace := ev # cc_trace c\<rparr>"

definition with_cache :: "(ack_chunks \<Rightarrow> ack_chunks) \<Rightarrow> 'w cloud_client \<Rightarrow> 'w cloud_client" where
  "with_cache f c = c\<lparr>cc_cache := f (cc_cache c)\<rparr>"

definition clear_acknowledged_state_chunks :: "string \<Rightarrow> 'w cloud_client \<Rightarrow> 'w cloud_client" where
  "clear_acknowledged_state_chunks epoch c = with_cache (clear_epoch epoch) (logged (EpochForgotten epoch) c)"

definition clear_all_acknowledged_state_chunks :: "'w cloud_client \<Rightarrow> 'w cloud_client" where
  "clear_all_acknowledged_state_chunks c = with_cache ack_clear (logged AllForgotten c)"

definition state_chunk_is_acknowledged ::
  "'w cloud_env \<Rightarrow> string \<Rightarrow> string \<Rightarrow> 'w cloud_client \<Rightarrow> bool \<times> 'w cloud_client" where
  "state_chunk_is_acknowledged env epoch sha256 c =
     (let (now, w) = nv_now env (cc_world c);
          (known, cache) = contains_at epoch sha256 now (cc_cache c)
      in (known, c\<lparr>cc_world := w, cc_cache := cache\<rparr>))"

definition remember_acknowledged_state_chunk ::
  "'w cloud_env \<Rightarrow> string \<Rightarrow> string \<Rightarrow> 'w cloud_client \<Rightarrow> 'w cloud_client" where
  "remember_acknowledged_state_chunk env epoch sha256 c =
     (let (now, w) = nv_now env (cc_world c)
      in with_cache (remember_staged_at epoch sha256 now) (c\<lparr>cc_world := w\<rparr>))"

definition exchange_with ::
  "'w exchange \<Rightarrow> 'w cloud_client \<Rightarrow> (cloud_error + http_reply) \<times> 'w cloud_client" where
  "exchange_with ex c = (let (r, w) = ex (cc_world c) in (r, c\<lparr>cc_world := w\<rparr>))"

definition new_client :: "'w \<Rightarrow> 'w cloud_client" where
  "new_client w = \<lparr>cc_database_epoch = None, cc_cache = ack_default, cc_world = w, cc_trace = []\<rparr>"

definition with_database_epoch :: "string \<Rightarrow> 'w cloud_client \<Rightarrow> cloud_error + 'w cloud_client" where
  "with_database_epoch epoch c =
     (if \<not> valid_database_epoch epoch then
        Inl (CloudError ''cloud database epoch must be 32 lowercase hexadecimal characters'')
      else Inr ((if cc_database_epoch c \<noteq> Some epoch then with_cache (set_epoch epoch) c else c)
                \<lparr>cc_database_epoch := Some epoch\<rparr>))"

definition client_epoch :: "'w cloud_client \<Rightarrow> cloud_error + string" where
  "client_epoch c = (case cc_database_epoch c of
      None \<Rightarrow> Inl (CloudError ''cloud client database epoch has not been bootstrapped'') | Some e \<Rightarrow> Inr e)"

subsection \<open>Uploading the chunks\<close>

datatype upload =
    Unpolled string string
  | AwaitingReply string string string          \<comment> \<open>URL, digest, bytes\<close>

fun poll_upload ::
  "'w cloud_env \<Rightarrow> string \<Rightarrow> upload \<Rightarrow> 'w cloud_client \<Rightarrow> (upload + (post_error + unit)) \<times> 'w cloud_client"
where
  "poll_upload env expected (Unpolled sha256 bytes) c =
     (let (known, c) = state_chunk_is_acknowledged env expected sha256 c
      in if known then (Inr (Inr ()), c)
         else case nv_url env (''api/local/state/chunks/'' @ sha256) of
             Inl e \<Rightarrow> (Inr (Inl (Transport e)), c)
           | Inr url \<Rightarrow> (Inl (AwaitingReply url sha256 bytes), logged (ChunkSent expected sha256 bytes) c))"
| "poll_upload env expected (AwaitingReply url sha256 bytes) c =
     (let (r, c) = exchange_with (nv_post_chunk env url expected bytes) c
      in case r of
          Inl e \<Rightarrow> (Inr (Inl (Transport e)), c)
        | Inr reply \<Rightarrow>
            if is_success (hr_status reply) then
              (Inr (Inr ()), remember_acknowledged_state_chunk env expected sha256
                               (logged (ChunkAccepted expected sha256) c))
            else (case changed_epoch expected reply of
                Some actual \<Rightarrow> (Inr (Inl (DatabaseEpochChanged expected actual)), c)
              | None \<Rightarrow> (Inr (Inl (HttpStatus (hr_status reply))), c)))"

definition CLOUD_STATE_CHUNK_UPLOAD_CONCURRENCY :: nat where "CLOUD_STATE_CHUNK_UPLOAD_CONCURRENCY = 4"

definition unpolled :: "string \<times> string \<Rightarrow> upload" where
  "unpolled chunk = Unpolled (fst chunk) (snd chunk)"

definition polls_left :: "upload list \<Rightarrow> nat" where
  "polls_left active = sum_list (map (\<lambda>u. case u of Unpolled _ _ \<Rightarrow> 2 | AwaitingReply _ _ _ \<Rightarrow> 1) active)"

definition chosen :: "nat list \<Rightarrow> 'a list \<Rightarrow> nat" where
  "chosen choices active = (case choices of [] \<Rightarrow> 0 | n # _ \<Rightarrow> n mod length active)"

definition without :: "nat \<Rightarrow> 'a list \<Rightarrow> 'a list" where
  "without i xs = take i xs @ drop (Suc i) xs"

lemma chosen_less: "active \<noteq> [] \<Longrightarrow> chosen choices active < length active"
  by (simp add: chosen_def split: list.splits)

lemma polls_left_split:
  "i < length active \<Longrightarrow> polls_left active = polls_left [active ! i] + polls_left (without i active)"
  by (subst id_take_nth_drop[of i active]) (simp_all add: polls_left_def without_def)

lemma polls_left_update:
  assumes "i < length active"
  shows "polls_left (active[i := u]) = polls_left [u] + polls_left (without i active)"
  using assms by (simp add: upd_conv_take_nth_drop polls_left_def without_def)

lemma poll_progress:
  assumes "poll_upload env expected u c = (Inl u', c')"
  shows "polls_left [u'] < polls_left [u]"
  using assms by (cases u) (auto simp: polls_left_def Let_def split: prod.splits if_splits sum.splits option.splits)

lemma poll_uses_up:
  assumes "active \<noteq> []" "poll_upload env expected (active ! chosen choices active) c = (Inl u, c')"
  shows "polls_left (active[chosen choices active := u]) < polls_left active"
  using poll_progress[OF assms(2)] chosen_less[OF assms(1)]
  by (simp add: polls_left_update polls_left_split[of "chosen choices active" active])

lemma refill_uses_up:
  assumes "active \<noteq> []"
  shows "2 * length (drop 1 pending) + polls_left (without (chosen choices active) active @ map unpolled (take 1 pending))
    < 2 * length pending + polls_left active"
proof -
  have "0 < polls_left [active ! chosen choices active]"
    by (cases "active ! chosen choices active") (simp_all add: polls_left_def)
  moreover have "polls_left (xs @ map unpolled (take 1 pending)) = polls_left xs + 2 * length (take 1 pending)" for xs
    by (cases pending) (simp_all add: polls_left_def unpolled_def)
  ultimately show ?thesis using chosen_less[OF assms, of choices]
    by (cases pending) (simp_all add: polls_left_split[of "chosen choices active" active])
qed

function upload_loop ::
  "'w cloud_env \<Rightarrow> string \<Rightarrow> nat list \<Rightarrow> chunk_map \<Rightarrow> upload list \<Rightarrow> (post_error + unit) list \<Rightarrow> 'w cloud_client
   \<Rightarrow> (post_error + unit) list \<times> 'w cloud_client"
where
  "upload_loop env expected choices pending active results c =
     (if active = [] then (results, c)
      else let i = chosen choices active
           in case poll_upload env expected (active ! i) c of
               (Inl u, c) \<Rightarrow> upload_loop env expected (tl choices) pending (active[i := u]) results c
             | (Inr r, c) \<Rightarrow> upload_loop env expected (tl choices) (drop 1 pending)
                               (without i active @ map unpolled (take 1 pending)) (results @ [r]) c)"
  by auto
termination
  apply (relation "measure (\<lambda>(_, _, _, pending, active, _, _). 2 * length pending + polls_left active)")
    apply simp
   apply (hypsubst, simp only: in_measure prod.case add_less_cancel_left, rule poll_uses_up, assumption, erule sym)
  apply (hypsubst, simp only: in_measure prod.case, rule refill_uses_up, assumption)
  done

declare upload_loop.simps [simp del]

definition upload_chunks ::
  "'w cloud_env \<Rightarrow> string \<Rightarrow> nat list \<Rightarrow> chunk_map \<Rightarrow> 'w cloud_client \<Rightarrow> (post_error + unit) list \<times> 'w cloud_client"
where
  \<comment> \<open>\<open>buffer_unordered\<close>: at most four uploads are active, and one that ends makes room for the next\<close>
  "upload_chunks env expected choices chunks c =
     upload_loop env expected choices (drop CLOUD_STATE_CHUNK_UPLOAD_CONCURRENCY chunks)
       (map unpolled (take CLOUD_STATE_CHUNK_UPLOAD_CONCURRENCY chunks)) [] c"

record upload_verdict =
  uv_upload_error :: "post_error option"
  uv_epoch_error :: "post_error option"
  uv_clear_epoch_cache :: bool
  uv_clear_all_cache :: bool

definition first_error :: "post_error \<Rightarrow> post_error option \<Rightarrow> post_error option" where
  "first_error e old = (if old = None then Some e else old)"

fun note_upload :: "post_error + unit \<Rightarrow> upload_verdict \<Rightarrow> upload_verdict" where
  "note_upload (Inr ()) v = v"
| "note_upload (Inl e) v = (case e of
      DatabaseEpochChanged _ _ \<Rightarrow> v\<lparr>uv_clear_all_cache := True, uv_epoch_error := first_error e (uv_epoch_error v)\<rparr>
    | _ \<Rightarrow> (if e = HttpStatus 428
            then v\<lparr>uv_clear_epoch_cache := True, uv_upload_error := first_error e (uv_upload_error v)\<rparr>
            else v\<lparr>uv_upload_error := first_error e (uv_upload_error v)\<rparr>))"

definition upload_verdict_of :: "(post_error + unit) list \<Rightarrow> upload_verdict" where
  "upload_verdict_of results = fold note_upload results
     \<lparr>uv_upload_error = None, uv_epoch_error = None, uv_clear_epoch_cache = False, uv_clear_all_cache = False\<rparr>"

definition verdict_error :: "upload_verdict \<Rightarrow> post_error option" where
  "verdict_error v = (case uv_epoch_error v of Some e \<Rightarrow> Some e | None \<Rightarrow> uv_upload_error v)"

definition after_uploads :: "string \<Rightarrow> upload_verdict \<Rightarrow> 'w cloud_client \<Rightarrow> 'w cloud_client" where
  "after_uploads expected v c =
     (if uv_clear_all_cache v then clear_all_acknowledged_state_chunks c
      else if uv_clear_epoch_cache v then clear_acknowledged_state_chunks expected c else c)"

subsection \<open>Publishing a state\<close>

definition publish_manifest ::
  "'w cloud_env \<Rightarrow> string \<Rightarrow> u64 \<Rightarrow> bool option \<Rightarrow> prepared_state \<Rightarrow> 'w cloud_client
   \<Rightarrow> (post_error + unit) \<times> 'w cloud_client"
where
  "publish_manifest env expected state_version notify_viewers p c =
     (case nv_url env ''api/local/state'' of
        Inl e \<Rightarrow> (Inl (Transport e), c)
      | Inr url \<Rightarrow>
          let hashes = bt_set (map fst (pr_chunks p));
              (r, c) = exchange_with (nv_post_manifest env url expected notify_viewers (pr_manifest p))
                         (logged (ManifestSent expected hashes (pr_manifest p)) c)
          in case r of
              Inl e \<Rightarrow> (Inl (Transport e), c)
            | Inr reply \<Rightarrow>
                if is_success (hr_status reply) then
                  (Inr (), with_cache (pin_committed expected state_version hashes) c)
                else if hr_status reply = 428 then
                  (Inl (HttpStatus 428), clear_acknowledged_state_chunks expected c)
                else if hr_status reply = 409 then
                  (case changed_epoch expected reply of
                     Some actual \<Rightarrow>
                       (Inl (DatabaseEpochChanged expected actual), clear_all_acknowledged_state_chunks c)
                   | None \<Rightarrow>
                       (case Option.bind (hr_version_header reply) parse_cloud_state_version_hint of
                          Some stored_version \<Rightarrow> (Inl (Conflict stored_version), c)
                        | None \<Rightarrow> (Inl (HttpStatus 409), c)))
                else (Inl (HttpStatus (hr_status reply)), c))"

definition post_state_with_notify_viewers ::
  "'w cloud_env \<Rightarrow> nat list \<Rightarrow> cloud_state \<Rightarrow> bool option \<Rightarrow> 'w cloud_client \<Rightarrow> (post_error + unit) \<times> 'w cloud_client"
where
  "post_state_with_notify_viewers env choices st notify_viewers c =
     (case client_epoch c of
        Inl e \<Rightarrow> (Inl (Transport e), c)
      | Inr expected \<Rightarrow>
          (case chunked_snapshot (nv_sha256 env) (nv_encode env) True st of
             Inl e \<Rightarrow> (Inl (if e = CloudStateComplexityExceeded then HttpStatus 413 else Transport e), c)
           | Inr p \<Rightarrow>
               if MAX_CLOUD_STATE_PARTITION_BYTES < pr_total_partition_bytes p
                  \<or> MAX_CLOUD_STATE_CHUNKS < pr_total_chunk_references p
               then (Inl (HttpStatus 413), c)
               else
                 let (results, c) = upload_chunks env expected choices (pr_chunks p) c;
                     verdict = upload_verdict_of results;
                     c = after_uploads expected verdict c
                 in case verdict_error verdict of
                     Some e \<Rightarrow> (Inl e, c)
                   | None \<Rightarrow> publish_manifest env expected (cs_state_version st) notify_viewers p c))"

subsection \<open>Requests of the worker\<close>

fun validate_requests :: "'w cloud_env \<Rightarrow> cloud_request list \<Rightarrow> cloud_error + unit" where
  "validate_requests env [] = Inr ()"
| "validate_requests env (r # rs) =
     bind_result (validate_request (nv_encode_request env) r) (\<lambda>_. validate_requests env rs)"

definition fetch_request_list ::
  "'w cloud_env \<Rightarrow> 'w cloud_client \<Rightarrow> (cloud_error + request_list) \<times> 'w cloud_client" where
  "fetch_request_list env c =
     (let expected = cc_database_epoch c;
          page_size = (if expected \<noteq> None then ''100'' else ''1'')
      in case nv_url env ''api/local/requests'' of
          Inl e \<Rightarrow> (Inl e, c)
        | Inr url \<Rightarrow>
            if (case expected of None \<Rightarrow> False | Some e \<Rightarrow> \<not> header_value_ok e)
            then (Inl (CloudError ''invalid cloud database epoch header''), c)
            else
              let (r, c) = exchange_with (nv_get_requests env url page_size expected) c
              in case r of
                  Inl e \<Rightarrow> (Inl e, c)
                | Inr reply \<Rightarrow>
                    (case Option.bind expected (\<lambda>e. map_option (\<lambda>a. (e, a)) (changed_epoch e reply)) of
                       Some (e, actual) \<Rightarrow>
                         (Inl (CloudDatabaseEpochChanged e actual), clear_all_acknowledged_state_chunks c)
                     | None \<Rightarrow>
                         (bind_result (error_for_status ''local cloud request fetch returned HTTP error'' reply) (\<lambda>_.
                          bind_result (hr_request_list reply) (\<lambda>page.
                          if \<not> valid_database_epoch (rl_database_epoch page) then
                            Inl (CloudError ''local cloud request page omitted a valid database epoch'')
                          else bind_result (validate_requests env (rl_requests page)) (\<lambda>_. Inr page))), c)))"

definition bootstrap_database_epoch ::
  "'w cloud_env \<Rightarrow> 'w cloud_client \<Rightarrow> (cloud_error + string) \<times> 'w cloud_client" where
  "bootstrap_database_epoch env c =
     (let (r, c) = fetch_request_list env c in (bind_result r (\<lambda>page. Inr (rl_database_epoch page)), c))"

definition fetch_requests ::
  "'w cloud_env \<Rightarrow> 'w cloud_client \<Rightarrow> (cloud_error + cloud_request list) \<times> 'w cloud_client" where
  "fetch_requests env c =
     (case client_epoch c of
        Inl e \<Rightarrow> (Inl e, c)
      | Inr expected \<Rightarrow>
          let (r, c) = fetch_request_list env c
          in case r of
              Inl e \<Rightarrow> (Inl e, c)
            | Inr page \<Rightarrow>
                if rl_database_epoch page \<noteq> expected
                then (Inl (CloudDatabaseEpochChanged expected (rl_database_epoch page)),
                      clear_all_acknowledged_state_chunks c)
                else (Inr (rl_requests page), c))"

definition extra_str :: "cloud_request \<Rightarrow> string \<Rightarrow> string option" where
  "extra_str r k = Option.bind (map_of (rq_extra r) k) as_str"

definition stable_receipt :: "cloud_request \<Rightarrow> cloud_error + ack_receipt" where
  "stable_receipt r =
     (case extra_str r ''request_id'' of
        None \<Rightarrow> Inl (CloudError ''cloud request omitted its stable request identifier'')
      | Some request_id \<Rightarrow>
          if request_id = [] \<or> 256 < length request_id then
            Inl (CloudError ''cloud request omitted its stable request identifier'')
          else (case extra_str r ''payload_hash'' of
              None \<Rightarrow> Inl (CloudError ''cloud request omitted its stable payload hash'')
            | Some payload_hash \<Rightarrow>
                if \<not> is_sha256_hex payload_hash then
                  Inl (CloudError ''cloud request omitted its stable payload hash'')
                else Inr \<lparr>ar_seq = rq_seq r, ar_request_id = request_id, ar_payload_hash = payload_hash,
                          ar_kind = rq_kind r, ar_created_at = rq_created_at r\<rparr>))"

fun ack_receipts :: "'w cloud_env \<Rightarrow> cloud_request list \<Rightarrow> cloud_error + ack_receipt list" where
  "ack_receipts env [] = Inr []"
| "ack_receipts env (r # rs) =
     bind_result (validate_request (nv_encode_request env) r) (\<lambda>_.
       if rq_seq r = 0 \<or> MAX_JS_SAFE_INTEGER < rq_seq r then
         Inl (CloudError ''cannot acknowledge a sequence outside JavaScript's safe integer range'')
       else bind_result (stable_receipt r) (\<lambda>receipt.
         bind_result (ack_receipts env rs) (\<lambda>receipts. Inr (receipt # receipts))))"

definition conflict_sequence :: "http_reply \<Rightarrow> u64 option" where
  "conflict_sequence reply =
     (if hr_status reply = 409 then
        (case Option.bind (hr_sequence_header reply) parse_u64 of
           None \<Rightarrow> None | Some seq \<Rightarrow> if 0 < seq \<and> seq \<le> MAX_JS_SAFE_INTEGER then Some seq else None)
      else None)"

definition acknowledge_reply ::
  "string \<Rightarrow> (cloud_error + http_reply) \<times> 'w cloud_client \<Rightarrow> (cloud_error + unit) \<times> 'w cloud_client" where
  "acknowledge_reply expected rc = (case rc of
      (Inl e, c) \<Rightarrow> (Inl e, c)
    | (Inr reply, c) \<Rightarrow>
        (case changed_epoch expected reply of
           Some actual \<Rightarrow> (Inl (CloudDatabaseEpochChanged expected actual), clear_all_acknowledged_state_chunks c)
         | None \<Rightarrow>
             (case conflict_sequence reply of
                Some seq \<Rightarrow> (Inl (CloudInboxSequenceConflict seq), c)
              | None \<Rightarrow> (error_for_status ''local cloud acknowledgement returned HTTP error'' reply, c))))"

definition acknowledge ::
  "'w cloud_env \<Rightarrow> cloud_request list \<Rightarrow> 'w cloud_client \<Rightarrow> (cloud_error + unit) \<times> 'w cloud_client" where
  "acknowledge env requests c =
     (if requests = [] then (Inr (), c)
      else case bind_result (ack_receipts env requests) (\<lambda>receipts.
             bind_result (client_epoch c) (\<lambda>expected.
             bind_result (nv_url env ''api/local/ack'') (\<lambda>url. Inr (receipts, expected, url)))) of
          Inl e \<Rightarrow> (Inl e, c)
        | Inr (receipts, expected, url) \<Rightarrow>
            acknowledge_reply expected (exchange_with (nv_post_ack env url expected receipts) c))"

definition rotation_reply ::
  "string \<Rightarrow> (cloud_error + http_reply) \<times> 'w cloud_client \<Rightarrow> (cloud_error + unit) \<times> 'w cloud_client" where
  "rotation_reply expected rc = (case rc of
      (Inl e, c) \<Rightarrow> (Inl e, c)
    | (Inr reply, c) \<Rightarrow>
        if hr_status reply = 409 then
          (case changed_epoch expected reply of
             Some actual \<Rightarrow> (Inl (CloudDatabaseEpochChanged expected actual), clear_all_acknowledged_state_chunks c)
           | None \<Rightarrow> (Inl (CloudError ''cloud epoch rotation conflict no longer matches the pending request''), c))
        else (case bind_result (error_for_status ''conditional cloud epoch rotation returned HTTP error'' reply)
                     (\<lambda>_. hr_rotation reply) of
            Inl e \<Rightarrow> (Inl e, c)
          | Inr rotation \<Rightarrow>
              if \<not> er_rotated rotation \<or> \<not> valid_database_epoch (er_database_epoch rotation) then
                (Inl (CloudError ''cloud epoch rotation returned an invalid response''), c)
              else if er_database_epoch rotation = expected then
                (Inl (CloudError ''cloud epoch rotation did not change the database epoch''), c)
              else (Inl (CloudDatabaseEpochChanged expected (er_database_epoch rotation)),
                    clear_all_acknowledged_state_chunks c)))"

definition recover_sequence_conflict ::
  "'w cloud_env \<Rightarrow> cloud_request \<Rightarrow> 'w cloud_client \<Rightarrow> (cloud_error + unit) \<times> 'w cloud_client" where
  "recover_sequence_conflict env request c =
     (case bind_result (client_epoch c) (\<lambda>expected.
             bind_result (stable_receipt request) (\<lambda>body.
             bind_result (nv_url env ''api/local/epoch/rotate-on-conflict'') (\<lambda>url. Inr (expected, body, url)))) of
        Inl e \<Rightarrow> (Inl e, c)
      | Inr (expected, body, url) \<Rightarrow>
          rotation_reply expected (exchange_with (nv_post_rotation env url expected body) c))"

end
