(* ===== verification/CloudGuarantees.thy ===== *)
theory CloudGuarantees
  imports CloudClient
begin

section \<open>What the cloud client guarantees\<close>

text \<open>
  For every world, every encoding and every order in which uploads go on: the cache holds only what the worker has
  acknowledged and stays within its limits, a manifest is sent only when all its chunks are acknowledged, and a reply
  that says the worker has lost them empties the cache.
\<close>

subsection \<open>What the trace says\<close>

fun acked :: "cloud_event list \<Rightarrow> (string \<times> string) list" where
  \<comment> \<open>epoch and digest of the chunks the worker has accepted since the cache was last emptied\<close>
  "acked [] = []"
| "acked (ChunkAccepted e h # tr) = (e, h) # acked tr"
| "acked (EpochForgotten e # tr) = filter (\<lambda>x. fst x \<noteq> e) (acked tr)"
| "acked (AllForgotten # tr) = []"
| "acked (_ # tr) = acked tr"

fun manifests_backed :: "cloud_event list \<Rightarrow> bool" where
  \<comment> \<open>every manifest was sent when all its chunks were acknowledged\<close>
  "manifests_backed [] = True"
| "manifests_backed (ManifestSent e hs m # tr) = (list_all (\<lambda>h. (e, h) \<in> set (acked tr)) hs \<and> manifests_backed tr)"
| "manifests_backed (_ # tr) = manifests_backed tr"

definition client_ok :: "'w cloud_client \<Rightarrow> bool" where
  "client_ok c = (cache_ok (cc_cache c) \<and> remembered (cc_cache c) \<subseteq> set (acked (cc_trace c))
     \<and> manifests_backed (cc_trace c))"

definition acked_in :: "string \<Rightarrow> string \<Rightarrow> 'w cloud_client \<Rightarrow> bool" where
  "acked_in e h c = ((e, h) \<in> set (acked (cc_trace c)))"

subsection \<open>The pieces keep the invariant\<close>

lemma client_ok_world [simp]: "client_ok (c\<lparr>cc_world := w\<rparr>) = client_ok c"
  by (simp add: client_ok_def)

lemma client_ok_new: "client_ok (new_client w)"
  by (simp add: client_ok_def new_client_def)

lemma client_ok_exchange: "exchange_with ex c = (r, c') \<Longrightarrow> client_ok c \<Longrightarrow> client_ok c'"
  by (auto simp: exchange_with_def split: prod.splits)

lemma client_ok_clear_all [intro]: "client_ok c \<Longrightarrow> client_ok (clear_all_acknowledged_state_chunks c)"
  by (simp add: client_ok_def clear_all_acknowledged_state_chunks_def with_cache_def logged_def)

lemma client_ok_clear_epoch [intro]: "client_ok c \<Longrightarrow> client_ok (clear_acknowledged_state_chunks e c)"
  using clear_epoch_effect[where c = "cc_cache c" and e = e]
  by (auto simp: client_ok_def clear_acknowledged_state_chunks_def with_cache_def logged_def)

lemma client_ok_with_epoch:
  assumes "with_database_epoch e c = Inr c'" "client_ok c" shows "client_ok c'"
proof -
  have "c' = (if cc_database_epoch c \<noteq> Some e then with_cache (set_epoch e) c else c)\<lparr>cc_database_epoch := Some e\<rparr>"
    using assms(1) by (simp add: with_database_epoch_def split: if_splits)
  then show ?thesis
    using assms(2) set_epoch_effect[where c = "cc_cache c" and e = e]
    by (auto simp: client_ok_def with_cache_def)
qed

lemma acknowledged_effect:
  assumes "state_chunk_is_acknowledged env e h c = (known, c')" "client_ok c"
  shows "client_ok c'" "known \<Longrightarrow> acked_in e h c'" "cc_trace c' = cc_trace c"
proof -
  obtain now w where w: "nv_now env (cc_world c) = (now, w)" by (rule prod.exhaust)
  obtain b cache where ct: "contains_at e h now (cc_cache c) = (b, cache)" by (rule prod.exhaust)
  have c': "c' = c\<lparr>cc_world := w, cc_cache := cache\<rparr>" "known = b"
    using assms(1) by (simp_all add: state_chunk_is_acknowledged_def w ct)
  show "client_ok c'" "known \<Longrightarrow> acked_in e h c'" "cc_trace c' = cc_trace c"
    using assms(2) contains_effect[OF ct] unfolding c' by (auto simp: client_ok_def acked_in_def)
qed

lemma accepted_effect:
  assumes "client_ok c"
  shows "client_ok (remember_acknowledged_state_chunk env e h (logged (ChunkAccepted e h) c))"
    "cc_trace (remember_acknowledged_state_chunk env e h (logged (ChunkAccepted e h) c)) = ChunkAccepted e h # cc_trace c"
  using assms remember_effect[of "cc_cache c" e h]
  by (auto simp: remember_acknowledged_state_chunk_def client_ok_def with_cache_def logged_def split: prod.splits)

definition extends_acked :: "'w cloud_client \<Rightarrow> 'w cloud_client \<Rightarrow> bool" where
  "extends_acked c c' = (set (acked (cc_trace c)) \<subseteq> set (acked (cc_trace c')))"

lemma extends_acked_refl [simp]: "extends_acked c c"
  by (simp add: extends_acked_def)

lemma extends_acked_trans: "extends_acked a b \<Longrightarrow> extends_acked b c \<Longrightarrow> extends_acked a c"
  by (auto simp: extends_acked_def)

fun upload_digest :: "upload \<Rightarrow> string" where
  "upload_digest (Unpolled h b) = h"
| "upload_digest (AwaitingReply url h b) = h"

lemma exchange_trace [simp]: "exchange_with ex c = (r, c') \<Longrightarrow> cc_trace c' = cc_trace c"
  by (auto simp: exchange_with_def split: prod.splits)

lemma poll_effect:
  assumes "poll_upload env e u c = (r, c')" "client_ok c"
  shows "client_ok c' \<and> extends_acked c c' \<and> (r = Inr (Inr ()) \<longrightarrow> acked_in e (upload_digest u) c')
    \<and> (\<forall>u'. r = Inl u' \<longrightarrow> upload_digest u' = upload_digest u)"
proof (cases u)
  case (Unpolled h b)
  obtain known d where d: "state_chunk_is_acknowledged env e h c = (known, d)" by (rule prod.exhaust)
  note eff = acknowledged_effect[OF d assms(2)]
  have ok: "client_ok (logged (ChunkSent e h b) d)" using eff(1) by (simp add: client_ok_def logged_def)
  show ?thesis using assms(1) eff ok
    by (auto simp: Unpolled d extends_acked_def logged_def split: if_splits sum.splits)
next
  case (AwaitingReply url h b)
  obtain rep d where d: "exchange_with (nv_post_chunk env url e b) c = (rep, d)" by (rule prod.exhaust)
  have ok: "client_ok d" by (rule client_ok_exchange[OF d assms(2)])
  note t = exchange_trace[OF d]
  show ?thesis using assms(1) ok t accepted_effect[OF ok, of env e h]
    by (auto simp: AwaitingReply d extends_acked_def acked_in_def split: if_splits sum.splits option.splits)
qed

subsection \<open>After the uploads\<close>

definition outstanding :: "string \<Rightarrow> string list \<Rightarrow> chunk_map \<Rightarrow> upload list \<Rightarrow> (post_error + unit) list
    \<Rightarrow> 'w cloud_client \<Rightarrow> bool" where
  "outstanding e hs pending active results c =
     ((\<exists>x. Inl x \<in> set results)
      \<or> (\<forall>h\<in>set hs. acked_in e h c \<or> h \<in> fst ` set pending \<or> h \<in> upload_digest ` set active))"

lemma acked_in_mono: "extends_acked c c' \<Longrightarrow> acked_in e h c \<Longrightarrow> acked_in e h c'"
  by (auto simp: extends_acked_def acked_in_def)

lemma set_split_nth: "i < length xs \<Longrightarrow> set xs = insert (xs ! i) (set (without i xs))"
  by (metis Un_insert_right id_take_nth_drop list.simps(15) set_append without_def)

lemma outstanding_again:
  assumes "outstanding e hs pending active results c" "i < length active" "extends_acked c c'"
    "upload_digest u = upload_digest (active ! i)"
  shows "outstanding e hs pending (active[i := u]) results c'"
proof -
  have "upload_digest ` set (active[i := u]) = upload_digest ` set active"
    using assms(2,4) by (simp add: upd_conv_take_nth_drop set_split_nth[OF assms(2)] without_def)
  then show ?thesis using assms(1) acked_in_mono[OF assms(3)] unfolding outstanding_def by blast
qed

lemma outstanding_done:
  assumes "outstanding e hs pending active results c" "i < length active" "extends_acked c c'"
    "r = Inr () \<longrightarrow> acked_in e (upload_digest (active ! i)) c'"
  shows "outstanding e hs (drop 1 pending) (without i active @ map unpolled (take 1 pending)) (results @ [r]) c'"
proof (cases r)
  case (Inl x)
  then show ?thesis by (auto simp: outstanding_def)
next
  case (Inr u)
  have p: "fst ` set pending = fst ` set (drop 1 pending) \<union> upload_digest ` set (map unpolled (take 1 pending))"
    by (cases pending) (auto simp: unpolled_def)
  have s: "upload_digest ` set active
      = insert (upload_digest (active ! i)) (upload_digest ` set (without i active))"
    using set_split_nth[OF assms(2)] by simp
  have "acked_in e (upload_digest (active ! i)) c'" using assms(4) Inr by simp
  then show ?thesis
    using assms(1) acked_in_mono[OF assms(3)] unfolding outstanding_def p s by auto
qed

lemma upload_loop_effect:
  assumes "upload_loop env e choices pending active results c = (results', c')" "client_ok c"
    "active = [] \<longrightarrow> pending = []" "outstanding e hs pending active results c"
  shows "client_ok c' \<and> ((\<exists>x. Inl x \<in> set results') \<or> (\<forall>h\<in>set hs. acked_in e h c'))"
  using assms
proof (induction env e choices pending active results c rule: upload_loop.induct)
  case (1 env e choices pending active results c)
  show ?case
  proof (cases "active = []")
    case True
    then show ?thesis using 1(3-) by (simp add: upload_loop.simps outstanding_def)
  next
    case False
    define i where "i = chosen choices active"
    have i: "i < length active" unfolding i_def by (rule chosen_less[OF False])
    obtain r d where p: "poll_upload env e (active ! i) c = (r, d)" by (rule prod.exhaust)
    note eff = poll_effect[OF p 1(4)]
    show ?thesis
    proof (cases r)
      case (Inl u)
      have "outstanding e hs pending (active[i := u]) results d"
        using outstanding_again[OF 1(6) i] eff Inl by blast
      then show ?thesis
        using 1(1)[OF False i_def p[symmetric] Inl] 1(3) eff False Inl p
        by (simp add: upload_loop.simps[of env e choices pending active] i_def[symmetric])
    next
      case (Inr res)
      have o: "outstanding e hs (drop 1 pending) (without i active @ map unpolled (take 1 pending)) (results @ [res]) d"
        by (rule outstanding_done[OF 1(6) i]) (use eff Inr in auto)
      have n: "without i active @ map unpolled (take 1 pending) = [] \<longrightarrow> drop 1 pending = []"
        by (cases pending) auto
      have "upload_loop env e (tl choices) (drop 1 pending) (without i active @ map unpolled (take 1 pending))
          (results @ [res]) d = (results', c')"
        using 1(3) False Inr p by (simp add: upload_loop.simps[of env e choices pending active] i_def[symmetric] del: drop_Suc_Cons)
      from 1(2)[OF False i_def p[symmetric] Inr this conjunct1[OF eff] n o] show ?thesis .
    qed
  qed
qed

lemma upload_chunks_effect:
  assumes "upload_chunks env e choices chunks c = (results, c')" "client_ok c"
  shows "client_ok c' \<and> ((\<exists>x. Inl x \<in> set results) \<or> (\<forall>h\<in>fst ` set chunks. acked_in e h c'))"
proof -
  have s: "set chunks = set (take 4 chunks) \<union> set (drop 4 chunks)" by (metis append_take_drop_id set_append)
  have "outstanding e (map fst chunks) (drop CLOUD_STATE_CHUNK_UPLOAD_CONCURRENCY chunks)
      (map unpolled (take CLOUD_STATE_CHUNK_UPLOAD_CONCURRENCY chunks)) [] c"
    using s by (auto simp: outstanding_def unpolled_def CLOUD_STATE_CHUNK_UPLOAD_CONCURRENCY_def image_iff)
  moreover have "map unpolled (take CLOUD_STATE_CHUNK_UPLOAD_CONCURRENCY chunks) = []
      \<longrightarrow> drop CLOUD_STATE_CHUNK_UPLOAD_CONCURRENCY chunks = []"
    by (auto simp: CLOUD_STATE_CHUNK_UPLOAD_CONCURRENCY_def)
  ultimately show ?thesis
    using upload_loop_effect[of env e choices _ _ "[]" c results c' "map fst chunks"] assms
    by (simp add: upload_chunks_def)
qed

subsection \<open>The verdict over the uploads\<close>

definition verdict_ok :: "upload_verdict \<Rightarrow> bool" where
  "verdict_ok v = ((uv_upload_error v = Some (HttpStatus 428) \<longrightarrow> uv_clear_epoch_cache v)
     \<and> (uv_epoch_error v \<noteq> None \<longrightarrow> uv_clear_all_cache v)
     \<and> (\<forall>a b. uv_upload_error v \<noteq> Some (DatabaseEpochChanged a b))
     \<and> (\<forall>n. uv_epoch_error v \<noteq> Some (HttpStatus n))
     \<and> (uv_clear_all_cache v \<or> uv_clear_epoch_cache v \<longrightarrow> verdict_error v \<noteq> None))"

lemma note_upload_effect:
  "verdict_ok v \<Longrightarrow> verdict_ok (note_upload r v)"
  "verdict_error v \<noteq> None \<Longrightarrow> verdict_error (note_upload r v) \<noteq> None"
  "r = Inl e \<Longrightarrow> verdict_error (note_upload r v) \<noteq> None"
  by (cases r; cases "projl r"; auto simp: verdict_ok_def first_error_def verdict_error_def split: option.splits)+

lemma fold_verdict:
  "verdict_ok v \<Longrightarrow> verdict_ok (fold note_upload rs v)"
  "verdict_error v \<noteq> None \<or> (\<exists>e. Inl e \<in> set rs) \<Longrightarrow> verdict_error (fold note_upload rs v) \<noteq> None"
proof (induction rs arbitrary: v)
  case (Cons r rs)
  { case 1 then show ?case using Cons(1) note_upload_effect(1) by simp }
  { case 2
    then have "verdict_error (note_upload r v) \<noteq> None \<or> (\<exists>e. Inl e \<in> set rs)"
      using note_upload_effect(2,3) by (metis set_ConsD)
    then show ?case using Cons(2) by simp }
qed simp_all

lemma verdict_of_effect:
  "verdict_ok (upload_verdict_of rs)"
  "verdict_error (upload_verdict_of rs) = None \<Longrightarrow> Inl e \<notin> set rs"
proof -
  show "verdict_ok (upload_verdict_of rs)"
    unfolding upload_verdict_of_def by (rule fold_verdict(1)) (simp add: verdict_ok_def)
  show "verdict_error (upload_verdict_of rs) = None \<Longrightarrow> Inl e \<notin> set rs"
    using fold_verdict(2)[of _ rs] unfolding upload_verdict_of_def by blast
qed

lemma client_ok_after_uploads: "client_ok c \<Longrightarrow> client_ok (after_uploads e v c)"
  by (simp add: after_uploads_def client_ok_clear_all client_ok_clear_epoch)

subsection \<open>The operations keep the invariant\<close>

lemma remembered_forgotten:
  "remembered (cc_cache (clear_all_acknowledged_state_chunks c)) = {}"
  "(e, h) \<notin> remembered (cc_cache (clear_acknowledged_state_chunks e c))"
  using clear_epoch_effect(2)[of e "cc_cache c"]
  by (auto simp: clear_all_acknowledged_state_chunks_def clear_acknowledged_state_chunks_def with_cache_def logged_def)

lemma publish_effect:
  assumes "publish_manifest env e v notify p c = (r, c')" "client_ok c" "\<forall>h\<in>fst ` set (pr_chunks p). acked_in e h c"
  shows "client_ok c' \<and> (r = Inl (HttpStatus 428) \<longrightarrow> (e, h) \<notin> remembered (cc_cache c'))
    \<and> (\<forall>a b. r = Inl (DatabaseEpochChanged a b) \<longrightarrow> remembered (cc_cache c') = {})"
proof (cases "nv_url env ''api/local/state''")
  case (Inl x)
  then show ?thesis using assms by (auto simp: publish_manifest_def)
next
  case (Inr url)
  define hashes where "hashes = bt_set (map fst (pr_chunks p))"
  define sent where "sent = logged (ManifestSent e hashes (pr_manifest p)) c"
  have backed: "\<forall>h\<in>set hashes. (e, h) \<in> set (acked (cc_trace c))"
    using assms(3) by (simp add: hashes_def bt_set_spec acked_in_def)
  have ok: "client_ok sent" using assms(2) backed by (simp add: sent_def client_ok_def logged_def list_all_iff)
  obtain rep d where d: "exchange_with (nv_post_manifest env url e notify (pr_manifest p)) sent = (rep, d)"
    by (rule prod.exhaust)
  have okd: "client_ok d" by (rule client_ok_exchange[OF d ok])
  have "cc_trace d = ManifestSent e hashes (pr_manifest p) # cc_trace c"
    using exchange_trace[OF d] by (simp add: sent_def logged_def)
  then have pin: "client_ok (with_cache (pin_committed e v hashes) d)"
    using okd pin_effect[of "cc_cache d" e v hashes] backed
    by (auto simp: client_ok_def with_cache_def)
  have res: "(r, c') = (case rep of
              Inl e \<Rightarrow> (Inl (Transport e), d)
            | Inr reply \<Rightarrow>
                if is_success (hr_status reply) then (Inr (), with_cache (pin_committed e v hashes) d)
                else if hr_status reply = 428 then (Inl (HttpStatus 428), clear_acknowledged_state_chunks e d)
                else if hr_status reply = 409 then
                  (case changed_epoch e reply of
                     Some actual \<Rightarrow> (Inl (DatabaseEpochChanged e actual), clear_all_acknowledged_state_chunks d)
                   | None \<Rightarrow>
                       (case Option.bind (hr_version_header reply) parse_cloud_state_version_hint of
                          Some stored_version \<Rightarrow> (Inl (Conflict stored_version), d)
                        | None \<Rightarrow> (Inl (HttpStatus 409), d)))
                else (Inl (HttpStatus (hr_status reply)), d))"
    using assms(1) by (simp add: publish_manifest_def Inr hashes_def[symmetric] sent_def[symmetric] d)
  show ?thesis
    using res okd pin client_ok_clear_all[OF okd] client_ok_clear_epoch[OF okd, of e]
      remembered_forgotten(1)[of d] remembered_forgotten(2)[of e h d]
    by (auto split: sum.splits if_splits option.splits)
qed

lemma post_unprepared:
  assumes "client_epoch c = Inr expected" "chunked_snapshot (nv_sha256 env) (nv_encode env) True st = Inl x"
  shows "post_state_with_notify_viewers env choices st notify c
    = (Inl (if x = CloudStateComplexityExceeded then HttpStatus 413 else Transport x), c)"
  by (simp add: post_state_with_notify_viewers_def assms)

lemma post_too_large:
  assumes "client_epoch c = Inr expected" "chunked_snapshot (nv_sha256 env) (nv_encode env) True st = Inr p"
    "MAX_CLOUD_STATE_PARTITION_BYTES < pr_total_partition_bytes p \<or> MAX_CLOUD_STATE_CHUNKS < pr_total_chunk_references p"
  shows "post_state_with_notify_viewers env choices st notify c = (Inl (HttpStatus 413), c)"
  unfolding post_state_with_notify_viewers_def assms(1,2) sum.case if_P[OF assms(3)] ..

lemma post_uploaded:
  assumes "client_epoch c = Inr expected" "chunked_snapshot (nv_sha256 env) (nv_encode env) True st = Inr p"
    "\<not> (MAX_CLOUD_STATE_PARTITION_BYTES < pr_total_partition_bytes p \<or> MAX_CLOUD_STATE_CHUNKS < pr_total_chunk_references p)"
    "upload_chunks env expected choices (pr_chunks p) c = (results, d)"
  shows "post_state_with_notify_viewers env choices st notify c =
    (case verdict_error (upload_verdict_of results) of
       Some e \<Rightarrow> (Inl e, after_uploads expected (upload_verdict_of results) d)
     | None \<Rightarrow> publish_manifest env expected (cs_state_version st) notify p
                 (after_uploads expected (upload_verdict_of results) d))"
  unfolding post_state_with_notify_viewers_def assms(1,2) sum.case if_not_P[OF assms(3)] assms(4) prod.case Let_def ..

lemma post_effect:
  assumes "post_state_with_notify_viewers env choices st notify c = (r, c')" "client_ok c"
  shows "client_ok c'"
    "r = Inl (HttpStatus 428) \<Longrightarrow> cc_database_epoch c = Some e \<Longrightarrow> (e, h) \<notin> remembered (cc_cache c')"
    "r = Inl (DatabaseEpochChanged a b) \<Longrightarrow> remembered (cc_cache c') = {}"
proof -
  have all: "client_ok c' \<and> (r = Inl (HttpStatus 428) \<longrightarrow> cc_database_epoch c = Some e \<longrightarrow> (e, h) \<notin> remembered (cc_cache c'))
     \<and> (\<forall>a b. r = Inl (DatabaseEpochChanged a b) \<longrightarrow> remembered (cc_cache c') = {})"
  proof (cases "client_epoch c")
    case (Inl x)
    then show ?thesis using assms by (auto simp: post_state_with_notify_viewers_def)
  next
    case expected: (Inr expected)
    then have ep: "cc_database_epoch c = Some expected" by (simp add: client_epoch_def split: option.splits)
    show ?thesis
    proof (cases "chunked_snapshot (nv_sha256 env) (nv_encode env) True st")
      case (Inl x)
      have "r = Inl (if x = CloudStateComplexityExceeded then HttpStatus 413 else Transport x)" "c' = c"
        using assms(1) by (simp_all add: post_unprepared[OF expected Inl])
      then show ?thesis using assms(2) by (simp split: if_splits)
    next
      case prepared: (Inr p)
      show ?thesis
      proof (cases "MAX_CLOUD_STATE_PARTITION_BYTES < pr_total_partition_bytes p
                  \<or> MAX_CLOUD_STATE_CHUNKS < pr_total_chunk_references p")
        case True
        have "r = Inl (HttpStatus 413)" "c' = c"
          using assms(1) by (simp_all add: post_too_large[OF expected prepared True])
        then show ?thesis using assms(2) by simp
      next
        case False
        obtain results d where d: "upload_chunks env expected choices (pr_chunks p) c = (results, d)"
          by (rule prod.exhaust)
        define verdict where "verdict = upload_verdict_of results"
        define d' where "d' = after_uploads expected verdict d"
        note up = upload_chunks_effect[OF d assms(2)]
        note vo = verdict_of_effect(1)[of results, folded verdict_def]
        have ok: "client_ok d'" unfolding d'_def by (rule client_ok_after_uploads) (use up in blast)
        have res: "(r, c') = (case verdict_error verdict of Some e \<Rightarrow> (Inl e, d')
            | None \<Rightarrow> publish_manifest env expected (cs_state_version st) notify p d')"
          using assms(1) unfolding post_uploaded[OF expected prepared False d] verdict_def d'_def by simp
        show ?thesis
        proof (cases "verdict_error verdict")
          case None
          have "\<not> uv_clear_all_cache verdict" "\<not> uv_clear_epoch_cache verdict"
            using vo None by (simp_all add: verdict_ok_def)
          then have "d' = d" by (simp add: d'_def after_uploads_def)
          moreover have "\<forall>h\<in>fst ` set (pr_chunks p). acked_in expected h d"
              using up verdict_of_effect(2)[of results] None by (auto simp: verdict_def)
          moreover have "publish_manifest env expected (cs_state_version st) notify p d' = (r, c')"
            using res None by simp
          ultimately show ?thesis
            using publish_effect[of env expected "cs_state_version st" notify p d' r c' h] ok ep by auto
        next
          case (Some x)
          have rc: "r = Inl x" "c' = d'" using res Some by simp_all
          have "uv_epoch_error verdict = Some x \<or> uv_epoch_error verdict = None \<and> uv_upload_error verdict = Some x"
            using Some by (simp add: verdict_error_def split: option.splits)
          then have "x = HttpStatus 428 \<Longrightarrow> uv_clear_epoch_cache verdict"
            "\<And>a b. x = DatabaseEpochChanged a b \<Longrightarrow> uv_clear_all_cache verdict"
            using vo by (auto simp: verdict_ok_def)
          then show ?thesis
            using ok ep rc remembered_forgotten(1)[of d] remembered_forgotten(2)[of expected h d]
            by (auto simp: d'_def after_uploads_def)
        qed
      qed
    qed
  qed
  show "client_ok c'" using all by simp
  show "r = Inl (HttpStatus 428) \<Longrightarrow> cc_database_epoch c = Some e \<Longrightarrow> (e, h) \<notin> remembered (cc_cache c')"
    using all by simp
  show "r = Inl (DatabaseEpochChanged a b) \<Longrightarrow> remembered (cc_cache c') = {}" using all by simp
qed




lemma fetch_list_effect:
  assumes "fetch_request_list env c = (r, c')" "client_ok c" shows "client_ok c'"
proof (cases "nv_url env ''api/local/requests''")
  case (Inl e)
  then show ?thesis using assms by (simp add: fetch_request_list_def)
next
  case (Inr url)
  define limit where "limit = (if cc_database_epoch c \<noteq> None then ''100'' else ''1'')"
  obtain rep d where d: "exchange_with (nv_get_requests env url limit (cc_database_epoch c)) c = (rep, d)"
    by (rule prod.exhaust)
  have ok: "client_ok d" by (rule client_ok_exchange[OF d assms(2)])
  have "c' = snd (fetch_request_list env c)" using assms(1) by simp
  also have "\<dots> \<in> {c, d, clear_all_acknowledged_state_chunks d}"
    unfolding fetch_request_list_def Let_def limit_def[symmetric] Inr sum.case d prod.case
    by (simp split: sum.splits option.splits)
  finally show ?thesis using ok assms(2) client_ok_clear_all[OF ok] by auto
qed

lemma fetch_effect:
  assumes "fetch_requests env c = (r, c')" "client_ok c" shows "client_ok c'"
proof -
  obtain q d where d: "fetch_request_list env c = (q, d)" by (rule prod.exhaust)
  have ok: "client_ok d" by (rule fetch_list_effect[OF d assms(2)])
  have "c' = snd (fetch_requests env c)" using assms(1) by simp
  also have "\<dots> \<in> {c, d, clear_all_acknowledged_state_chunks d}"
    by (simp add: fetch_requests_def d split: sum.splits)
  finally show ?thesis using ok assms(2) client_ok_clear_all[OF ok] by auto
qed

lemma bootstrap_effect:
  assumes "bootstrap_database_epoch env c = (r, c')" "client_ok c" shows "client_ok c'"
proof -
  obtain q d where d: "fetch_request_list env c = (q, d)" by (rule prod.exhaust)
  show ?thesis using assms fetch_list_effect[OF d assms(2)] by (simp add: bootstrap_database_epoch_def d)
qed

lemma reply_effect:
  assumes "client_ok c"
  shows "client_ok (snd (acknowledge_reply expected (exchange_with ex c)))"
    and "client_ok (snd (rotation_reply expected (exchange_with ex c)))"
proof -
  obtain rep d where d: "exchange_with ex c = (rep, d)" by (rule prod.exhaust)
  have ok: "client_ok d" by (rule client_ok_exchange[OF d assms])
  have "snd (acknowledge_reply expected (rep, d)) \<in> {d, clear_all_acknowledged_state_chunks d}"
    "snd (rotation_reply expected (rep, d)) \<in> {d, clear_all_acknowledged_state_chunks d}"
    by (simp_all add: acknowledge_reply_def rotation_reply_def split: sum.splits option.splits)
  then show "client_ok (snd (acknowledge_reply expected (exchange_with ex c)))"
    "client_ok (snd (rotation_reply expected (exchange_with ex c)))"
    using ok client_ok_clear_all[OF ok] by (auto simp: d)
qed

lemma acknowledge_effect:
  assumes "acknowledge env requests c = (r, c')" "client_ok c" shows "client_ok c'"
proof -
  have "client_ok (snd (acknowledge env requests c))"
    unfolding acknowledge_def using assms(2) by (simp add: reply_effect split: sum.splits prod.splits)
  then show ?thesis using assms(1) by simp
qed

lemma recover_effect:
  assumes "recover_sequence_conflict env request c = (r, c')" "client_ok c" shows "client_ok c'"
proof -
  have "client_ok (snd (recover_sequence_conflict env request c))"
    unfolding recover_sequence_conflict_def using assms(2) by (simp add: reply_effect split: sum.splits prod.splits)
  then show ?thesis using assms(1) by simp
qed

subsection \<open>Reachable clients\<close>

inductive client_reachable :: "'w cloud_env \<Rightarrow> 'w cloud_client \<Rightarrow> bool" for env where
  Fresh: "client_reachable env (new_client w)"
| Epoch: "client_reachable env c \<Longrightarrow> with_database_epoch e c = Inr c' \<Longrightarrow> client_reachable env c'"
| Post: "client_reachable env c \<Longrightarrow> post_state_with_notify_viewers env choices st notify c = (r, c')
    \<Longrightarrow> client_reachable env c'"
| Bootstrap: "client_reachable env c \<Longrightarrow> bootstrap_database_epoch env c = (b, c') \<Longrightarrow> client_reachable env c'"
| Fetch: "client_reachable env c \<Longrightarrow> fetch_requests env c = (q, c') \<Longrightarrow> client_reachable env c'"
| Acknowledge: "client_reachable env c \<Longrightarrow> acknowledge env requests c = (a, c') \<Longrightarrow> client_reachable env c'"
| Recover: "client_reachable env c \<Longrightarrow> recover_sequence_conflict env request c = (a, c') \<Longrightarrow> client_reachable env c'"
| Elapse: "client_reachable env c \<Longrightarrow> client_reachable env (c\<lparr>cc_world := w\<rparr>)"

lemma client_reachable_ok: "client_reachable env c \<Longrightarrow> client_ok c"
proof (induction rule: client_reachable.induct)
  case (Post c choices st notify r c')
  then show ?case using post_effect(1) by blast
qed (auto intro: client_ok_new client_ok_with_epoch bootstrap_effect fetch_effect acknowledge_effect recover_effect)

subsection \<open>A sample exchange\<close>

definition sample_epoch :: string where "sample_epoch = replicate 32 (CHR ''0'')"

definition sample_reply :: "nat \<Rightarrow> http_reply" where
  "sample_reply status = \<lparr>hr_status = status, hr_epoch_header = None, hr_version_header = None, hr_sequence_header = None,
     hr_request_list = Inl (CloudError []), hr_rotation = Inl (CloudError [])\<rparr>"

definition sample_env :: "nat \<Rightarrow> nat cloud_env" where
  \<comment> \<open>the world is a clock; chunks are accepted, a manifest gets the given status\<close>
  "sample_env status = \<lparr>nv_sha256 = id, nv_encode = sample_encoder, nv_encode_request = \<lambda>_. Inr [], nv_url = Inr,
     nv_now = \<lambda>w. (w, w + 1), nv_post_chunk = \<lambda>_ _ _ w. (Inr (sample_reply 200), w),
     nv_post_manifest = \<lambda>_ _ _ _ w. (Inr (sample_reply status), w),
     nv_get_requests = \<lambda>_ _ _ w. (Inr (sample_reply 500), w), nv_post_ack = \<lambda>_ _ _ w. (Inr (sample_reply 200), w),
     nv_post_rotation = \<lambda>_ _ _ w. (Inr (sample_reply 500), w)\<rparr>"

definition sample_client :: "nat cloud_client" where
  "sample_client = \<lparr>cc_database_epoch = Some sample_epoch, cc_cache = ack_default\<lparr>ac_database_epoch := Some sample_epoch\<rparr>,
     cc_world = 0, cc_trace = []\<rparr>"

lemma sample_client_reachable: "client_reachable env sample_client"
proof (rule client_reachable.Epoch[OF client_reachable.Fresh])
  have v: "valid_database_epoch sample_epoch"
    by (simp add: valid_database_epoch_def sample_epoch_def list_all_length is_lower_hex_def is_ascii_digit_def byte_def)
  show "with_database_epoch sample_epoch (new_client 0) = Inr sample_client"
    by (simp add: with_database_epoch_def v new_client_def with_cache_def set_epoch_def ack_default_def ack_clear_def
        sample_client_def)
qed

lemma sample_complexity:
  "validate_cloud_json_complexity (cs_library sample_state) = Inr ()"
  "validate_cloud_json_complexity (state_contents sample_state) = Inr ()"
proof -
  have leaf: "json_nodes (JString s) = 1" "json_nodes (JArray []) = 1" "json_depth (JString s) = 0" "json_depth (JArray []) = 0" for s
    by (simp_all add: json_nodes.simps[of "JString s"] json_nodes.simps[of "JArray []"] json_depth.simps[of "JString s"]
        json_depth.simps[of "JArray []"] json_children_def)
  note object = json_nodes.simps[of "JObject x" for x] json_depth.simps[of "JObject x" for x]
  show "validate_cloud_json_complexity (cs_library sample_state) = Inr ()"
    "validate_cloud_json_complexity (state_contents sample_state) = Inr ()"
    using complexity_loop_exact[of 0 "[(cs_library sample_state, 0)]"]
      complexity_loop_exact[of 0 "[(state_contents sample_state, 0)]"]
    by (simp_all add: validate_cloud_json_complexity_def pending_nodes_def MAX_CLOUD_STATE_JSON_NODES_def
        MAX_CLOUD_STATE_JSON_DEPTH_def sample_state_def state_contents_def settings_json_def json_object_def bt_collect_def
        object json_children_def leaf)
qed

lemma sample_prepared:
  "chunked_snapshot id sample_encoder True sample_state
     = Inr \<lparr>pr_manifest = ''[]'', pr_chunks = [(''{}'', ''{}'')], pr_total_partition_bytes = 4,
           pr_total_chunk_references = 2, pr_wire_size = 6\<rparr>"
proof -
  have r: "library_revision_of True sample_state = Inr ''r1''"
    by (simp add: library_revision_of_def sample_get)
  show ?thesis
    unfolding chunked_snapshot_def enforced_def sample_encode r if_True sample_complexity bind_result.simps
      sample_chunk prod.case
    by (simp add: Let_def usat_add_def usize_max_def)
qed

definition uploaded_client :: "nat cloud_client" where
  "uploaded_client = sample_client\<lparr>cc_world := 2,
     cc_trace := [ChunkAccepted sample_epoch ''{}'', ChunkSent sample_epoch ''{}'' ''{}''],
     cc_cache := \<lparr>ac_database_epoch = Some sample_epoch, ac_staged = [((sample_epoch, ''{}''), 1)], ac_committed = None\<rparr>\<rparr>"

lemma sample_uploads:
  "upload_chunks (sample_env status) sample_epoch [] [(''{}'', ''{}'')] sample_client = ([Inr ()], uploaded_client)"
  by (simp add: upload_chunks_def CLOUD_STATE_CHUNK_UPLOAD_CONCURRENCY_def unpolled_def upload_loop.simps chosen_def
      sample_env_def sample_client_def state_chunk_is_acknowledged_def contains_at_def other_epoch_def expire_staged_at_def
      ack_default_def in_committed_def in_staged_def logged_def exchange_with_def sample_reply_def is_success_def
      remember_acknowledged_state_chunk_def with_cache_def remember_staged_at_def adopt_epoch_def make_room.simps
      CLOUD_STATE_CHUNK_ACK_CACHE_ENTRIES_def without_def uploaded_client_def)


definition published_client :: "nat cloud_client" where
  "published_client = uploaded_client\<lparr>
     cc_trace := ManifestSent sample_epoch [''{}''] ''[]'' # cc_trace uploaded_client\<rparr>"

lemma sample_post_with:
  "post_state_with_notify_viewers (sample_env status) [] sample_state None sample_client
     = publish_manifest (sample_env status) sample_epoch 7 None \<lparr>pr_manifest = ''[]'', pr_chunks = [(''{}'', ''{}'')],
         pr_total_partition_bytes = 4, pr_total_chunk_references = 2, pr_wire_size = 6\<rparr> uploaded_client"
proof -
  have e: "client_epoch sample_client = Inr sample_epoch" by (simp add: client_epoch_def sample_client_def)
  have p: "chunked_snapshot (nv_sha256 (sample_env status)) (nv_encode (sample_env status)) True sample_state
     = Inr \<lparr>pr_manifest = ''[]'', pr_chunks = [(''{}'', ''{}'')], pr_total_partition_bytes = 4,
           pr_total_chunk_references = 2, pr_wire_size = 6\<rparr>"
    using sample_prepared by (simp add: sample_env_def)
  have v: "cs_state_version sample_state = 7" by (simp add: sample_state_def)
  show ?thesis
    by (subst post_uploaded[OF e p, where choices = "[]" and results = "[Inr ()]" and d = uploaded_client])
      (simp_all add: MAX_CLOUD_STATE_PARTITION_BYTES_def MAX_CLOUD_STATE_CHUNKS_def sample_uploads verdict_error_def
        upload_verdict_of_def after_uploads_def v)
qed

lemma sample_publish:
  "publish_manifest (sample_env status) sample_epoch 7 None \<lparr>pr_manifest = ''[]'', pr_chunks = [(''{}'', ''{}'')],
         pr_total_partition_bytes = 4, pr_total_chunk_references = 2, pr_wire_size = 6\<rparr> uploaded_client
   = (if is_success status then (Inr (), with_cache (pin_committed sample_epoch 7 [''{}'']) published_client)
      else if status = 428 then (Inl (HttpStatus 428), clear_acknowledged_state_chunks sample_epoch published_client)
      else (Inl (HttpStatus status), published_client))"
  by (simp add: publish_manifest_def sample_env_def exchange_with_def sample_reply_def bt_set_def published_client_def
      logged_def changed_epoch_def database_epoch_from_header_def uploaded_client_def sample_client_def Let_def)

lemma sample_post:
  "post_state_with_notify_viewers (sample_env 200) [] sample_state None sample_client
     = (Inr (), with_cache (pin_committed sample_epoch 7 [''{}'']) published_client)"
  "post_state_with_notify_viewers (sample_env 428) [] sample_state None sample_client
     = (Inl (HttpStatus 428), clear_acknowledged_state_chunks sample_epoch published_client)"
  unfolding sample_post_with sample_publish by (simp_all add: is_success_def)

subsection \<open>Properties\<close>



text \<open>
  C16: When posting a state ends with the worker's report that it lacks chunks (428) or that its database has another
  epoch, whether the report came with a chunk or with the manifest, the cache holds nothing of the epoch any more,
  so the next attempt uploads every chunk again.
\<close>

theorem lost_chunks_forgotten:
  assumes "client_reachable env c" "cc_database_epoch c = Some e"
    "post_state_with_notify_viewers env choices st notify c = (Inl err, c')"
    "err = HttpStatus 428 \<or> err = DatabaseEpochChanged e actual"
  shows "(e, h) \<notin> remembered (cc_cache c')"
  using post_effect(2,3)[OF assms(3) client_reachable_ok[OF assms(1)]] assms(2,4) by blast

theorem lost_chunks_forgotten_witness:
  "post_state_with_notify_viewers (sample_env 428) [] sample_state None sample_client
     = (Inl (HttpStatus 428), clear_acknowledged_state_chunks sample_epoch published_client)
   \<and> (sample_epoch, ''{}'') \<notin> remembered (cc_cache (clear_acknowledged_state_chunks sample_epoch published_client))"
  using lost_chunks_forgotten[OF sample_client_reachable _ sample_post(2)] sample_post(2)
  by (simp add: sample_client_def)

end
